(* ===== verification/Go_Base.thy ===== *)
theory Go_Base
  imports Main "HOL-Library.Word"
begin

text \<open>
  The prelude: the parts of the Go language and of its standard library that the worker uses.
  A Go \<open>string\<close> and a Go \<open>[]byte\<close> are both sequences of bytes; both are \<open>string\<close>
  (a list of 8-bit characters) here, so the conversions between them are the identity.
  \<open>uint64\<close> is \<open>64 word\<close>; \<open>int64\<close>, \<open>int\<close> and \<open>time.Duration\<close> are \<open>int\<close>
  with \<open>wrap64\<close> written where the code can leave the range; \<open>*big.Int\<close> is \<open>int\<close>.
  A Go \<open>error\<close> is a value of \<open>goerr\<close>, a call that can fail returns \<open>goerr + 'a\<close>, and
  \<open>panic\<close> is a value of its own where a caller recovers from it.
\<close>

section \<open>Collections and types shared by the components\<close>

named_theorems wire_simps \<open>characteristic equations of encoders and decoders\<close>
named_theorems frame_simps \<open>fields that an operation leaves alone\<close>

type_synonym bytes = string
type_synonym u64 = "64 word"

section \<open>Errors\<close>

text \<open>
  \<open>Sentinel\<close> is a package-level error variable (compared by identity), \<open>ErrorText\<close> an
  \<open>errors.New\<close> or \<open>fmt.Errorf\<close> without \<open>%w\<close>, \<open>Wrapped p e\<close> is
  \<open>fmt.Errorf("p: %w", e)\<close>.
\<close>

datatype goerr =
    Sentinel string
  | ErrorText string
  | Wrapped string goerr

fun error_text :: "goerr \<Rightarrow> string" where
  "error_text (Sentinel s) = s"
| "error_text (ErrorText s) = s"
| "error_text (Wrapped p e) = p @ '': '' @ error_text e"

fun errors_is :: "goerr \<Rightarrow> goerr \<Rightarrow> bool" where
  "errors_is (Wrapped p e) t = (Wrapped p e = t \<or> errors_is e t)"
| "errors_is e t = (e = t)"

definition context_Canceled :: goerr where
  "context_Canceled = Sentinel ''context canceled''"

definition context_DeadlineExceeded :: goerr where
  "context_DeadlineExceeded = Sentinel ''context deadline exceeded''"

definition io_EOF :: goerr where
  "io_EOF = Sentinel ''EOF''"

fun err_of :: "goerr + 'a \<Rightarrow> goerr option" where
  "err_of (Inl e) = Some e"
| "err_of (Inr x) = None"

section \<open>Machine integers\<close>

definition wrap64 :: "int \<Rightarrow> int" where
  "wrap64 x = (x + 2 ^ 63) mod 2 ^ 64 - 2 ^ 63"

definition is_int64 :: "int \<Rightarrow> bool" where
  "is_int64 x = (- (2 ^ 63) \<le> x \<and> x < 2 ^ 63)"

definition go_quot :: "int \<Rightarrow> int \<Rightarrow> int" where
  \<comment> \<open>Go's \<open>/\<close> truncates towards zero; the code divides by a positive divisor only.\<close>
  "go_quot a b = (if a < 0 then - ((- a) div b) else a div b)"

section \<open>strings.TrimSpace\<close>

text \<open>
  \<open>TrimSpace\<close> removes the Unicode white space at both ends. In UTF-8 these are the one-byte
  runes below, the two-byte runes U+0085 and U+00A0 and the three-byte runes U+1680,
  U+2000 to U+200A, U+2028, U+2029, U+202F, U+205F and U+3000.
\<close>

definition space1 :: "char \<Rightarrow> bool" where
  "space1 a = (of_char a \<in> {9, 10, 11, 12, 13, 32 :: nat})"

definition space2 :: "char \<Rightarrow> char \<Rightarrow> bool" where
  "space2 a b = (of_char a = (194 :: nat) \<and> of_char b \<in> {133, 160 :: nat})"

definition space3 :: "char \<Rightarrow> char \<Rightarrow> char \<Rightarrow> bool" where
  "space3 a b c =
     (let x = of_char a :: nat; y = of_char b :: nat; z = of_char c :: nat in
      (x = 225 \<and> y = 154 \<and> z = 128) \<or>
      (x = 226 \<and> y = 128 \<and> (128 \<le> z \<and> z \<le> 138 \<or> z = 168 \<or> z = 169 \<or> z = 175)) \<or>
      (x = 226 \<and> y = 129 \<and> z = 159) \<or>
      (x = 227 \<and> y = 128 \<and> z = 128))"

fun trim_with ::
  "(char \<Rightarrow> bool) \<Rightarrow> (char \<Rightarrow> char \<Rightarrow> bool) \<Rightarrow> (char \<Rightarrow> char \<Rightarrow> char \<Rightarrow> bool) \<Rightarrow> string \<Rightarrow> string"
where
  "trim_with p q r [] = []"
| "trim_with p q r [a] = (if p a then [] else [a])"
| "trim_with p q r [a, b] =
     (if p a then trim_with p q r [b] else if q a b then [] else [a, b])"
| "trim_with p q r (a # b # c # s) =
     (if p a then trim_with p q r (b # c # s)
      else if q a b then trim_with p q r (c # s)
      else if r a b c then trim_with p q r s
      else a # b # c # s)"

definition TrimLeftSpace :: "string \<Rightarrow> string" where
  "TrimLeftSpace s = trim_with space1 space2 space3 s"

definition TrimRightSpace :: "string \<Rightarrow> string" where
  "TrimRightSpace s =
     rev (trim_with space1 (\<lambda>a b. space2 b a) (\<lambda>a b c. space3 c b a) (rev s))"

definition TrimSpace :: "string \<Rightarrow> string" where
  "TrimSpace s = TrimRightSpace (TrimLeftSpace s)"

section \<open>Decimal integers: big.Int.SetString, big.Int.String, %d\<close>

definition digit_char :: "nat \<Rightarrow> char" where
  "digit_char d = char_of (48 + d)"

definition digit_val :: "char \<Rightarrow> nat option" where
  "digit_val c =
     (let n = of_char c :: nat in if 48 \<le> n \<and> n \<le> 57 then Some (n - 48) else None)"

fun dec_nat :: "nat \<Rightarrow> string" where
  "dec_nat n = (if n < 10 then [digit_char n] else dec_nat (n div 10) @ [digit_char (n mod 10)])"

declare dec_nat.simps [simp del]

definition big_String :: "int \<Rightarrow> string" where
  "big_String n = (if n < 0 then ''-'' @ dec_nat (nat (- n)) else dec_nat (nat n))"

fun scan_digits :: "nat \<Rightarrow> string \<Rightarrow> nat option" where
  "scan_digits acc [] = Some acc"
| "scan_digits acc (c # s) =
     (case digit_val c of None \<Rightarrow> None | Some d \<Rightarrow> scan_digits (10 * acc + d) s)"

definition scan_nat :: "string \<Rightarrow> nat option" where
  "scan_nat s = (if s = [] then None else scan_digits 0 s)"

definition big_SetString :: "string \<Rightarrow> int option" where
  \<comment> \<open>\<open>new(big.Int).SetString(s, 10)\<close>: an optional sign, then at least one digit, nothing else.\<close>
  "big_SetString s =
     (case s of
        [] \<Rightarrow> None
      | c # t \<Rightarrow>
          if c = CHR ''-'' then map_option (\<lambda>n. - int n) (scan_nat t)
          else if c = CHR ''+'' then map_option int (scan_nat t)
          else map_option int (scan_nat s))"

definition pad3 :: "string \<Rightarrow> string" where
  \<comment> \<open>the verb \<open>%03d\<close> on a non-negative number\<close>
  "pad3 s = replicate (3 - length s) (CHR ''0'') @ s"

section \<open>Big-endian bytes: big.Int.SetBytes and big.Int.Bytes\<close>

definition be_step :: "nat \<Rightarrow> char \<Rightarrow> nat" where
  "be_step acc c = 256 * acc + of_char c"

definition big_SetBytes :: "bytes \<Rightarrow> int" where
  "big_SetBytes b = int (foldl be_step 0 b)"

fun be_bytes :: "nat \<Rightarrow> bytes" where
  "be_bytes n = (if n = 0 then [] else be_bytes (n div 256) @ [char_of (n mod 256)])"

declare be_bytes.simps [simp del]

definition big_Bytes :: "int \<Rightarrow> bytes" where
  \<comment> \<open>the absolute value, without leading zero bytes\<close>
  "big_Bytes n = be_bytes (nat \<bar>n\<bar>)"

section \<open>encoding/hex and encoding/base64\<close>

definition hex_digit :: "nat \<Rightarrow> char" where
  "hex_digit d = (if d < 10 then char_of (48 + d) else char_of (87 + d))"

definition hex_val :: "char \<Rightarrow> nat option" where
  "hex_val c =
     (let n = of_char c :: nat in
      if 48 \<le> n \<and> n \<le> 57 then Some (n - 48)
      else if 97 \<le> n \<and> n \<le> 102 then Some (n - 87)
      else if 65 \<le> n \<and> n \<le> 70 then Some (n - 55)
      else None)"

fun hex_EncodeToString :: "bytes \<Rightarrow> string" where
  "hex_EncodeToString [] = []"
| "hex_EncodeToString (c # s) =
     hex_digit (of_char c div 16) # hex_digit (of_char c mod 16) # hex_EncodeToString s"

fun hex_DecodeString :: "string \<Rightarrow> bytes option" where
  "hex_DecodeString [] = Some []"
| "hex_DecodeString [a] = None"
| "hex_DecodeString (a # b # s) =
     (case (hex_val a, hex_val b) of
        (Some x, Some y) \<Rightarrow> map_option ((#) (char_of (16 * x + y))) (hex_DecodeString s)
      | _ \<Rightarrow> None)"

definition b64_val :: "char \<Rightarrow> nat option" where
  "b64_val c =
     (let n = of_char c :: nat in
      if 65 \<le> n \<and> n \<le> 90 then Some (n - 65)
      else if 97 \<le> n \<and> n \<le> 122 then Some (n - 71)
      else if 48 \<le> n \<and> n \<le> 57 then Some (n + 4)
      else if n = 43 then Some 62
      else if n = 47 then Some 63
      else None)"

text \<open>
  \<open>base64.StdEncoding\<close>, with the offset that \<open>CorruptInputError\<close> reports: \<open>b64_decode si q cs\<close> reads \<open>cs\<close>, which
  begins at offset \<open>si\<close>, with the values \<open>q\<close> of the quantum at hand. Carriage returns and line feeds are
  skipped, padding is required, bits left over are ignored.
\<close>

definition b64_newline :: "char \<Rightarrow> bool" where
  "b64_newline c \<longleftrightarrow> c = char_of (10 :: nat) \<or> c = char_of (13 :: nat)"

fun b64_skip :: "nat \<Rightarrow> string \<Rightarrow> nat \<times> string" where
  "b64_skip si [] = (si, [])"
| "b64_skip si (c # cs) = (if b64_newline c then b64_skip (si + 1) cs else (si, c # cs))"

fun b64_bytes :: "nat list \<Rightarrow> bytes" where
  "b64_bytes [w, x] = [char_of (4 * w + x div 16)]"
| "b64_bytes [w, x, y] = [char_of (4 * w + x div 16), char_of (16 * (x mod 16) + y div 4)]"
| "b64_bytes [w, x, y, z] =
     [char_of (4 * w + x div 16), char_of (16 * (x mod 16) + y div 4), char_of (64 * (y mod 4) + z)]"
| "b64_bytes _ = []"

definition b64_end :: "nat list \<Rightarrow> nat \<times> string \<Rightarrow> nat + bytes" where
  "b64_end q rest = (case rest of (si, []) \<Rightarrow> Inr (b64_bytes q) | (si, _ # _) \<Rightarrow> Inl si)"

fun b64_decode :: "nat \<Rightarrow> nat list \<Rightarrow> string \<Rightarrow> nat + bytes" where
  "b64_decode si q [] = (if q = [] then Inr [] else Inl (si - length q))"
| "b64_decode si q (c # cs) =
     (case b64_val c of
        Some v \<Rightarrow>
          if length q < 3 then b64_decode (si + 1) (q @ [v]) cs
          else (case b64_decode (si + 1) [] cs of
                  Inl e \<Rightarrow> Inl e
                | Inr bs \<Rightarrow> Inr (b64_bytes (q @ [v]) @ bs))
      | None \<Rightarrow>
          if b64_newline c then b64_decode (si + 1) q cs
          else if c \<noteq> CHR ''='' \<or> length q < 2 then Inl si
          else if length q = 2 then
            (case b64_skip (si + 1) cs of
               (si', []) \<Rightarrow> Inl si'
             | (si', d # ds) \<Rightarrow> if d \<noteq> CHR ''='' then Inl (si' - 1) else b64_end q (b64_skip (si' + 1) ds))
          else b64_end q (b64_skip (si + 1) cs))"

definition CorruptInputError :: "nat \<Rightarrow> goerr" where
  "CorruptInputError e = ErrorText (''illegal base64 data at input byte '' @ big_String (int e))"

definition base64_DecodeString :: "string \<Rightarrow> goerr + bytes" where
  "base64_DecodeString s = (case b64_decode 0 [] s of Inl e \<Rightarrow> Inl (CorruptInputError e) | Inr bs \<Rightarrow> Inr bs)"

section \<open>HTTP headers\<close>

text \<open>
  A header map, keyed by canonical header name; the code only uses the first value of a header.
  Names the code spells canonically are passed as they are, the others through
  \<open>CanonicalHeaderKey\<close>: the first letter and every letter after a hyphen in upper case, the
  others in lower case. It is used on names made of letters and hyphens only.
\<close>

fun canonical_key :: "bool \<Rightarrow> string \<Rightarrow> string" where
  "canonical_key upper [] = []"
| "canonical_key upper (c # cs) =
     (let n = (of_char c :: nat);
          c' = (if upper \<and> 97 \<le> n \<and> n \<le> 122 then char_of (n - 32)
                else if \<not> upper \<and> 65 \<le> n \<and> n \<le> 90 then char_of (n + 32) else c)
      in c' # canonical_key (n = 45) cs)"

definition CanonicalHeaderKey :: "string \<Rightarrow> string" where
  "CanonicalHeaderKey s = canonical_key True s"

type_synonym header = "string \<rightharpoonup> string"

definition header_Get :: "header \<Rightarrow> string \<Rightarrow> string" where
  "header_Get h k = (case h k of None \<Rightarrow> '''' | Some v \<Rightarrow> v)"

definition header_Set :: "header \<Rightarrow> string \<Rightarrow> string \<Rightarrow> header" where
  "header_Set h k v = h(k \<mapsto> v)"


section \<open>Lemmas: errors and headers\<close>

lemma err_of_None_iff [simp]: "err_of r = None \<longleftrightarrow> (\<exists>x. r = Inr x)"
  by (cases r) auto

lemma err_of_Some_iff [simp]: "err_of r = Some e \<longleftrightarrow> r = Inl e"
  by (cases r) auto

lemma errors_is_Wrapped_sentinel [simp]:
  "errors_is (Wrapped p e) (Sentinel s) = errors_is e (Sentinel s)"
  by simp

lemma header_Get_Set [simp]:
  "header_Get (header_Set h k v) k' = (if k' = k then v else header_Get h k')"
  by (simp add: header_Get_def header_Set_def)

section \<open>Lemmas: machine integers\<close>

lemma wrap64_id [simp]: "is_int64 x \<Longrightarrow> wrap64 x = x"
  by (simp add: wrap64_def is_int64_def)

lemma wrap64_range: "is_int64 (wrap64 x)"
proof -
  have "0 \<le> (x + 2 ^ 63) mod 2 ^ 64" and "(x + 2 ^ 63) mod 2 ^ 64 < (2 ^ 64 :: int)"
    by simp_all
  then show ?thesis by (simp add: wrap64_def is_int64_def)
qed

lemma go_quot_nonneg: "0 \<le> a \<Longrightarrow> go_quot a b = a div b"
  by (simp add: go_quot_def)

lemma sint_small: "uint (w :: u64) < 2 ^ 63 \<Longrightarrow> sint w = uint w"
  by (simp add: sint_uint signed_take_bit_int_eq_self_iff)
     (smt (verit, best) uint_ge_0 zero_le_power)

section \<open>Lemmas: TrimSpace\<close>

fun starts_space ::
  "(char \<Rightarrow> bool) \<Rightarrow> (char \<Rightarrow> char \<Rightarrow> bool) \<Rightarrow> (char \<Rightarrow> char \<Rightarrow> char \<Rightarrow> bool) \<Rightarrow> string \<Rightarrow> bool"
where
  "starts_space p q r [] = False"
| "starts_space p q r [a] = p a"
| "starts_space p q r [a, b] = (p a \<or> q a b)"
| "starts_space p q r (a # b # c # s) = (p a \<or> q a b \<or> r a b c)"

lemma trim_with_not_starts: "\<not> starts_space p q r (trim_with p q r s)"
  by (induction p q r s rule: trim_with.induct) auto

lemma trim_with_fixed: "\<not> starts_space p q r s \<Longrightarrow> trim_with p q r s = s"
  by (cases "(p, q, r, s)" rule: starts_space.cases) auto

lemma trim_with_idem [simp]: "trim_with p q r (trim_with p q r s) = trim_with p q r s"
  by (simp add: trim_with_fixed trim_with_not_starts)

lemma starts_space_append: "starts_space p q r s \<Longrightarrow> starts_space p q r (s @ t)"
  by (cases "(p, q, r, s)" rule: starts_space.cases; cases t; cases "tl t") auto

lemma trim_with_suffix: "\<exists>t. s = t @ trim_with p q r s"
proof (induction p q r s rule: trim_with.induct)
  case (3 p q r a b)
  then show ?case by (auto intro: exI [of _ "[a]"] exI [of _ "[a, b]"])
next
  case (4 p q r a b c s)
  then show ?case
    by (auto; metis append_Cons append_Nil)
qed auto

lemma TrimRightSpace_prefix: "\<exists>t. s = TrimRightSpace s @ t"
proof -
  obtain t where
    "rev s = t @ trim_with space1 (\<lambda>a b. space2 b a) (\<lambda>a b c. space3 c b a) (rev s)"
    using trim_with_suffix by blast
  then have "s = rev (t @ trim_with space1 (\<lambda>a b. space2 b a) (\<lambda>a b c. space3 c b a) (rev s))"
    by (metis rev_rev_ident)
  then show ?thesis by (auto simp: TrimRightSpace_def)
qed

lemma TrimSpace_not_starts: "\<not> starts_space space1 space2 space3 (TrimSpace s)"
proof
  assume st: "starts_space space1 space2 space3 (TrimSpace s)"
  obtain t where "TrimLeftSpace s = TrimSpace s @ t"
    using TrimRightSpace_prefix [of "TrimLeftSpace s"] by (auto simp: TrimSpace_def)
  with starts_space_append [OF st, of t] have "starts_space space1 space2 space3 (TrimLeftSpace s)"
    by simp
  then show False by (simp add: TrimLeftSpace_def trim_with_not_starts)
qed

lemma TrimSpace_idem [simp]: "TrimSpace (TrimSpace s) = TrimSpace s"
proof -
  have "TrimLeftSpace (TrimSpace s) = TrimSpace s"
    by (simp add: TrimLeftSpace_def trim_with_fixed TrimSpace_not_starts)
  then have "TrimSpace (TrimSpace s) = TrimRightSpace (TrimSpace s)"
    by (simp add: TrimSpace_def)
  also have "\<dots> = TrimSpace s"
    by (simp add: TrimSpace_def TrimRightSpace_def)
  finally show ?thesis .
qed

lemma TrimSpace_Nil [simp]: "TrimSpace [] = []"
  by (simp add: TrimSpace_def TrimRightSpace_def TrimLeftSpace_def)

section \<open>Lemmas: decimal, big-endian and hexadecimal round trips\<close>

lemma of_char_lt_256 [simp]: "of_char c < (256 :: nat)"
proof -
  have "of_char c mod 256 < (256 :: nat)" by simp
  then show ?thesis by (simp only: of_char_mod_256)
qed

lemma of_char_char_of_nat [simp]: "n < 256 \<Longrightarrow> of_char (char_of (n :: nat)) = n"
  by simp

lemma digit_val_digit_char [wire_simps]: "d < 10 \<Longrightarrow> digit_val (digit_char d) = Some d"
  by (simp add: digit_val_def digit_char_def Let_def)

lemma scan_digits_append:
  "scan_digits acc (s @ [c]) =
     (case scan_digits acc s of None \<Rightarrow> None
      | Some n \<Rightarrow> map_option (\<lambda>d. 10 * n + d) (digit_val c))"
  by (induction s arbitrary: acc) (auto split: option.splits)

lemma scan_digits_dec_nat [wire_simps]: "scan_digits 0 (dec_nat n) = Some n"
proof (induction n rule: dec_nat.induct)
  case (1 n)
  show ?case
  proof (cases "n < 10")
    case True
    then show ?thesis by (simp add: dec_nat.simps wire_simps)
  next
    case False
    with 1 show ?thesis
      by (simp add: dec_nat.simps [of n] scan_digits_append digit_val_digit_char)
  qed
qed

lemma dec_nat_not_Nil [simp]: "dec_nat n \<noteq> []"
  by (subst dec_nat.simps) simp

lemma scan_nat_dec_nat [wire_simps]: "scan_nat (dec_nat n) = Some n"
  by (simp add: scan_nat_def wire_simps)

lemma dec_nat_inj [simp]: "dec_nat m = dec_nat n \<longleftrightarrow> m = n"
  by (metis option.inject scan_digits_dec_nat)

lemma digit_char_in: "d < 10 \<Longrightarrow> 48 \<le> (of_char (digit_char d) :: nat) \<and> (of_char (digit_char d) :: nat) \<le> 57"
  by (simp add: digit_char_def)

lemma dec_nat_digits: "c \<in> set (dec_nat n) \<Longrightarrow> 48 \<le> (of_char c :: nat) \<and> (of_char c :: nat) \<le> 57"
proof (induction n rule: dec_nat.induct)
  case (1 n)
  then show ?case
    by (cases "n < 10") (auto simp: dec_nat.simps [of n] digit_char_in)
qed

lemma dec_nat_no_char: "\<not> (48 \<le> (of_char c :: nat) \<and> (of_char c :: nat) \<le> 57) \<Longrightarrow> c \<notin> set (dec_nat n)"
  using dec_nat_digits by blast

theorem big_SetString_String [wire_simps]: "big_SetString (big_String n) = Some n"
proof (cases "n < 0")
  case True
  then show ?thesis
    by (simp add: big_SetString_def big_String_def scan_nat_dec_nat)
next
  case False
  obtain c t where ct: "dec_nat (nat n) = c # t"
    by (meson dec_nat_not_Nil list.exhaust)
  have "c \<in> set (dec_nat (nat n))" by (simp add: ct)
  then have "c \<noteq> CHR ''-''" and "c \<noteq> CHR ''+''"
    using dec_nat_digits [of c "nat n"] by auto
  with False show ?thesis
    by (simp add: big_SetString_def big_String_def ct flip: ct)
       (simp add: ct scan_nat_dec_nat [of "nat n", unfolded ct])
qed

lemma big_String_inj [simp]: "big_String m = big_String n \<longleftrightarrow> m = n"
  by (metis option.inject big_SetString_String)

lemma big_SetBytes_nonneg [simp]: "0 \<le> big_SetBytes b"
  by (simp add: big_SetBytes_def)

lemma foldl_be_bytes: "foldl be_step 0 (be_bytes n) = n"
proof (induction n rule: be_bytes.induct)
  case (1 n)
  then show ?case by (cases "n = 0") (auto simp: be_bytes.simps [of n] be_bytes.simps [of 0] be_step_def)
qed

theorem big_SetBytes_Bytes [wire_simps]: "big_SetBytes (big_Bytes n) = \<bar>n\<bar>"
  by (simp add: big_SetBytes_def big_Bytes_def foldl_be_bytes)

lemma hex_val_hex_digit [wire_simps]: "d < 16 \<Longrightarrow> hex_val (hex_digit d) = Some d"
  by (auto simp: hex_val_def hex_digit_def Let_def)

lemma length_hex_Encode [simp]: "length (hex_EncodeToString b) = 2 * length b"
  by (induction b) auto

theorem hex_Decode_Encode [wire_simps]: "hex_DecodeString (hex_EncodeToString b) = Some b"
proof (induction b)
  case (Cons c b)
  have "of_char c div 16 < (16 :: nat)"
    using of_char_lt_256 [of c] by (simp add: less_mult_imp_div_less)
  with Cons show ?case by (simp add: wire_simps)
qed simp

lemma hex_Encode_inj [simp]: "hex_EncodeToString a = hex_EncodeToString b \<longleftrightarrow> a = b"
  by (metis option.inject hex_Decode_Encode)

end
