(* ===== verification/Metrics.thy ===== *)
theory Metrics
  imports Go_Base
begin

text \<open>
  \<^verbatim>\<open>internal/providers/metrics\<close>: the \<open>Recorder\<close> interface, its \<open>Noop\<close>,
  \<open>Counter\<close> and \<open>Prometheus\<close> implementations and the cardinality cap \<open>capVec\<close>.
  A call of a \<open>Recorder\<close> method is a value of \<open>metric_call\<close>; a \<open>Recorder\<close> is a
  function that updates its own state on such a call. Latency values are not modelled: an
  observation is recorded as one observation of its label tuple. A recorder call is one step here, so
  the lemmas are about calls that do not overlap: the cap bounds the series of every counter, a
  series once admitted keeps counting and the cap callback runs at most once per counter. Theory
  \<open>Metrics_Concurrent\<close> has the calls that do overlap.
\<close>

section \<open>The Recorder interface\<close>

datatype metric_call =
    IncRequest string string string
  | ObserveRequest string string string
  | AddWorkUnits string string string int
  | IncDaemonRPC string string
  | ObserveDaemonRPC string string
  | IncBackendRequest string string string
  | ObserveBackendRequest string string
  | IncBackendError string string string
  | SetBackendLastSuccess string string int
  | IncTokenizerCall string string
  | IncCapacityRejection string
  | SetInflightRequests int
  | IncPaymentRejection string
  | SetUptimeSeconds int
  | SetBuildInfo string string string
  | SetMaxConcurrent int

type_synonym 'r recorder = "metric_call \<Rightarrow> 'r \<Rightarrow> 'r"

definition OutcomeRequest2xx :: string where "OutcomeRequest2xx = ''2xx''"
definition OutcomeRequest4xx :: string where "OutcomeRequest4xx = ''4xx''"
definition OutcomeRequest402 :: string where "OutcomeRequest402 = ''402''"
definition OutcomeRequest5xx :: string where "OutcomeRequest5xx = ''5xx''"
definition OutcomeRequestCanceled :: string where "OutcomeRequestCanceled = ''canceled''"
definition OutcomeOK :: string where "OutcomeOK = ''ok''"
definition OutcomeError :: string where "OutcomeError = ''error''"
definition PaymentRejectProcessPayment :: string where "PaymentRejectProcessPayment = ''process_payment_failed''"
definition PaymentRejectInsufficientBalance :: string where "PaymentRejectInsufficientBalance = ''insufficient_balance''"
definition PaymentRejectDebitError :: string where "PaymentRejectDebitError = ''debit_error''"
definition PaymentRejectHeaderInvalid :: string where "PaymentRejectHeaderInvalid = ''header_invalid''"
definition PaymentRejectHeaderMissing :: string where "PaymentRejectHeaderMissing = ''header_missing''"
definition BackendErrorTimeout :: string where "BackendErrorTimeout = ''timeout''"
definition BackendError5xx :: string where "BackendError5xx = ''5xx''"
definition BackendErrorMalformed :: string where "BackendErrorMalformed = ''malformed''"
definition BackendErrorConnect :: string where "BackendErrorConnect = ''connect''"
definition LabelUnset :: string where "LabelUnset = ''_unset_''"

section \<open>Noop\<close>

definition Noop :: "unit recorder" where
  "Noop m r = r"

section \<open>The cardinality cap\<close>

record capVec =
  cv_vec :: "string list \<rightharpoonup> int"
  cv_name :: string
  cv_max :: int
  cv_seen :: "string set"
  cv_count :: int
  cv_exceeded :: bool

type_synonym cap_event = "string \<times> int \<times> int"

definition newCap :: "string \<Rightarrow> capVec" where
  "newCap name = \<lparr>cv_vec = Map.empty, cv_name = name, cv_max = 0, cv_seen = {}, cv_count = 0,
                  cv_exceeded = False\<rparr>"

definition withCap :: "int \<Rightarrow> capVec \<Rightarrow> capVec" where
  "withCap m c = c\<lparr>cv_max := m\<rparr>"

fun joinNul :: "string list \<Rightarrow> string" where
  "joinNul [] = []"
| "joinNul (v # vs) = v @ char_of (0 :: nat) # joinNul vs"

definition allow :: "string list \<Rightarrow> capVec \<Rightarrow> bool \<times> capVec \<times> cap_event list" where
  "allow vals c =
     (if cv_max c \<le> 0 then (True, c, [])
      else let key = joinNul vals in
        if key \<in> cv_seen c then (True, c, [])
        else if cv_count c \<ge> cv_max c then
          (if \<not> cv_exceeded c
           then (False, c\<lparr>cv_exceeded := True\<rparr>, [(cv_name c, cv_count c, cv_max c)])
           else (False, c, []))
        else (True, c\<lparr>cv_seen := insert key (cv_seen c), cv_count := cv_count c + 1\<rparr>, []))"

definition vec_add :: "int \<Rightarrow> string list \<Rightarrow> capVec \<Rightarrow> capVec" where
  "vec_add delta vals c =
     c\<lparr>cv_vec := (cv_vec c)(vals \<mapsto> delta + (case cv_vec c vals of None \<Rightarrow> 0 | Some n \<Rightarrow> n))\<rparr>"

definition cap_add :: "int \<Rightarrow> string list \<Rightarrow> capVec \<Rightarrow> capVec \<times> cap_event list" where
  "cap_add delta vals c =
     (case allow vals c of (ok, c', ev) \<Rightarrow> (if ok then vec_add delta vals c' else c', ev))"

definition cap_inc :: "string list \<Rightarrow> capVec \<Rightarrow> capVec \<times> cap_event list" where
  "cap_inc vals c = cap_add 1 vals c"

definition unset :: "string \<Rightarrow> string" where
  "unset v = (if v = '''' then LabelUnset else v)"

section \<open>Prometheus\<close>

type_synonym series = "string list \<rightharpoonup> int"

record prometheus =
  pm_requests :: capVec
  pm_workUnits :: capVec
  pm_daemonRPCCalls :: capVec
  pm_backendRequests :: capVec
  pm_backendErrors :: capVec
  pm_tokenizerCalls :: capVec
  pm_capacityRejections :: capVec
  pm_paymentRejections :: capVec
  pm_requestDuration :: series
  pm_daemonRPCDuration :: series
  pm_daemonRPCDurationFast :: series
  pm_backendDuration :: series
  pm_inflightRequests :: int
  pm_backendLastSuccess :: series
  pm_uptimeSeconds :: int
  pm_buildInfo :: series
  pm_maxConcurrent :: int
  pm_onCapHit :: "cap_event list"

definition observe :: "string list \<Rightarrow> series \<Rightarrow> series" where
  "observe vals s = s(vals \<mapsto> 1 + (case s vals of None \<Rightarrow> 0 | Some n \<Rightarrow> n))"

definition ApplyCap :: "int \<Rightarrow> prometheus \<Rightarrow> prometheus" where
  "ApplyCap m p =
     p\<lparr>pm_requests := withCap m (pm_requests p),
       pm_workUnits := withCap m (pm_workUnits p),
       pm_daemonRPCCalls := withCap m (pm_daemonRPCCalls p),
       pm_backendRequests := withCap m (pm_backendRequests p),
       pm_backendErrors := withCap m (pm_backendErrors p),
       pm_tokenizerCalls := withCap m (pm_tokenizerCalls p),
       pm_capacityRejections := withCap m (pm_capacityRejections p),
       pm_paymentRejections := withCap m (pm_paymentRejections p)\<rparr>"

definition NewPrometheus :: "int \<Rightarrow> prometheus" where
  "NewPrometheus maxSeries =
     ApplyCap maxSeries
       \<lparr>pm_requests = newCap ''requests_total'',
        pm_workUnits = newCap ''work_units_total'',
        pm_daemonRPCCalls = newCap ''daemon_rpc_calls_total'',
        pm_backendRequests = newCap ''backend_requests_total'',
        pm_backendErrors = newCap ''backend_errors_total'',
        pm_tokenizerCalls = newCap ''tokenizer_calls_total'',
        pm_capacityRejections = newCap ''capacity_rejections_total'',
        pm_paymentRejections = newCap ''payment_rejections_total'',
        pm_requestDuration = Map.empty,
        pm_daemonRPCDuration = Map.empty,
        pm_daemonRPCDurationFast = Map.empty,
        pm_backendDuration = Map.empty,
        pm_inflightRequests = 0,
        pm_backendLastSuccess = Map.empty,
        pm_uptimeSeconds = 0,
        pm_buildInfo = Map.empty,
        pm_maxConcurrent = 0,
        pm_onCapHit = []\<rparr>"

fun Prometheus :: "prometheus recorder" where
  "Prometheus (IncRequest capability model outcome) p =
     (let (v, ev) = cap_inc [unset capability, unset model, unset outcome] (pm_requests p)
      in p\<lparr>pm_requests := v, pm_onCapHit := pm_onCapHit p @ ev\<rparr>)"
| "Prometheus (ObserveRequest capability model outcome) p =
     p\<lparr>pm_requestDuration := observe [unset capability, unset model, unset outcome] (pm_requestDuration p)\<rparr>"
| "Prometheus (AddWorkUnits capability model unit n) p =
     (if n \<le> 0 then p
      else let (v, ev) = cap_add n [unset capability, unset model, unset unit] (pm_workUnits p)
           in p\<lparr>pm_workUnits := v, pm_onCapHit := pm_onCapHit p @ ev\<rparr>)"
| "Prometheus (IncDaemonRPC method outcome) p =
     (let (v, ev) = cap_inc [unset method, unset outcome] (pm_daemonRPCCalls p)
      in p\<lparr>pm_daemonRPCCalls := v, pm_onCapHit := pm_onCapHit p @ ev\<rparr>)"
| "Prometheus (ObserveDaemonRPC method outcome) p =
     p\<lparr>pm_daemonRPCDuration := observe [unset method, unset outcome] (pm_daemonRPCDuration p),
       pm_daemonRPCDurationFast := observe [unset method, unset outcome] (pm_daemonRPCDurationFast p)\<rparr>"
| "Prometheus (IncBackendRequest capability model outcome) p =
     (let (v, ev) = cap_inc [unset capability, unset model, unset outcome] (pm_backendRequests p)
      in p\<lparr>pm_backendRequests := v, pm_onCapHit := pm_onCapHit p @ ev\<rparr>)"
| "Prometheus (ObserveBackendRequest capability model) p =
     p\<lparr>pm_backendDuration := observe [unset capability, unset model] (pm_backendDuration p)\<rparr>"
| "Prometheus (IncBackendError capability model errorClass) p =
     (let (v, ev) = cap_inc [unset capability, unset model, unset errorClass] (pm_backendErrors p)
      in p\<lparr>pm_backendErrors := v, pm_onCapHit := pm_onCapHit p @ ev\<rparr>)"
| "Prometheus (SetBackendLastSuccess capability model t) p =
     p\<lparr>pm_backendLastSuccess := (pm_backendLastSuccess p)([unset capability, unset model] \<mapsto> t)\<rparr>"
| "Prometheus (IncTokenizerCall model outcome) p =
     (let (v, ev) = cap_inc [unset model, unset outcome] (pm_tokenizerCalls p)
      in p\<lparr>pm_tokenizerCalls := v, pm_onCapHit := pm_onCapHit p @ ev\<rparr>)"
| "Prometheus (IncCapacityRejection capability) p =
     (let (v, ev) = cap_inc [unset capability] (pm_capacityRejections p)
      in p\<lparr>pm_capacityRejections := v, pm_onCapHit := pm_onCapHit p @ ev\<rparr>)"
| "Prometheus (SetInflightRequests n) p = p\<lparr>pm_inflightRequests := n\<rparr>"
| "Prometheus (IncPaymentRejection reason) p =
     (let (v, ev) = cap_inc [unset reason] (pm_paymentRejections p)
      in p\<lparr>pm_paymentRejections := v, pm_onCapHit := pm_onCapHit p @ ev\<rparr>)"
| "Prometheus (SetUptimeSeconds s) p = p\<lparr>pm_uptimeSeconds := s\<rparr>"
| "Prometheus (SetBuildInfo version protocolVersion goVersion) p =
     p\<lparr>pm_buildInfo := (pm_buildInfo p)([version, protocolVersion, goVersion] \<mapsto> 1)\<rparr>"
| "Prometheus (SetMaxConcurrent n) p = p\<lparr>pm_maxConcurrent := n\<rparr>"

definition prometheus_run :: "metric_call list \<Rightarrow> prometheus \<Rightarrow> prometheus" where
  "prometheus_run ms p = fold Prometheus ms p"

section \<open>Counter, the recorder of the tests\<close>

record counter =
  ct_Requests :: int
  ct_RequestObserves :: int
  ct_WorkUnitsAdds :: int
  ct_WorkUnitsTotal :: int
  ct_DaemonRPCCalls :: int
  ct_DaemonRPCObserves :: int
  ct_BackendRequests :: int
  ct_BackendObserves :: int
  ct_BackendErrors :: int
  ct_TokenizerCalls :: int
  ct_CapacityRejections :: int
  ct_PaymentRejections :: int
  ct_InflightV :: int
  ct_MaxConcurrentV :: int
  ct_LastRequestOutcome :: "string option"
  ct_LastDaemonRPCMethod :: "string option"
  ct_LastDaemonRPCOutcome :: "string option"
  ct_LastBackendOutcome :: "string option"
  ct_LastBackendErrorClass :: "string option"
  ct_LastPaymentReason :: "string option"
  ct_LastTokenizerOutcome :: "string option"
  ct_LastWorkUnitsUnit :: "string option"

definition NewCounter :: counter where
  "NewCounter =
     \<lparr>ct_Requests = 0, ct_RequestObserves = 0, ct_WorkUnitsAdds = 0, ct_WorkUnitsTotal = 0,
      ct_DaemonRPCCalls = 0, ct_DaemonRPCObserves = 0, ct_BackendRequests = 0,
      ct_BackendObserves = 0, ct_BackendErrors = 0, ct_TokenizerCalls = 0,
      ct_CapacityRejections = 0, ct_PaymentRejections = 0, ct_InflightV = 0,
      ct_MaxConcurrentV = 0, ct_LastRequestOutcome = None, ct_LastDaemonRPCMethod = None,
      ct_LastDaemonRPCOutcome = None, ct_LastBackendOutcome = None,
      ct_LastBackendErrorClass = None, ct_LastPaymentReason = None,
      ct_LastTokenizerOutcome = None, ct_LastWorkUnitsUnit = None\<rparr>"

fun Counter :: "counter recorder" where
  "Counter (IncRequest c m outcome) r =
     r\<lparr>ct_Requests := ct_Requests r + 1, ct_LastRequestOutcome := Some outcome\<rparr>"
| "Counter (ObserveRequest c m oc) r = r\<lparr>ct_RequestObserves := ct_RequestObserves r + 1\<rparr>"
| "Counter (AddWorkUnits c m unit n) r =
     r\<lparr>ct_WorkUnitsAdds := ct_WorkUnitsAdds r + 1, ct_WorkUnitsTotal := ct_WorkUnitsTotal r + n,
       ct_LastWorkUnitsUnit := Some unit\<rparr>"
| "Counter (IncDaemonRPC method outcome) r =
     r\<lparr>ct_DaemonRPCCalls := ct_DaemonRPCCalls r + 1, ct_LastDaemonRPCMethod := Some method,
       ct_LastDaemonRPCOutcome := Some outcome\<rparr>"
| "Counter (ObserveDaemonRPC m oc) r = r\<lparr>ct_DaemonRPCObserves := ct_DaemonRPCObserves r + 1\<rparr>"
| "Counter (IncBackendRequest c m outcome) r =
     r\<lparr>ct_BackendRequests := ct_BackendRequests r + 1, ct_LastBackendOutcome := Some outcome\<rparr>"
| "Counter (ObserveBackendRequest c m) r = r\<lparr>ct_BackendObserves := ct_BackendObserves r + 1\<rparr>"
| "Counter (IncBackendError c m errorClass) r =
     r\<lparr>ct_BackendErrors := ct_BackendErrors r + 1, ct_LastBackendErrorClass := Some errorClass\<rparr>"
| "Counter (SetBackendLastSuccess c m t) r = r"
| "Counter (IncTokenizerCall m outcome) r =
     r\<lparr>ct_TokenizerCalls := ct_TokenizerCalls r + 1, ct_LastTokenizerOutcome := Some outcome\<rparr>"
| "Counter (IncCapacityRejection c) r = r\<lparr>ct_CapacityRejections := ct_CapacityRejections r + 1\<rparr>"
| "Counter (SetInflightRequests n) r = r\<lparr>ct_InflightV := n\<rparr>"
| "Counter (IncPaymentRejection reason) r =
     r\<lparr>ct_PaymentRejections := ct_PaymentRejections r + 1, ct_LastPaymentReason := Some reason\<rparr>"
| "Counter (SetUptimeSeconds s) r = r"
| "Counter (SetBuildInfo a b c) r = r"
| "Counter (SetMaxConcurrent n) r = r\<lparr>ct_MaxConcurrentV := n\<rparr>"

section \<open>Lemmas: the cap of one counter\<close>

definition cap_ok :: "int \<Rightarrow> capVec \<Rightarrow> bool" where
  "cap_ok m c \<longleftrightarrow> cv_max c = m \<and> finite (cv_seen c) \<and> int (card (cv_seen c)) = cv_count c
     \<and> cv_count c \<le> m \<and> joinNul ` dom (cv_vec c) \<subseteq> cv_seen c"

lemma cap_ok_newCap: "0 \<le> m \<Longrightarrow> cap_ok m (withCap m (newCap n))"
  by (simp add: cap_ok_def withCap_def newCap_def)

lemma cap_ok_cap_add: "0 < m \<Longrightarrow> cap_ok m c \<Longrightarrow> cap_ok m (fst (cap_add d vals c))"
  by (auto simp: cap_ok_def cap_add_def allow_def vec_add_def Let_def)

lemma cap_add_name [simp]: "cv_name (fst (cap_add d vals c)) = cv_name c"
  by (simp add: cap_add_def allow_def vec_add_def Let_def)

lemma cap_add_seen_mono: "cv_seen c \<subseteq> cv_seen (fst (cap_add d vals c))"
  by (auto simp: cap_add_def allow_def vec_add_def Let_def)

lemma cap_add_events:
  "snd (cap_add d vals c) =
     (if \<not> cv_exceeded c \<and> cv_exceeded (fst (cap_add d vals c))
      then [(cv_name c, cv_count c, cv_max c)] else [])"
  by (simp add: cap_add_def allow_def vec_add_def Let_def)

lemma cap_add_exceeded_mono: "cv_exceeded c \<Longrightarrow> cv_exceeded (fst (cap_add d vals c))"
  by (simp add: cap_add_def allow_def vec_add_def Let_def)

lemma cap_add_seen_counts:
  "joinNul vals \<in> cv_seen c \<Longrightarrow>
   cv_vec (fst (cap_add d vals c)) vals = Some (d + (case cv_vec c vals of None \<Rightarrow> 0 | Some n \<Rightarrow> n))"
  by (simp add: cap_add_def allow_def vec_add_def Let_def)

lemma nul_notin_split:
  "z \<notin> set a \<Longrightarrow> z \<notin> set b \<Longrightarrow> a @ z # s = b @ z # t \<longleftrightarrow> a = b \<and> s = t"
proof (induction a arbitrary: b)
  case Nil
  then show ?case by (cases b) auto
next
  case (Cons x a)
  then show ?case by (cases b) auto
qed

section \<open>Lemmas: the whole recorder\<close>

definition vecs :: "prometheus \<Rightarrow> capVec list" where
  "vecs p = [pm_requests p, pm_workUnits p, pm_daemonRPCCalls p, pm_backendRequests p,
             pm_backendErrors p, pm_tokenizerCalls p, pm_capacityRejections p,
             pm_paymentRejections p]"

definition vec_step :: "prometheus \<Rightarrow> prometheus \<Rightarrow> nat \<Rightarrow> int \<Rightarrow> string list \<Rightarrow> bool" where
  "vec_step p p' i d vals \<longleftrightarrow>
     vecs p' = (vecs p)[i := fst (cap_add d vals (vecs p ! i))] \<and>
     pm_onCapHit p' = pm_onCapHit p @ snd (cap_add d vals (vecs p ! i))"

lemma Prometheus_vec_steps:
  "vec_step p (Prometheus (IncRequest a b c) p) 0 1 [unset a, unset b, unset c]"
  "0 < n \<Longrightarrow> vec_step p (Prometheus (AddWorkUnits a b c n) p) 1 n [unset a, unset b, unset c]"
  "vec_step p (Prometheus (IncDaemonRPC a b) p) 2 1 [unset a, unset b]"
  "vec_step p (Prometheus (IncBackendRequest a b c) p) 3 1 [unset a, unset b, unset c]"
  "vec_step p (Prometheus (IncBackendError a b c) p) 4 1 [unset a, unset b, unset c]"
  "vec_step p (Prometheus (IncTokenizerCall a b) p) 5 1 [unset a, unset b]"
  "vec_step p (Prometheus (IncCapacityRejection a) p) 6 1 [unset a]"
  "vec_step p (Prometheus (IncPaymentRejection a) p) 7 1 [unset a]"
  by (simp_all add: vec_step_def vecs_def cap_inc_def split_beta numeral_nat)

lemma vec_stepI:
  "vec_step p p' i d vals \<Longrightarrow> i < 8 \<Longrightarrow> Q \<or> (\<exists>i<8. \<exists>d vals. vec_step p p' i d vals)"
  by blast

lemma Prometheus_effect:
  "(vecs (Prometheus m p) = vecs p \<and> pm_onCapHit (Prometheus m p) = pm_onCapHit p) \<or>
   (\<exists>i<8. \<exists>d vals. vec_step p (Prometheus m p) i d vals)"
proof (cases m)
  case (AddWorkUnits a b c n)
  show ?thesis
  proof (cases "0 < n")
    case True
    then show ?thesis unfolding AddWorkUnits by (rule vec_stepI [OF Prometheus_vec_steps(2)]) simp
  next
    case False
    then show ?thesis by (simp add: AddWorkUnits vecs_def)
  qed
next
  case (IncRequest a b c)
  show ?thesis unfolding IncRequest by (rule vec_stepI [OF Prometheus_vec_steps(1)]) simp
next
  case (IncDaemonRPC a b)
  show ?thesis unfolding IncDaemonRPC by (rule vec_stepI [OF Prometheus_vec_steps(3)]) simp
next
  case (IncBackendRequest a b c)
  show ?thesis unfolding IncBackendRequest by (rule vec_stepI [OF Prometheus_vec_steps(4)]) simp
next
  case (IncBackendError a b c)
  show ?thesis unfolding IncBackendError by (rule vec_stepI [OF Prometheus_vec_steps(5)]) simp
next
  case (IncTokenizerCall a b)
  show ?thesis unfolding IncTokenizerCall by (rule vec_stepI [OF Prometheus_vec_steps(6)]) simp
next
  case (IncCapacityRejection a)
  show ?thesis unfolding IncCapacityRejection by (rule vec_stepI [OF Prometheus_vec_steps(7)]) simp
next
  case (IncPaymentRejection a)
  show ?thesis unfolding IncPaymentRejection by (rule vec_stepI [OF Prometheus_vec_steps(8)]) simp
qed (simp_all add: vecs_def)

definition hits :: "cap_event list \<Rightarrow> string \<Rightarrow> nat" where
  "hits evs n = length (filter (\<lambda>e. fst e = n) evs)"

definition prom_ok :: "int \<Rightarrow> prometheus \<Rightarrow> bool" where
  "prom_ok m p \<longleftrightarrow> (\<forall>c \<in> set (vecs p). cap_ok m c) \<and> distinct (map cv_name (vecs p))
     \<and> (\<forall>c \<in> set (vecs p). hits (pm_onCapHit p) (cv_name c) = of_bool (cv_exceeded c))"

lemma length_vecs [simp]: "length (vecs p) = 8"
  by (simp add: vecs_def)

lemma prom_ok_NewPrometheus: "0 \<le> m \<Longrightarrow> prom_ok m (NewPrometheus m)"
  by (simp add: prom_ok_def vecs_def NewPrometheus_def ApplyCap_def hits_def cap_ok_def
      withCap_def newCap_def)

lemma prom_ok_vec_step:
  assumes m: "0 < m" and ok: "prom_ok m p" and i: "i < 8" and st: "vec_step p p' i d vals"
  shows "prom_ok m p'"
proof -
  let ?c = "vecs p ! i" and ?c' = "fst (cap_add d vals (vecs p ! i))"
  have vs: "vecs p' = (vecs p)[i := ?c']"
    and ev: "pm_onCapHit p' = pm_onCapHit p @ snd (cap_add d vals ?c)"
    using st by (simp_all add: vec_step_def)
  have ic: "?c \<in> set (vecs p)" using i by simp
  have names: "map cv_name (vecs p') = map cv_name (vecs p)"
    by (simp add: vs map_update list_update_same_conv i)
  have dist: "distinct (map cv_name (vecs p))" using ok by (simp add: prom_ok_def)
  have caps: "\<forall>c \<in> set (vecs p'). cap_ok m c"
    using ok ic cap_ok_cap_add [OF m]
    by (auto simp: vs prom_ok_def dest!: subsetD [OF set_update_subset_insert])
  have hit: "hits (pm_onCapHit p') (cv_name (vecs p' ! j)) = of_bool (cv_exceeded (vecs p' ! j))"
    if j: "j < 8" for j
  proof (cases "j = i")
    case True
    have "hits (pm_onCapHit p) (cv_name ?c) = of_bool (cv_exceeded ?c)"
      using ok ic by (simp add: prom_ok_def)
    then show ?thesis
      using True i cap_add_exceeded_mono [of ?c d vals]
      by (auto simp: vs ev hits_def cap_add_events)
  next
    case False
    then have "cv_name (vecs p ! j) \<noteq> cv_name ?c"
      using dist i j by (simp add: distinct_conv_nth)
    moreover have "hits (pm_onCapHit p) (cv_name (vecs p ! j)) = of_bool (cv_exceeded (vecs p ! j))"
      using ok j by (simp add: prom_ok_def)
    ultimately show ?thesis
      using False by (auto simp: vs ev hits_def cap_add_events)
  qed
  have "\<forall>c \<in> set (vecs p'). hits (pm_onCapHit p') (cv_name c) = of_bool (cv_exceeded c)"
    using hit by (auto simp: in_set_conv_nth)
  with caps names dist show ?thesis by (simp add: prom_ok_def)
qed

lemma prom_ok_Prometheus:
  assumes "0 < m" and "prom_ok m p"
  shows "prom_ok m (Prometheus c p)"
  using Prometheus_effect [of c p]
proof (elim disjE exE conjE)
  assume "vecs (Prometheus c p) = vecs p" and "pm_onCapHit (Prometheus c p) = pm_onCapHit p"
  with assms(2) show ?thesis by (simp add: prom_ok_def)
next
  fix i d vals
  assume "i < 8" and "vec_step p (Prometheus c p) i d vals"
  with assms show ?thesis by (rule prom_ok_vec_step)
qed

lemma prom_ok_run: "0 < m \<Longrightarrow> prom_ok m p \<Longrightarrow> prom_ok m (prometheus_run ms p)"
  unfolding prometheus_run_def by (induction ms arbitrary: p) (auto intro: prom_ok_Prometheus)

lemma joinNul_eqD:
  "joinNul vs = joinNul ws \<Longrightarrow> \<forall>v \<in> set vs. char_of (0 :: nat) \<notin> set v \<Longrightarrow>
   \<forall>v \<in> set ws. char_of (0 :: nat) \<notin> set v \<Longrightarrow> vs = ws"
proof (induction vs arbitrary: ws)
  case Nil
  then show ?case by (cases ws) simp_all
next
  case (Cons v vs)
  show ?case
  proof (cases ws)
    case Nil
    with Cons.prems(1) show ?thesis by simp
  next
    case ws: (Cons w ws')
    with Cons.prems have "v = w \<and> joinNul vs = joinNul ws'"
      by (simp add: nul_notin_split del: append_eq_append_conv)
    with Cons.IH [of ws'] Cons.prems ws show ?thesis by simp
  qed
qed

lemma joinNul_inj_on: "inj_on joinNul {vs. \<forall>v \<in> set vs. char_of (0 :: nat) \<notin> set v}"
  by (rule inj_onI) (auto dest: joinNul_eqD)

lemma cap_ok_series:
  assumes "cap_ok m c"
  shows "int (card (joinNul ` dom (cv_vec c))) \<le> m"
proof -
  have "card (joinNul ` dom (cv_vec c)) \<le> card (cv_seen c)"
    using assms by (intro card_mono) (auto simp: cap_ok_def)
  with assms show ?thesis by (simp add: cap_ok_def)
qed

text \<open>With a positive cap, after any sequence of recorder calls, one at a time, every capped counter
  exposes at most that many label tuples, as long as no label value holds a NUL byte (the separator
  of \<open>joinNul\<close>), and the cap callback has fired at most once for it.\<close>

lemma prometheus_series_bounded:
  assumes "0 < m" and "v \<in> set (vecs (prometheus_run ms (NewPrometheus m)))"
    and "\<forall>labels \<in> dom (cv_vec v). \<forall>l \<in> set labels. char_of (0 :: nat) \<notin> set l"
  shows "int (card (dom (cv_vec v))) \<le> m \<and>
         hits (pm_onCapHit (prometheus_run ms (NewPrometheus m))) (cv_name v) \<le> 1"
proof -
  have ok: "prom_ok m (prometheus_run ms (NewPrometheus m))"
    using assms(1) by (simp add: prom_ok_run prom_ok_NewPrometheus)
  have "inj_on joinNul (dom (cv_vec v))"
    by (rule inj_on_subset [OF joinNul_inj_on]) (use assms(3) in blast)
  then have "card (dom (cv_vec v)) = card (joinNul ` dom (cv_vec v))"
    by (simp add: card_image)
  with ok assms(2) show ?thesis
    using cap_ok_series [of m v] by (auto simp: prom_ok_def)
qed

end
