(* ===== verification/Metrics_Concurrent.thy ===== *)
theory Metrics_Concurrent
  imports Metrics "HOL-Library.Multiset"
begin

text \<open>
  The cardinality cap under concurrent calls. \<open>capVec.allow\<close> of \<^verbatim>\<open>prometheus.go\<close> takes no lock: it looks
  the label tuple up in a \<open>sync.Map\<close>, loads an atomic counter, stores the tuple and increments the
  counter, and any number of handlers may be between two of these operations. Here every access to
  the shared fields is a step of its own, and \<open>cap_step\<close> interleaves the calls in every possible way. A
  call that runs alone is \<open>cap_add\<close> of theory \<open>Metrics\<close>.
\<close>

section \<open>One call, step by step\<close>

text \<open>Where a call of \<open>inc\<close> or \<open>add\<close> is: each constructor names the operation that comes next.\<close>

datatype allow_pc = LoadSeen | LoadCount | SwapExceeded | CallOnExceed | StoreSeen | AddCount | AddToVec

fun allow_step :: "int \<Rightarrow> string list \<Rightarrow> allow_pc \<Rightarrow> capVec \<Rightarrow> allow_pc option \<times> capVec \<times> cap_event list" where
  "allow_step delta vals LoadSeen c =
     (Some (if cv_max c \<le> 0 \<or> joinNul vals \<in> cv_seen c then AddToVec else LoadCount), c, [])"
| "allow_step delta vals LoadCount c = (Some (if cv_count c \<ge> cv_max c then SwapExceeded else StoreSeen), c, [])"
| "allow_step delta vals SwapExceeded c =
     (if cv_exceeded c then (None, c, []) else (Some CallOnExceed, c\<lparr>cv_exceeded := True\<rparr>, []))"
| "allow_step delta vals CallOnExceed c = (None, c, [(cv_name c, cv_count c, cv_max c)])"
| "allow_step delta vals StoreSeen c = (Some AddCount, c\<lparr>cv_seen := insert (joinNul vals) (cv_seen c)\<rparr>, [])"
| "allow_step delta vals AddCount c = (Some AddToVec, c\<lparr>cv_count := cv_count c + 1\<rparr>, [])"
| "allow_step delta vals AddToVec c = (None, vec_add delta vals c, [])"

fun pc_rank :: "allow_pc \<Rightarrow> nat" where
  "pc_rank LoadSeen = 4" | "pc_rank LoadCount = 3" | "pc_rank SwapExceeded = 1" | "pc_rank CallOnExceed = 0"
| "pc_rank StoreSeen = 2" | "pc_rank AddCount = 1" | "pc_rank AddToVec = 0"

lemma pc_rank_decreases: "allow_step delta vals pc c = (Some pc', r) \<Longrightarrow> pc_rank pc' < pc_rank pc"
  by (cases pc) (auto split: if_split_asm)

function call_alone :: "int \<Rightarrow> string list \<Rightarrow> allow_pc \<Rightarrow> capVec \<Rightarrow> capVec \<times> cap_event list" where
  "call_alone delta vals pc c =
     (case allow_step delta vals pc c of
        (None, c', ev) \<Rightarrow> (c', ev)
      | (Some pc', c', ev) \<Rightarrow> (case call_alone delta vals pc' c' of (c'', ev') \<Rightarrow> (c'', ev @ ev')))"
  by auto
termination
  by (relation "measure (\<lambda>(delta, vals, pc, c). pc_rank pc)") (auto dest: pc_rank_decreases [OF sym])

declare call_alone.simps [simp del]

text \<open>Undisturbed, the steps of a call are the sequential operation.\<close>

lemma call_alone_cap_add: "call_alone delta vals LoadSeen c = cap_add delta vals c"
proof -
  have last: "call_alone delta vals AddToVec c = (vec_add delta vals c, [])" for c
    by (simp add: call_alone.simps)
  have rest: "call_alone delta vals SwapExceeded c = (if cv_exceeded c then (c, []) else
      (c\<lparr>cv_exceeded := True\<rparr>, [(cv_name c, cv_count c, cv_max c)]))" for c
    by (simp add: call_alone.simps [of _ _ SwapExceeded] call_alone.simps [of _ _ CallOnExceed])
  show ?thesis
    by (simp add: call_alone.simps [of _ _ LoadSeen] call_alone.simps [of _ _ LoadCount] rest last
        call_alone.simps [of _ _ StoreSeen] call_alone.simps [of _ _ AddCount] cap_add_def allow_def Let_def)
qed

section \<open>Concurrent calls\<close>

type_synonym cap_call = "int \<times> string list \<times> allow_pc"

record cap_state =
  cs_vec :: capVec
  cs_calls :: "cap_call multiset"
  cs_events :: "cap_event list"

definition cap_init :: "capVec \<Rightarrow> cap_state" where
  "cap_init c = \<lparr>cs_vec = c, cs_calls = {#}, cs_events = []\<rparr>"

text \<open>At most \<open>p\<close> calls are in progress at a time. \<open>WithLabelValues\<close> panics on a label value that is not
  UTF-8, so a call may also end before it has added.\<close>

inductive cap_step :: "nat \<Rightarrow> cap_state \<Rightarrow> cap_state \<Rightarrow> bool" for p :: nat where
  call_begins:
    "size (cs_calls s) < p \<Longrightarrow> cap_step p s (s\<lparr>cs_calls := add_mset (delta, vals, LoadSeen) (cs_calls s)\<rparr>)"
| call_goes_on:
    "cs_calls s = add_mset (delta, vals, pc) N \<Longrightarrow> allow_step delta vals pc (cs_vec s) = (Some pc', c, ev) \<Longrightarrow>
     cap_step p s (s\<lparr>cs_vec := c, cs_calls := add_mset (delta, vals, pc') N, cs_events := cs_events s @ ev\<rparr>)"
| call_returns:
    "cs_calls s = add_mset (delta, vals, pc) N \<Longrightarrow> allow_step delta vals pc (cs_vec s) = (None, c, ev) \<Longrightarrow>
     cap_step p s (s\<lparr>cs_vec := c, cs_calls := N, cs_events := cs_events s @ ev\<rparr>)"
| call_panics:
    "cs_calls s = add_mset (delta, vals, AddToVec) N \<Longrightarrow> cap_step p s (s\<lparr>cs_calls := N\<rparr>)"

section \<open>The invariant\<close>

text \<open>The number of calls at one of the given points.\<close>

definition calls_at :: "allow_pc set \<Rightarrow> cap_call multiset \<Rightarrow> nat" where
  "calls_at A M = size (filter_mset (\<lambda>(delta, vals, pc). pc \<in> A) M)"

lemma calls_at_simps [simp]:
  "calls_at A {#} = 0" "calls_at A (add_mset (delta, vals, pc) N) = of_bool (pc \<in> A) + calls_at A N"
  by (simp_all add: calls_at_def)

lemma calls_at_le_size: "calls_at A M \<le> size M"
  unfolding calls_at_def by (rule size_filter_mset_lesseq)

text \<open>A call that has passed the check owes the counter one increment; there are never more such calls than
  calls in progress. That is how far the counter, and with it the set of tuples, can get beyond the cap.\<close>

definition within_cap :: "int \<Rightarrow> nat \<Rightarrow> cap_state \<Rightarrow> bool" where
  "within_cap m p s \<longleftrightarrow>
     cv_max (cs_vec s) = m \<and> size (cs_calls s) \<le> p \<and>
     cv_count (cs_vec s) + int (calls_at {StoreSeen, AddCount} (cs_calls s)) \<le> m + int p - 1 \<and>
     finite (cv_seen (cs_vec s)) \<and>
     int (card (cv_seen (cs_vec s))) \<le> cv_count (cs_vec s) + int (calls_at {AddCount} (cs_calls s))"

definition keys_seen :: "cap_state \<Rightarrow> bool" where
  "keys_seen s \<longleftrightarrow>
     (\<forall>labels \<in> dom (cv_vec (cs_vec s)). joinNul labels \<in> cv_seen (cs_vec s)) \<and>
     (\<forall>x \<in># cs_calls s. snd (snd x) \<in> {AddCount, AddToVec} \<longrightarrow> joinNul (fst (snd x)) \<in> cv_seen (cs_vec s))"

definition reported_once :: "cap_state \<Rightarrow> bool" where
  "reported_once s \<longleftrightarrow> length (cs_events s) + calls_at {CallOnExceed} (cs_calls s) = of_bool (cv_exceeded (cs_vec s))"

lemma within_cap_step:
  assumes "cap_step p s s'" and "0 < m" and "within_cap m p s"
  shows "within_cap m p s'"
  using assms
proof (induction rule: cap_step.induct)
  case (call_begins s delta vals)
  then show ?case by (simp add: within_cap_def)
next
  case (call_goes_on s delta vals pc N pc' c ev)
  have "calls_at {StoreSeen, AddCount} N \<le> size N" by (rule calls_at_le_size)
  with call_goes_on show ?case
    by (cases pc) (auto simp: within_cap_def card_insert_if split: if_split_asm)
next
  case (call_returns s delta vals pc N c ev)
  then show ?case by (cases pc) (auto simp: within_cap_def vec_add_def split: if_split_asm)
next
  case (call_panics s delta vals N)
  then show ?case by (simp add: within_cap_def)
qed

lemma keys_seen_step:
  assumes "cap_step p s s'" and "0 < cv_max (cs_vec s)" and "keys_seen s"
  shows "keys_seen s'"
  using assms
proof (induction rule: cap_step.induct)
  case (call_goes_on s delta vals pc N pc' c ev)
  then show ?case by (cases pc) (auto simp: keys_seen_def split: if_split_asm)
next
  case (call_returns s delta vals pc N c ev)
  then show ?case by (cases pc) (auto simp: keys_seen_def vec_add_def split: if_split_asm)
qed (auto simp: keys_seen_def)

lemma reported_once_step:
  assumes "cap_step p s s'" and "reported_once s"
  shows "reported_once s'"
  using assms
proof (induction rule: cap_step.induct)
  case (call_goes_on s delta vals pc N pc' c ev)
  then show ?case by (cases pc) (auto simp: reported_once_def split: if_split_asm)
next
  case (call_returns s delta vals pc N c ev)
  then show ?case by (cases pc) (auto simp: reported_once_def vec_add_def split: if_split_asm)
qed (auto simp: reported_once_def)

lemma cap_reachable:
  assumes "(cap_step p)\<^sup>*\<^sup>* (cap_init (withCap m (newCap name))) s" and "0 < m" and "0 < p"
  shows "within_cap m p s \<and> keys_seen s \<and> reported_once s"
  using assms
proof (induction rule: rtranclp_induct)
  case base
  then show ?case
    by (simp add: within_cap_def keys_seen_def reported_once_def cap_init_def withCap_def newCap_def)
next
  case (step s t)
  moreover from step have "cv_max (cs_vec s) = m" by (simp add: within_cap_def)
  ultimately show ?case
    using within_cap_step keys_seen_step reported_once_step by blast
qed

lemma new_vecs: "c \<in> set (vecs (NewPrometheus m)) \<Longrightarrow> \<exists>name. c = withCap m (newCap name)"
  by (auto simp: vecs_def NewPrometheus_def ApplyCap_def)

section \<open>Properties\<close>

text \<open>C39: How far the cardinality cap holds under concurrency. Take a new recorder with a positive
  cap \<open>m\<close> and any of its capped counters, and let calls on it run concurrently, at most \<open>p\<close> at a time,
  interleaved at every access to the shared fields, for any labels and amounts. As long as no
  label value holds a NUL byte (the separator of \<open>joinNul\<close>), the counter exposes at most \<open>m + p - 1\<close>
  label tuples, so at most \<open>m\<close> when calls do not overlap, and the cap callback runs at most once.\<close>

theorem capped_series_bounded:
  assumes "0 < m" and "0 < p" and "c \<in> set (vecs (NewPrometheus m))" and "(cap_step p)\<^sup>*\<^sup>* (cap_init c) s"
    and "\<forall>labels \<in> dom (cv_vec (cs_vec s)). \<forall>l \<in> set labels. char_of (0 :: nat) \<notin> set l"
  shows "int (card (dom (cv_vec (cs_vec s)))) \<le> m + int p - 1 \<and> length (cs_events s) \<le> 1"
proof -
  obtain name where "c = withCap m (newCap name)" using new_vecs [OF assms(3)] by blast
  with cap_reachable assms have inv: "within_cap m p s" "keys_seen s" "reported_once s" by auto
  have "inj_on joinNul (dom (cv_vec (cs_vec s)))"
    by (rule inj_on_subset [OF joinNul_inj_on]) (use assms(5) in blast)
  then have "card (dom (cv_vec (cs_vec s))) = card (joinNul ` dom (cv_vec (cs_vec s)))" by (simp add: card_image)
  also have "\<dots> \<le> card (cv_seen (cs_vec s))"
    using inv by (intro card_mono) (auto simp: within_cap_def keys_seen_def)
  finally have "card (dom (cv_vec (cs_vec s))) \<le> card (cv_seen (cs_vec s))" .
  moreover have "calls_at {AddCount} (cs_calls s) \<le> calls_at {StoreSeen, AddCount} (cs_calls s)"
    unfolding calls_at_def by (intro size_mset_mono filter_mset_mono_strong) auto
  ultimately show ?thesis
    using inv by (auto simp: within_cap_def reported_once_def of_bool_def split: if_split_asm)
qed

section \<open>The cap is not strict\<close>

text \<open>A call that is left alone from some point on completes.\<close>

lemma call_completes:
  assumes "cs_calls s = add_mset (delta, vals, pc) N" and "call_alone delta vals pc (cs_vec s) = (c, ev)"
  shows "(cap_step p)\<^sup>*\<^sup>* s (s\<lparr>cs_vec := c, cs_calls := N, cs_events := cs_events s @ ev\<rparr>)"
  using assms
proof (induction "pc_rank pc" arbitrary: pc s ev rule: less_induct)
  case less
  obtain next1 c1 ev1 where st: "allow_step delta vals pc (cs_vec s) = (next1, c1, ev1)" by (metis surj_pair)
  show ?case
  proof (cases next1)
    case None
    with st less.prems(2) have "c = c1 \<and> ev = ev1" by (simp add: call_alone.simps [of _ _ pc])
    with call_returns [OF less.prems(1) st [unfolded None]] show ?thesis by blast
  next
    case (Some pc')
    let ?s = "s\<lparr>cs_vec := c1, cs_calls := add_mset (delta, vals, pc') N, cs_events := cs_events s @ ev1\<rparr>"
    obtain ev2 where rest: "call_alone delta vals pc' c1 = (c, ev2)" and ev: "ev = ev1 @ ev2"
      using st less.prems(2) Some by (auto simp: call_alone.simps [of _ _ pc] split: prod.split_asm)
    have "pc_rank pc' < pc_rank pc" using st Some pc_rank_decreases by blast
    from less.hyps [OF this, of ?s ev2] rest
    have "(cap_step p)\<^sup>*\<^sup>* ?s (s\<lparr>cs_vec := c, cs_calls := N, cs_events := cs_events s @ ev\<rparr>)" by (simp add: ev)
    with call_goes_on [OF less.prems(1) st [unfolded Some]] show ?thesis by (rule converse_rtranclp_into_rtranclp)
  qed
qed

definition one_series :: capVec where
  "one_series = withCap 1 (newCap ''payment_rejections_total'')"

text \<open>Two rejections with different reasons at the same time, a cap of one: both calls find the counter
  below the cap before either increments it, and both tuples are exposed.\<close>

lemma cap_race:
  "\<exists>s. (cap_step 2)\<^sup>*\<^sup>* (cap_init one_series) s \<and> cv_vec (cs_vec s) = [[''a''] \<mapsto> 1, [''b''] \<mapsto> 1]"
proof -
  let ?a = "[''a'']" and ?b = "[''b'']"
  let ?st = "\<lambda>M. \<lparr>cs_vec = one_series, cs_calls = M, cs_events = []\<rparr>"
  have low: "cv_max one_series = 1" "cv_count one_series = 0" "cv_seen one_series = {}"
    by (simp_all add: one_series_def withCap_def newCap_def)
  have go: "cap_step 2 (?st {#(1, v, LoadSeen), x#}) (?st {#(1, v, LoadCount), x#})"
    "cap_step 2 (?st {#(1, v, LoadCount), x#}) (?st {#(1, v, StoreSeen), x#})" for v x
    using call_goes_on [of "?st {#(1, v, LoadSeen), x#}" 1 v LoadSeen "{#x#}" LoadCount one_series "[]" 2]
      call_goes_on [of "?st {#(1, v, LoadCount), x#}" 1 v LoadCount "{#x#}" StoreSeen one_series "[]" 2]
    by (simp_all add: low)
  have swap: "{#x, y#} = {#y, x#}" for x y :: cap_call by simp
  have "(cap_step 2)\<^sup>*\<^sup>* (?st {#(1, ?a, LoadSeen), (1, ?b, LoadSeen)#}) (?st {#(1, ?a, StoreSeen), (1, ?b, LoadSeen)#})"
    using go [of ?a] by (meson converse_rtranclp_into_rtranclp rtranclp.rtrancl_refl)
  moreover have "(cap_step 2)\<^sup>*\<^sup>* (?st {#(1, ?b, LoadSeen), (1, ?a, StoreSeen)#}) (?st {#(1, ?b, StoreSeen), (1, ?a, StoreSeen)#})"
    using go [of ?b] by (meson converse_rtranclp_into_rtranclp rtranclp.rtrancl_refl)
  moreover have "(cap_step 2)\<^sup>*\<^sup>* (cap_init one_series) (?st {#(1, ?a, LoadSeen), (1, ?b, LoadSeen)#})"
    using call_begins [of "?st {#}" 2 1 ?b] call_begins [of "?st {#(1, ?b, LoadSeen)#}" 2 1 ?a]
    by (auto simp: cap_init_def)
  ultimately have both: "(cap_step 2)\<^sup>*\<^sup>* (cap_init one_series) (?st {#(1, ?b, StoreSeen), (1, ?a, StoreSeen)#})"
    by (metis (no_types, lifting) swap rtranclp_trans)
  have finish: "(cap_step 2)\<^sup>*\<^sup>* \<lparr>cs_vec = c, cs_calls = add_mset (1, v, StoreSeen) N, cs_events = []\<rparr>
      \<lparr>cs_vec = fst (call_alone 1 v StoreSeen c), cs_calls = N, cs_events = []\<rparr>" for v c N
    using call_completes [of "\<lparr>cs_vec = c, cs_calls = add_mset (1, v, StoreSeen) N, cs_events = []\<rparr>" 1 v StoreSeen N
        "fst (call_alone 1 v StoreSeen c)" "[]" 2]
    by (simp add: call_alone.simps)
  let ?c1 = "fst (call_alone 1 ?b StoreSeen one_series)"
  have "(cap_step 2)\<^sup>*\<^sup>* (cap_init one_series)
      \<lparr>cs_vec = fst (call_alone 1 ?a StoreSeen ?c1), cs_calls = {#}, cs_events = []\<rparr>"
    using both finish by (meson rtranclp_trans)
  moreover have "cv_vec (fst (call_alone 1 ?a StoreSeen ?c1)) = [?a \<mapsto> 1, ?b \<mapsto> 1]"
    by (simp add: call_alone.simps vec_add_def one_series_def withCap_def newCap_def fun_upd_twist)
  ultimately show ?thesis by (intro exI conjI) auto
qed

theorem capped_series_bounded_witness:
  "\<exists>s. (cap_step 2)\<^sup>*\<^sup>* (cap_init one_series) s \<and> card (dom (cv_vec (cs_vec s))) = 2 \<and> length (cs_events s) \<le> 1"
proof -
  obtain s where s: "(cap_step 2)\<^sup>*\<^sup>* (cap_init one_series) s" "cv_vec (cs_vec s) = [[''a''] \<mapsto> 1, [''b''] \<mapsto> 1]"
    using cap_race by blast
  have "one_series \<in> set (vecs (NewPrometheus 1))"
    by (simp add: one_series_def vecs_def NewPrometheus_def ApplyCap_def)
  moreover have "\<forall>labels \<in> dom (cv_vec (cs_vec s)). \<forall>l \<in> set labels. char_of (0 :: nat) \<notin> set l"
    unfolding s(2) by simp code_simp
  ultimately show ?thesis
    using capped_series_bounded [OF _ _ _ s(1), of 1] s by auto
qed

end
