(* ===== verification/Payee.thy ===== *)
theory Payee
  imports Go_Base Metrics
begin

text \<open>
  \<^verbatim>\<open>internal/providers/payeedaemon\<close>: the domain types, the \<open>Client\<close> interface as a record
  of functions over the state \<open>'d\<close> of the implementation, and the metrics decorator
  \<open>WithMetrics\<close>. The locale \<open>payee_ledger\<close> states what the worker relies on: debits are
  idempotent by sequence number, a sufficiency check moves nothing, a debit does not touch the ledger
  of another work id. \<open>payee_sufficiency\<close> and \<open>payee_answers\<close> extend it by what the answers tell. The
  in-memory client (theory Payee_Fake) interprets all three, and so does every metered client over
  an interpreted one; the production client keeps the first two of the daemon behind it (theory
  Payee_Wire).
\<close>

section \<open>Domain types (types.go)\<close>

record OpenSessionRequest =
  os_WorkID :: string
  os_Capability :: string
  os_Offering :: string
  os_PricePerWorkUnitWei :: "int option"
  os_WorkUnit :: string

datatype OpenSessionOutcome = OpenSessionOutcomeOpened | OpenSessionOutcomeAlreadyOpen

record ProcessPaymentResult =
  pp_Sender :: bytes
  pp_CreditedEVWei :: int
  pp_BalanceWei :: int
  pp_WinnersQueued :: int

record SufficientBalanceResult =
  sb_Sufficient :: bool
  sb_BalanceWei :: int

record OfferingPrice =
  op_ID :: string
  op_PricePerWorkUnitWei :: string

record Capability =
  dc_Capability :: string
  dc_WorkUnit :: string
  dc_Offerings :: "OfferingPrice list"

record TicketExpirationParams =
  tx_CreationRound :: int
  tx_CreationRoundBlockHash :: bytes

record TicketParams =
  tp_Recipient :: bytes
  tp_FaceValueWei :: bytes
  tp_WinProb :: bytes
  tp_RecipientRandHash :: bytes
  tp_Seed :: bytes
  tp_ExpirationBlock :: bytes
  tp_ExpirationParams :: TicketExpirationParams

record GetQuoteResult =
  gq_TicketParams :: TicketParams
  gq_OfferingPrices :: "OfferingPrice list"

record GetTicketParamsRequest =
  gt_Sender :: bytes
  gt_Recipient :: bytes
  gt_FaceValue :: int
  gt_Capability :: string
  gt_Offering :: string

section \<open>The Client interface (interface.go)\<close>

text \<open>
  A method is a state transformer. \<open>DebitBalance\<close> returns the \<open>BalanceWei\<close> pointer of
  \<open>DebitBalanceResult\<close> as an option: \<open>None\<close> is the nil pointer.
\<close>

record 'd Client =
  ListCapabilities :: "'d \<Rightarrow> (goerr + Capability list) \<times> 'd"
  GetQuote :: "bytes \<Rightarrow> string \<Rightarrow> 'd \<Rightarrow> (goerr + GetQuoteResult) \<times> 'd"
  GetTicketParams :: "GetTicketParamsRequest \<Rightarrow> 'd \<Rightarrow> (goerr + TicketParams) \<times> 'd"
  OpenSession :: "OpenSessionRequest \<Rightarrow> 'd \<Rightarrow> (goerr + OpenSessionOutcome) \<times> 'd"
  ProcessPayment :: "bytes \<Rightarrow> string \<Rightarrow> 'd \<Rightarrow> (goerr + ProcessPaymentResult) \<times> 'd"
  DebitBalance :: "bytes \<Rightarrow> string \<Rightarrow> int \<Rightarrow> u64 \<Rightarrow> 'd \<Rightarrow> (goerr + int option) \<times> 'd"
  SufficientBalance :: "bytes \<Rightarrow> string \<Rightarrow> int \<Rightarrow> 'd \<Rightarrow> (goerr + SufficientBalanceResult) \<times> 'd"
  CloseSession :: "bytes \<Rightarrow> string \<Rightarrow> 'd \<Rightarrow> (goerr + unit) \<times> 'd"

section \<open>The metrics decorator (interface.go)\<close>

text \<open>\<open>metered\<close> is the body all eight methods of \<open>meteredClient\<close> share.\<close>

definition metered ::
  "'r recorder \<Rightarrow> string \<Rightarrow> ('d \<Rightarrow> (goerr + 'a) \<times> 'd) \<Rightarrow> 'd \<times> 'r \<Rightarrow> (goerr + 'a) \<times> 'd \<times> 'r"
where
  "metered rec method call st =
     (case st of (d, r) \<Rightarrow>
       (case call d of (res, d') \<Rightarrow>
         let outcome = (if err_of res \<noteq> None then OutcomeError else OutcomeOK)
         in (res, d', rec (ObserveDaemonRPC method outcome) (rec (IncDaemonRPC method outcome) r))))"

definition meteredClient :: "'d Client \<Rightarrow> 'r recorder \<Rightarrow> ('d \<times> 'r) Client" where
  "meteredClient c rec =
     \<lparr>ListCapabilities = metered rec ''ListCapabilities'' (ListCapabilities c),
      GetQuote = (\<lambda>s cap. metered rec ''GetQuote'' (GetQuote c s cap)),
      GetTicketParams = (\<lambda>q. metered rec ''GetTicketParams'' (GetTicketParams c q)),
      OpenSession = (\<lambda>q. metered rec ''OpenSession'' (OpenSession c q)),
      ProcessPayment = (\<lambda>b w. metered rec ''ProcessPayment'' (ProcessPayment c b w)),
      DebitBalance = (\<lambda>s w u q. metered rec ''DebitBalance'' (DebitBalance c s w u q)),
      SufficientBalance = (\<lambda>s w u. metered rec ''SufficientBalance'' (SufficientBalance c s w u)),
      CloseSession = (\<lambda>s w. metered rec ''CloseSession'' (CloseSession c s w))\<rparr>"

lemma metered_eq [simp]:
  "metered rec m call st = (res, st') \<longleftrightarrow>
     call (fst st) = (res, fst st') \<and>
     snd st' = rec (ObserveDaemonRPC m (if err_of res \<noteq> None then OutcomeError else OutcomeOK))
              (rec (IncDaemonRPC m (if err_of res \<noteq> None then OutcomeError else OutcomeOK)) (snd st))"
  by (cases st; cases st') (auto simp: metered_def Let_def split: prod.splits)

section \<open>What the worker relies on\<close>

text \<open>
  \<open>charged d w q\<close> is the balance that debit \<open>q\<close> of work id \<open>w\<close> left when the ledger took it,
  and \<open>None\<close> when it was not taken; \<open>balance d w\<close> is what is left, \<open>price d w\<close> the price bound to
  \<open>w\<close>. The laws of \<open>payee_ledger\<close> are what the protocol says of \<open>DebitBalance\<close> and \<open>SufficientBalance\<close>
  (\<^verbatim>\<open>proto/livepeer/payments/v1/payee_daemon.proto\<close>): a debit takes the bound price times the units from the
  balance of a work id, once per sequence number; a check takes nothing. A debit that
  fails may still have been taken, since the answer can be lost on the way; that is what the
  sequence number is for. Nothing is said of the balance a debit answers, nor of \<open>CloseSession\<close>, after
  which the daemon is free to forget the session and its credit. \<open>payee_answers\<close> adds what the answers tell: the
  balance after the debit, sign included, and whether it covers the units asked for.
\<close>

definition ledger_same ::
  "('d \<Rightarrow> string \<Rightarrow> int) \<Rightarrow> ('d \<Rightarrow> string \<Rightarrow> u64 \<rightharpoonup> int) \<Rightarrow> ('d \<Rightarrow> string \<Rightarrow> int) \<Rightarrow>
   'd \<Rightarrow> 'd \<Rightarrow> bool"
where
  "ledger_same balance charged price d d' \<longleftrightarrow>
     charged d' = charged d \<and> balance d' = balance d \<and> price d' = price d"

definition ledger_took ::
  "('d \<Rightarrow> string \<Rightarrow> int) \<Rightarrow> ('d \<Rightarrow> string \<Rightarrow> u64 \<rightharpoonup> int) \<Rightarrow> ('d \<Rightarrow> string \<Rightarrow> int) \<Rightarrow>
   string \<Rightarrow> u64 \<Rightarrow> int \<Rightarrow> 'd \<Rightarrow> 'd \<Rightarrow> bool"
where
  "ledger_took balance charged price w q u d d' \<longleftrightarrow>
     charged d w q = None \<and>
     charged d' = (charged d)(w := (charged d w)(q \<mapsto> balance d w - price d w * u)) \<and>
     balance d' = (balance d)(w := balance d w - price d w * u) \<and> price d' = price d"

locale payee_ledger =
  fixes c :: "'d Client"
    and sender :: bytes
    and balance :: "'d \<Rightarrow> string \<Rightarrow> int"
    and charged :: "'d \<Rightarrow> string \<Rightarrow> u64 \<rightharpoonup> int"
    and price :: "'d \<Rightarrow> string \<Rightarrow> int"
  assumes debit_new:
      "DebitBalance c sender w u q d = (Inr b, d') \<Longrightarrow> charged d w q = None \<Longrightarrow>
         ledger_took balance charged price w q u d d'"
    and debit_replay:
      "DebitBalance c sender w u q d = (Inr b, d') \<Longrightarrow> charged d w q = Some v \<Longrightarrow>
         ledger_same balance charged price d d'"
    and debit_error:
      "DebitBalance c sender w u q d = (Inl e, d') \<Longrightarrow>
         ledger_same balance charged price d d' \<or> ledger_took balance charged price w q u d d'"
    and sufficient_frame:
      "SufficientBalance c sender w u d = (sres, d') \<Longrightarrow> ledger_same balance charged price d d'"
begin

lemmas ledger_defs = ledger_same_def ledger_took_def

text \<open>Every debit call either leaves the ledger alone or takes this debit for the first time.\<close>

lemma debit_cases:
  assumes "DebitBalance c sender w u q d = (r, d')"
  shows "ledger_same balance charged price d d' \<or> ledger_took balance charged price w q u d d'"
proof (cases r)
  case (Inl e)
  with assms show ?thesis using debit_error by blast
next
  case (Inr b)
  with assms show ?thesis
    using debit_new debit_replay by (cases "charged d w q") blast+
qed

text \<open>A successful debit is in the ledger afterwards, whether or not it was a retry.\<close>

lemma debit_recorded:
  assumes "DebitBalance c sender w u q d = (Inr b, d')"
  shows "\<exists>v. charged d' w q = Some v"
  using assms debit_new [of w u q d b d'] debit_replay [of w u q d b d']
  by (cases "charged d w q") (auto simp: ledger_defs)

text \<open>Retrying a debit that is in the ledger takes nothing more.\<close>

lemma debit_retry_free:
  assumes "DebitBalance c sender w u q d = (r, d')" and "charged d w q = Some v"
  shows "ledger_same balance charged price d d'"
  using debit_cases [OF assms(1)] assms(2) by (auto simp: ledger_defs)

text \<open>A debit never touches another work id.\<close>

lemma debit_other:
  assumes "DebitBalance c sender w u q d = (r, d')" and "w' \<noteq> w"
  shows "balance d' w' = balance d w' \<and> charged d' w' = charged d w'"
  using debit_cases [OF assms(1)] assms(2) by (auto simp: ledger_defs)

text \<open>The decorator changes no answer and no ledger: it keeps the contract.\<close>

lemma metered_ledger:
  "payee_ledger (meteredClient c rec) sender (\<lambda>st. balance (fst st)) (\<lambda>st. charged (fst st))
     (\<lambda>st. price (fst st))"
proof (unfold_locales, goal_cases)
  case (1 w u q d b d')
  then show ?case using debit_new [of w u q "fst d" b "fst d'"]
    by (simp add: meteredClient_def ledger_defs)
next
  case (2 w u q d b d' v)
  then show ?case using debit_replay [of w u q "fst d" b "fst d'" v]
    by (simp add: meteredClient_def ledger_defs)
next
  case (3 w u q d e d')
  then show ?case using debit_error [of w u q "fst d" e "fst d'"]
    by (simp add: meteredClient_def ledger_defs)
next
  case (4 w u d sres d')
  then show ?case using sufficient_frame [of w u "fst d" sres "fst d'"]
    by (simp add: meteredClient_def ledger_defs)
qed

end

text \<open>The sufficiency check answers truly; this much is independent of the sign of balances.\<close>

locale payee_sufficiency = payee_ledger +
  assumes sufficient_value:
      "SufficientBalance c sender w u d = (Inr s, d') \<Longrightarrow>
         sb_Sufficient s \<longleftrightarrow> price d w * u \<le> balance d w"
begin

lemma metered_sufficiency:
  "payee_sufficiency (meteredClient c rec) sender (\<lambda>st. balance (fst st)) (\<lambda>st. charged (fst st))
     (\<lambda>st. price (fst st))"
proof (intro payee_sufficiency.intro metered_ledger payee_sufficiency_axioms.intro)
  fix w u d s d'
  assume "SufficientBalance (meteredClient c rec) sender w u d = (Inr s, d')"
  then show "sb_Sufficient s \<longleftrightarrow> price (fst d) w * u \<le> balance (fst d) w"
    using sufficient_value [of w u "fst d" s "fst d'"] by (simp add: meteredClient_def)
qed

end

locale payee_answers = payee_sufficiency +
  assumes debit_answer: "DebitBalance c sender w u q d = (Inr b, d') \<Longrightarrow> b = charged d' w q"
begin

lemma metered_answers:
  "payee_answers (meteredClient c rec) sender (\<lambda>st. balance (fst st)) (\<lambda>st. charged (fst st))
     (\<lambda>st. price (fst st))"
proof (intro payee_answers.intro metered_sufficiency payee_answers_axioms.intro)
  fix w u q d b d'
  assume "DebitBalance (meteredClient c rec) sender w u q d = (Inr b, d')"
  then show "b = charged (fst d') w q"
    using debit_answer [of w u q "fst d" b "fst d'"] by (simp add: meteredClient_def)
qed

end

end
