(* ===== verification/Config.thy ===== *)
theory Config
  imports Payee
begin

text \<open>
  \<^verbatim>\<open>internal/config\<close>: the worker.yaml schema, its validation, its projection to \<open>Config\<close>
  with the flat routing table, \<open>Lookup\<close>, and the start-up comparison of the catalog with the
  one the payment daemon reports. The YAML decoder (a third-party package), the file system and
  \<open>url.Parse\<close> are parameters: \<open>dec\<close> gives the results of the first and the second
  \<open>Decode\<close> call on a file's text, \<open>fs\<close> opens a file, \<open>urlErr\<close> is the error
  \<open>url.Parse\<close> returns. The lemmas show that validation accepts exactly the well-formed
  documents, that the routing table of a validated document is the document's list of
  offerings, and that the catalog check succeeds exactly on equal catalogs.
\<close>

section \<open>The document (parse.go)\<close>

record yamlOffering =
  yo_ID :: string
  yo_PricePerWorkUnitWei :: string
  yo_BackendURL :: string

record yamlCapability =
  yc_Capability :: string
  yc_WorkUnit :: string
  yc_Offerings :: "yamlOffering list"
  yc_DebitCadenceSeconds :: int
  yc_SufficientMinRunwaySeconds :: int
  yc_SufficientGraceSeconds :: int

record yamlWorker =
  yw_HTTPListen :: string
  yw_PaymentDaemonSocket :: string
  yw_MaxConcurrentRequests :: int
  yw_VerifyDaemonConsistencyOnStart :: bool

text \<open>Of a \<open>rawYAMLNode\<close> the worker only uses whether the section is present.\<close>

record yamlConfig =
  y_ProtocolVersion :: int
  y_WorkerEthAddress :: string
  y_AuthToken :: string
  y_PaymentDaemon_Present :: bool
  y_Worker :: yamlWorker
  y_Capabilities :: "yamlCapability list"
  y_ServiceRegistryPublisher_Present :: bool

section \<open>The projection (config.go)\<close>

record OfferingEntry =
  oe_ID :: string
  oe_PricePerWorkUnitWei :: string
  oe_BackendURL :: string

record CapabilityEntry =
  ce_Capability :: string
  ce_WorkUnit :: string
  ce_Offerings :: "OfferingEntry list"
  ce_DebitCadenceSeconds :: int
  ce_SufficientMinRunwaySeconds :: int
  ce_SufficientGraceSeconds :: int

record WorkerSection =
  ws_HTTPListen :: string
  ws_PaymentDaemonSocket :: string
  ws_MaxConcurrentRequests :: int
  ws_VerifyDaemonConsistencyOnStart :: bool

record OfferingRoute =
  or_Capability :: string
  or_Offering :: string
  or_WorkUnit :: string
  or_BackendURL :: string
  or_PricePerWorkUnitWei :: string

record Config =
  cf_ProtocolVersion :: int
  cf_APIVersion :: int
  cf_WorkerEthAddress :: string
  cf_AuthToken :: string
  cf_Worker :: WorkerSection
  cf_Ordered :: "CapabilityEntry list"
  cf_Route :: "string \<times> string \<rightharpoonup> OfferingRoute"

definition CurrentProtocolVersion :: int where "CurrentProtocolVersion = 1"
definition CurrentAPIVersion :: int where "CurrentAPIVersion = 1"

section \<open>Errors\<close>

datatype config_error =
    NilConfig
  | PublisherUnsupported
  | BadProtocolVersion int
  | MissingPaymentDaemon
  | BadWorkerEthAddress string
  | HTTPListenRequired
  | PaymentDaemonSocketRequired
  | BadMaxConcurrent int
  | NoCapabilities
  | BadCapability nat string
  | BadWorkUnit nat string
  | NoOfferings nat
  | OfferingIDRequired nat nat
  | PriceRequired nat nat
  | PriceNotDecimal nat nat string
  | PriceNotPositive nat nat string
  | BackendURLRequired nat nat
  | BackendURLInvalid nat nat goerr
  | DuplicateOffering nat nat string
  | DuplicateCapability nat string
  | OpenFailed string goerr
  | DecodeFailed goerr
  | SecondDocument
  | TrailingData goerr

section \<open>Regular expressions and the work-unit table\<close>

definition lower_letter :: "char \<Rightarrow> bool" where
  "lower_letter c = (97 \<le> (of_char c :: nat) \<and> (of_char c :: nat) \<le> 122)"

definition ascii_digit :: "char \<Rightarrow> bool" where
  "ascii_digit c = (48 \<le> (of_char c :: nat) \<and> (of_char c :: nat) \<le> 57)"

definition match_capabilityRE :: "string \<Rightarrow> bool" where
  \<comment> \<open>\<open>^[a-z][a-z0-9]*:.+$\<close>; the dot does not match a line feed\<close>
  "match_capabilityRE s =
     (case s of
        [] \<Rightarrow> False
      | c # t \<Rightarrow> lower_letter c \<and>
          (case dropWhile (\<lambda>x. lower_letter x \<or> ascii_digit x) t of
             [] \<Rightarrow> False
           | d # r \<Rightarrow> d = CHR '':'' \<and> r \<noteq> [] \<and> list_all (\<lambda>x. x \<noteq> char_of (10 :: nat)) r))"

definition match_lowerEthAddressRE :: "string \<Rightarrow> bool" where
  \<comment> \<open>\<open>^0x[0-9a-f]{40}$\<close>\<close>
  "match_lowerEthAddressRE s =
     (length s = 42 \<and> take 2 s = ''0x'' \<and>
      list_all (\<lambda>c. ascii_digit c \<or> (97 \<le> (of_char c :: nat) \<and> (of_char c :: nat) \<le> 102)) (drop 2 s))"

definition knownWorkUnits :: "string list" where
  "knownWorkUnits =
     [''second'', ''token'', ''character'', ''audio_second'', ''image_step_megapixel'',
      ''video_frame_megapixel'']"

section \<open>Validation\<close>

definition validateWorker :: "yamlWorker \<Rightarrow> config_error option" where
  "validateWorker w =
     (if yw_HTTPListen w = '''' then Some HTTPListenRequired
      else if yw_PaymentDaemonSocket w = '''' then Some PaymentDaemonSocketRequired
      else if yw_MaxConcurrentRequests w \<le> 0 then Some (BadMaxConcurrent (yw_MaxConcurrentRequests w))
      else None)"

definition validateOffering :: "(string \<Rightarrow> goerr option) \<Rightarrow> nat \<Rightarrow> nat \<Rightarrow> yamlOffering \<Rightarrow> config_error option" where
  "validateOffering urlErr i j oo =
     (if yo_ID oo = '''' then Some (OfferingIDRequired i j)
      else if yo_PricePerWorkUnitWei oo = '''' then Some (PriceRequired i j)
      else case big_SetString (yo_PricePerWorkUnitWei oo) of
             None \<Rightarrow> Some (PriceNotDecimal i j (yo_PricePerWorkUnitWei oo))
           | Some price \<Rightarrow>
               if price \<le> 0 then Some (PriceNotPositive i j (yo_PricePerWorkUnitWei oo))
               else if yo_BackendURL oo = '''' then Some (BackendURLRequired i j)
               else map_option (BackendURLInvalid i j) (urlErr (yo_BackendURL oo)))"

fun validateOfferings ::
  "(string \<Rightarrow> goerr option) \<Rightarrow> nat \<Rightarrow> nat \<Rightarrow> string set \<Rightarrow> yamlOffering list \<Rightarrow> config_error option"
where
  \<comment> \<open>the loop over \<open>c.Offerings\<close> in \<open>validateCapability\<close>; \<open>seen\<close> is its map\<close>
  "validateOfferings urlErr i j seen [] = None"
| "validateOfferings urlErr i j seen (oo # os) =
     (case validateOffering urlErr i j oo of
        Some e \<Rightarrow> Some e
      | None \<Rightarrow>
          if yo_ID oo \<in> seen then Some (DuplicateOffering i j (yo_ID oo))
          else validateOfferings urlErr i (Suc j) (insert (yo_ID oo) seen) os)"

definition validateCapability :: "(string \<Rightarrow> goerr option) \<Rightarrow> nat \<Rightarrow> yamlCapability \<Rightarrow> config_error option" where
  "validateCapability urlErr i c =
     (if \<not> match_capabilityRE (yc_Capability c) then Some (BadCapability i (yc_Capability c))
      else if \<not> yc_WorkUnit c \<in> set knownWorkUnits then Some (BadWorkUnit i (yc_WorkUnit c))
      else if yc_Offerings c = [] then Some (NoOfferings i)
      else validateOfferings urlErr i 0 {} (yc_Offerings c))"

fun validateCapabilitiesFrom ::
  "(string \<Rightarrow> goerr option) \<Rightarrow> nat \<Rightarrow> string set \<Rightarrow> yamlCapability list \<Rightarrow> config_error option"
where
  \<comment> \<open>the loop of \<open>validateCapabilities\<close>\<close>
  "validateCapabilitiesFrom urlErr i seen [] = None"
| "validateCapabilitiesFrom urlErr i seen (c # cs) =
     (case validateCapability urlErr i c of
        Some e \<Rightarrow> Some e
      | None \<Rightarrow>
          if yc_Capability c \<in> seen then Some (DuplicateCapability i (yc_Capability c))
          else validateCapabilitiesFrom urlErr (Suc i) (insert (yc_Capability c) seen) cs)"

definition validateCapabilities :: "(string \<Rightarrow> goerr option) \<Rightarrow> yamlCapability list \<Rightarrow> config_error option" where
  "validateCapabilities urlErr caps =
     (if caps = [] then Some NoCapabilities else validateCapabilitiesFrom urlErr 0 {} caps)"

definition validate :: "(string \<Rightarrow> goerr option) \<Rightarrow> yamlConfig option \<Rightarrow> config_error option" where
  "validate urlErr cfg =
     (case cfg of
        None \<Rightarrow> Some NilConfig
      | Some y \<Rightarrow>
          if y_ServiceRegistryPublisher_Present y then Some PublisherUnsupported
          else if y_ProtocolVersion y \<noteq> CurrentProtocolVersion
          then Some (BadProtocolVersion (y_ProtocolVersion y))
          else if \<not> y_PaymentDaemon_Present y then Some MissingPaymentDaemon
          else if y_WorkerEthAddress y \<noteq> '''' \<and> \<not> match_lowerEthAddressRE (TrimSpace (y_WorkerEthAddress y))
          then Some (BadWorkerEthAddress (y_WorkerEthAddress y))
          else case validateWorker (y_Worker y) of
                 Some e \<Rightarrow> Some e
               | None \<Rightarrow> validateCapabilities urlErr (y_Capabilities y))"

section \<open>Projection, Load, Lookup\<close>

definition route_of :: "CapabilityEntry \<Rightarrow> OfferingEntry \<Rightarrow> OfferingRoute" where
  "route_of entry oo =
     \<lparr>or_Capability = ce_Capability entry, or_Offering = oe_ID oo, or_WorkUnit = ce_WorkUnit entry,
      or_BackendURL = oe_BackendURL oo, or_PricePerWorkUnitWei = oe_PricePerWorkUnitWei oo\<rparr>"

definition add_routes :: "CapabilityEntry \<Rightarrow> (string \<times> string \<rightharpoonup> OfferingRoute) \<Rightarrow> string \<times> string \<rightharpoonup> OfferingRoute" where
  "add_routes entry m =
     fold (\<lambda>oo m. m((ce_Capability entry, oe_ID oo) \<mapsto> route_of entry oo)) (ce_Offerings entry) m"

definition config_New :: "WorkerSection \<Rightarrow> CapabilityEntry list \<Rightarrow> Config" where
  "config_New w ordered =
     \<lparr>cf_ProtocolVersion = CurrentProtocolVersion, cf_APIVersion = CurrentAPIVersion,
      cf_WorkerEthAddress = '''', cf_AuthToken = '''', cf_Worker = w, cf_Ordered = ordered,
      cf_Route = fold add_routes ordered Map.empty\<rparr>"

definition project_offering :: "yamlOffering \<Rightarrow> OfferingEntry" where
  "project_offering oo =
     \<lparr>oe_ID = yo_ID oo, oe_PricePerWorkUnitWei = yo_PricePerWorkUnitWei oo,
      oe_BackendURL = yo_BackendURL oo\<rparr>"

definition project_capability :: "yamlCapability \<Rightarrow> CapabilityEntry" where
  "project_capability c =
     \<lparr>ce_Capability = yc_Capability c, ce_WorkUnit = yc_WorkUnit c,
      ce_Offerings = map project_offering (yc_Offerings c),
      ce_DebitCadenceSeconds = yc_DebitCadenceSeconds c,
      ce_SufficientMinRunwaySeconds = yc_SufficientMinRunwaySeconds c,
      ce_SufficientGraceSeconds = yc_SufficientGraceSeconds c\<rparr>"

definition projectFromYAML :: "yamlConfig \<Rightarrow> Config" where
  "projectFromYAML y =
     (config_New
        \<lparr>ws_HTTPListen = yw_HTTPListen (y_Worker y),
         ws_PaymentDaemonSocket = yw_PaymentDaemonSocket (y_Worker y),
         ws_MaxConcurrentRequests = yw_MaxConcurrentRequests (y_Worker y),
         ws_VerifyDaemonConsistencyOnStart = yw_VerifyDaemonConsistencyOnStart (y_Worker y)\<rparr>
        (map project_capability (y_Capabilities y)))
      \<lparr>cf_WorkerEthAddress := TrimSpace (y_WorkerEthAddress y), cf_AuthToken := y_AuthToken y\<rparr>"

type_synonym yaml_decoder = "string \<Rightarrow> (goerr + yamlConfig) \<times> (goerr + yamlConfig)"

definition parseReader :: "yaml_decoder \<Rightarrow> string \<Rightarrow> config_error + yamlConfig" where
  "parseReader dec text =
     (case dec text of (first, second) \<Rightarrow>
        (case first of
           Inl e \<Rightarrow> Inl (DecodeFailed e)
         | Inr cfg \<Rightarrow>
             (case second of
                Inr _ \<Rightarrow> Inl SecondDocument
              | Inl e \<Rightarrow> if errors_is e io_EOF then Inr cfg else Inl (TrailingData e))))"

definition parseFile :: "(string \<Rightarrow> goerr + string) \<Rightarrow> yaml_decoder \<Rightarrow> string \<Rightarrow> config_error + yamlConfig" where
  "parseFile fs dec path =
     (case fs path of Inl e \<Rightarrow> Inl (OpenFailed path e) | Inr text \<Rightarrow> parseReader dec text)"

definition Load ::
  "(string \<Rightarrow> goerr + string) \<Rightarrow> yaml_decoder \<Rightarrow> (string \<Rightarrow> goerr option) \<Rightarrow> string \<Rightarrow> config_error + Config"
where
  "Load fs dec urlErr path =
     (case parseFile fs dec path of
        Inl e \<Rightarrow> Inl e
      | Inr parsed \<Rightarrow>
          (case validate urlErr (Some parsed) of
             Some e \<Rightarrow> Inl e
           | None \<Rightarrow> Inr (projectFromYAML parsed)))"

definition Lookup :: "Config \<Rightarrow> string \<Rightarrow> string \<Rightarrow> OfferingRoute option" where
  "Lookup c cap offering = cf_Route c (cap, offering)"

section \<open>Daemon catalog check (verify.go)\<close>

datatype verify_error =
    VerifyNilConfig
  | CapabilityCountMismatch nat nat
  | CapabilityMismatch nat string string
  | WorkUnitMismatch nat string string
  | OfferingCountMismatch nat nat nat
  | OfferingIDMismatch nat nat string string
  | PriceMismatch nat nat string string
  | IndexOutOfRange

fun verifyOfferings :: "nat \<Rightarrow> nat \<Rightarrow> OfferingEntry list \<Rightarrow> OfferingPrice list \<Rightarrow> verify_error option" where
  "verifyOfferings i j [] ds = None"
| "verifyOfferings i j (oo # os) [] = Some IndexOutOfRange"
| "verifyOfferings i j (oo # os) (d # ds) =
     (if oe_ID oo \<noteq> op_ID d then Some (OfferingIDMismatch i j (oe_ID oo) (op_ID d))
      else if oe_PricePerWorkUnitWei oo \<noteq> op_PricePerWorkUnitWei d
      then Some (PriceMismatch i j (oe_PricePerWorkUnitWei oo) (op_PricePerWorkUnitWei d))
      else verifyOfferings i (Suc j) os ds)"

fun verifyCapabilities :: "nat \<Rightarrow> CapabilityEntry list \<Rightarrow> Capability list \<Rightarrow> verify_error option" where
  "verifyCapabilities i [] ds = None"
| "verifyCapabilities i (c # cs) [] = Some IndexOutOfRange"
| "verifyCapabilities i (c # cs) (d # ds) =
     (if ce_Capability c \<noteq> dc_Capability d
      then Some (CapabilityMismatch i (ce_Capability c) (dc_Capability d))
      else if ce_WorkUnit c \<noteq> dc_WorkUnit d
      then Some (WorkUnitMismatch i (ce_WorkUnit c) (dc_WorkUnit d))
      else if length (dc_Offerings d) \<noteq> length (ce_Offerings c)
      then Some (OfferingCountMismatch i (length (ce_Offerings c)) (length (dc_Offerings d)))
      else case verifyOfferings i 0 (ce_Offerings c) (dc_Offerings d) of
             Some e \<Rightarrow> Some e
           | None \<Rightarrow> verifyCapabilities (Suc i) cs ds)"

definition VerifyDaemonCatalog :: "Config option \<Rightarrow> Capability list \<Rightarrow> verify_error option" where
  "VerifyDaemonCatalog cfg daemon =
     (case cfg of
        None \<Rightarrow> Some VerifyNilConfig
      | Some c \<Rightarrow>
          if length daemon \<noteq> length (cf_Ordered c)
          then Some (CapabilityCountMismatch (length (cf_Ordered c)) (length daemon))
          else verifyCapabilities 0 (cf_Ordered c) daemon)"

section \<open>What a well-formed document is\<close>

definition offering_wf :: "(string \<Rightarrow> goerr option) \<Rightarrow> yamlOffering \<Rightarrow> bool" where
  "offering_wf urlErr oo \<longleftrightarrow> yo_ID oo \<noteq> '''' \<and>
     (\<exists>p > 0. big_SetString (yo_PricePerWorkUnitWei oo) = Some p) \<and>
     yo_BackendURL oo \<noteq> '''' \<and> urlErr (yo_BackendURL oo) = None"

definition capability_wf :: "(string \<Rightarrow> goerr option) \<Rightarrow> yamlCapability \<Rightarrow> bool" where
  "capability_wf urlErr c \<longleftrightarrow> match_capabilityRE (yc_Capability c) \<and>
     yc_WorkUnit c \<in> set knownWorkUnits \<and> yc_Offerings c \<noteq> [] \<and>
     (\<forall>oo \<in> set (yc_Offerings c). offering_wf urlErr oo) \<and> distinct (map yo_ID (yc_Offerings c))"

definition worker_wf :: "yamlWorker \<Rightarrow> bool" where
  "worker_wf w \<longleftrightarrow> yw_HTTPListen w \<noteq> '''' \<and> yw_PaymentDaemonSocket w \<noteq> '''' \<and>
     0 < yw_MaxConcurrentRequests w"

definition config_wf :: "(string \<Rightarrow> goerr option) \<Rightarrow> yamlConfig \<Rightarrow> bool" where
  "config_wf urlErr y \<longleftrightarrow>
     \<not> y_ServiceRegistryPublisher_Present y \<and> y_PaymentDaemon_Present y \<and>
     y_ProtocolVersion y = CurrentProtocolVersion \<and>
     (y_WorkerEthAddress y = '''' \<or> match_lowerEthAddressRE (TrimSpace (y_WorkerEthAddress y))) \<and>
     worker_wf (y_Worker y) \<and> y_Capabilities y \<noteq> [] \<and>
     (\<forall>c \<in> set (y_Capabilities y). capability_wf urlErr c) \<and>
     distinct (map yc_Capability (y_Capabilities y))"

section \<open>Lemmas: validation\<close>

lemma big_SetString_Nil [simp]: "big_SetString [] = None"
  by (simp add: big_SetString_def)

lemma validateOffering_None: "validateOffering urlErr i j oo = None \<longleftrightarrow> offering_wf urlErr oo"
  by (auto simp: validateOffering_def offering_wf_def split: option.splits)

lemma validateWorker_None: "validateWorker w = None \<longleftrightarrow> worker_wf w"
  by (simp add: validateWorker_def worker_wf_def not_le)

lemma validateOfferings_None:
  "validateOfferings urlErr i j seen os = None \<longleftrightarrow>
     (\<forall>oo \<in> set os. offering_wf urlErr oo) \<and> distinct (map yo_ID os) \<and> yo_ID ` set os \<inter> seen = {}"
proof (induction os arbitrary: j seen)
  case (Cons oo os)
  have "validateOfferings urlErr i j seen (oo # os) = None \<longleftrightarrow>
     offering_wf urlErr oo \<and> yo_ID oo \<notin> seen \<and>
     validateOfferings urlErr i (Suc j) (insert (yo_ID oo) seen) os = None"
    using validateOffering_None [of urlErr i j oo]
    by (cases "validateOffering urlErr i j oo") auto
  then show ?case by (auto simp: Cons.IH)
qed simp

lemma validateCapability_None: "validateCapability urlErr i c = None \<longleftrightarrow> capability_wf urlErr c"
  by (simp add: validateCapability_def capability_wf_def validateOfferings_None)

lemma validateCapabilitiesFrom_None:
  "validateCapabilitiesFrom urlErr i seen cs = None \<longleftrightarrow>
     (\<forall>c \<in> set cs. capability_wf urlErr c) \<and> distinct (map yc_Capability cs) \<and>
     yc_Capability ` set cs \<inter> seen = {}"
proof (induction cs arbitrary: i seen)
  case (Cons c cs)
  have "validateCapabilitiesFrom urlErr i seen (c # cs) = None \<longleftrightarrow>
     capability_wf urlErr c \<and> yc_Capability c \<notin> seen \<and>
     validateCapabilitiesFrom urlErr (Suc i) (insert (yc_Capability c) seen) cs = None"
    using validateCapability_None [of urlErr i c]
    by (cases "validateCapability urlErr i c") auto
  then show ?case by (auto simp: Cons.IH)
qed simp

lemma validate_None: "validate urlErr (Some y) = None \<longleftrightarrow> config_wf urlErr y"
  by (cases "validateWorker (y_Worker y)")
     (auto simp: validate_def config_wf_def validateCapabilities_def validateCapabilitiesFrom_None
        simp flip: validateWorker_None)

section \<open>Lemmas: the routing table\<close>

lemma add_routes_eq:
  assumes "distinct (map oe_ID (ce_Offerings e))"
  shows "add_routes e m (cap, off) = Some r \<longleftrightarrow>
     (\<exists>oo \<in> set (ce_Offerings e). cap = ce_Capability e \<and> off = oe_ID oo \<and> r = route_of e oo) \<or>
     (\<not> (cap = ce_Capability e \<and> off \<in> oe_ID ` set (ce_Offerings e)) \<and> m (cap, off) = Some r)"
proof -
  have "distinct (map oe_ID os) \<Longrightarrow>
     fold (\<lambda>oo m. m((ce_Capability e, oe_ID oo) \<mapsto> route_of e oo)) os m (cap, off) = Some r \<longleftrightarrow>
       (\<exists>oo \<in> set os. cap = ce_Capability e \<and> off = oe_ID oo \<and> r = route_of e oo) \<or>
       (\<not> (cap = ce_Capability e \<and> off \<in> oe_ID ` set os) \<and> m (cap, off) = Some r)" for os m
    by (induction os arbitrary: m) auto
  then show ?thesis using assms by (simp add: add_routes_def)
qed

lemma fold_add_routes_eq:
  assumes "distinct (map ce_Capability es)" and "\<forall>e \<in> set es. distinct (map oe_ID (ce_Offerings e))"
    and "\<forall>e \<in> set es. \<forall>off. m (ce_Capability e, off) = None"
  shows "fold add_routes es m (cap, off) = Some r \<longleftrightarrow>
     (\<exists>e \<in> set es. \<exists>oo \<in> set (ce_Offerings e).
        cap = ce_Capability e \<and> off = oe_ID oo \<and> r = route_of e oo) \<or> m (cap, off) = Some r"
  using assms
proof (induction es arbitrary: m)
  case (Cons e es)
  have "\<forall>e' \<in> set es. \<forall>off. add_routes e m (ce_Capability e', off) = None"
  proof (intro ballI allI)
    fix e' off
    assume e': "e' \<in> set es"
    with Cons.prems(1) have "ce_Capability e' \<noteq> ce_Capability e" by (metis distinct.simps(2) imageI list.set_map list.simps(9))
    with Cons.prems e' show "add_routes e m (ce_Capability e', off) = None"
      using add_routes_eq [of e m "ce_Capability e'" off]
      by (cases "add_routes e m (ce_Capability e', off)") auto
  qed
  with Cons show ?case by (auto simp: add_routes_eq)
qed simp

lemma Lookup_projectFromYAML:
  assumes "config_wf urlErr y"
  shows "Lookup (projectFromYAML y) cap off = Some r \<longleftrightarrow>
     (\<exists>c \<in> set (y_Capabilities y). \<exists>oo \<in> set (yc_Offerings c).
        cap = yc_Capability c \<and> off = yo_ID oo \<and>
        r = \<lparr>or_Capability = yc_Capability c, or_Offering = yo_ID oo, or_WorkUnit = yc_WorkUnit c,
             or_BackendURL = yo_BackendURL oo, or_PricePerWorkUnitWei = yo_PricePerWorkUnitWei oo\<rparr>)"
proof -
  let ?es = "map project_capability (y_Capabilities y)"
  have "ce_Capability \<circ> project_capability = yc_Capability" and "oe_ID \<circ> project_offering = yo_ID"
    by (auto simp: project_capability_def project_offering_def)
  then have "distinct (map ce_Capability ?es)"
    and "\<forall>e \<in> set ?es. distinct (map oe_ID (ce_Offerings e))"
    using assms by (auto simp: config_wf_def capability_wf_def project_capability_def)
  then show ?thesis
    using fold_add_routes_eq [of ?es Map.empty cap off r]
    by (simp add: Lookup_def projectFromYAML_def config_New_def)
       (simp add: route_of_def project_capability_def project_offering_def)
qed

lemma Load_Inr:
  assumes "Load fs dec urlErr path = Inr cfg"
  obtains y where "config_wf urlErr y" and "cfg = projectFromYAML y" and "parseFile fs dec path = Inr y"
  using assms by (auto simp: Load_def validate_None split: sum.splits option.splits)

section \<open>Lemmas: the daemon's view of the catalog\<close>

definition daemon_offering :: "OfferingEntry \<Rightarrow> OfferingPrice" where
  "daemon_offering oo = \<lparr>op_ID = oe_ID oo, op_PricePerWorkUnitWei = oe_PricePerWorkUnitWei oo\<rparr>"

definition daemon_capability :: "CapabilityEntry \<Rightarrow> Capability" where
  "daemon_capability c =
     \<lparr>dc_Capability = ce_Capability c, dc_WorkUnit = ce_WorkUnit c,
      dc_Offerings = map daemon_offering (ce_Offerings c)\<rparr>"

lemma daemon_offering_eq:
  "d = daemon_offering oo \<longleftrightarrow> op_ID d = oe_ID oo \<and> op_PricePerWorkUnitWei d = oe_PricePerWorkUnitWei oo"
  by (cases d) (auto simp: daemon_offering_def)

lemma daemon_capability_eq:
  "d = daemon_capability c \<longleftrightarrow> dc_Capability d = ce_Capability c \<and> dc_WorkUnit d = ce_WorkUnit c \<and>
     dc_Offerings d = map daemon_offering (ce_Offerings c)"
  by (cases d) (auto simp: daemon_capability_def)

lemma verifyOfferings_None:
  "length ds = length os \<Longrightarrow> verifyOfferings i j os ds = None \<longleftrightarrow> ds = map daemon_offering os"
  by (induction i j os ds rule: verifyOfferings.induct) (auto simp: daemon_offering_eq)

lemma verifyCapabilities_None:
  "length ds = length cs \<Longrightarrow> verifyCapabilities i cs ds = None \<longleftrightarrow> ds = map daemon_capability cs"
proof (induction i cs ds rule: verifyCapabilities.induct)
  case (3 i c cs d ds)
  then show ?case
    using verifyOfferings_None [of "dc_Offerings d" "ce_Offerings c" i 0]
    by (auto simp: daemon_capability_eq split: option.splits)
qed auto

lemma verifyOfferings_in_range: "length ds = length os \<Longrightarrow> verifyOfferings i j os ds \<noteq> Some IndexOutOfRange"
  by (induction i j os ds rule: verifyOfferings.induct) auto

lemma verifyCapabilities_in_range: "length ds = length cs \<Longrightarrow> verifyCapabilities i cs ds \<noteq> Some IndexOutOfRange"
  by (induction i cs ds rule: verifyCapabilities.induct)
     (auto simp: verifyOfferings_in_range split: option.splits)

section \<open>Properties\<close>

text \<open>C34: \<open>validate\<close> accepts a parsed document exactly when it is well formed: the right
  protocol version, a payment_daemon section, no publisher section, a lowercase address if any, a
  complete worker section, at least one capability, distinct capability names and offering ids,
  known work units, positive decimal prices and backend URLs that parse.\<close>

theorem validate_iff_wellformed: "validate urlErr (Some y) = None \<longleftrightarrow> config_wf urlErr y"
  by (rule validate_None)

text \<open>C33: The routing table of a loaded configuration is exactly the document's list of
  offerings: a pair is found if and only if some capability of the document has that name and
  that offering, and the route carries that entry's work unit, price and backend URL.\<close>

theorem Load_Lookup_exact:
  assumes "Load fs dec urlErr path = Inr cfg"
  shows "\<exists>y. parseFile fs dec path = Inr y \<and>
     (\<forall>cap off r. Lookup cfg cap off = Some r \<longleftrightarrow>
       (\<exists>c \<in> set (y_Capabilities y). \<exists>oo \<in> set (yc_Offerings c).
          cap = yc_Capability c \<and> off = yo_ID oo \<and>
          r = \<lparr>or_Capability = yc_Capability c, or_Offering = yo_ID oo, or_WorkUnit = yc_WorkUnit c,
               or_BackendURL = yo_BackendURL oo, or_PricePerWorkUnitWei = yo_PricePerWorkUnitWei oo\<rparr>))"
  using assms by (rule Load_Inr) (auto simp: Lookup_projectFromYAML)

text \<open>Every route a loaded configuration hands out has the capability and offering it was
  looked up under, a known work unit, a non-empty backend URL and a price that parses as a
  positive decimal integer, so the paid routes never reach their invalid-price error.\<close>

lemma Load_route_priced:
  assumes "Load fs dec urlErr path = Inr cfg" and "Lookup cfg cap off = Some r"
  shows "or_Capability r = cap \<and> or_Offering r = off \<and> or_WorkUnit r \<in> set knownWorkUnits \<and>
         or_BackendURL r \<noteq> '''' \<and> (\<exists>p > 0. big_SetString (or_PricePerWorkUnitWei r) = Some p)"
  using assms(1)
proof (rule Load_Inr)
  fix y
  assume wf: "config_wf urlErr y" and cfg: "cfg = projectFromYAML y"
  with assms(2) have "\<exists>c \<in> set (y_Capabilities y). \<exists>oo \<in> set (yc_Offerings c).
      cap = yc_Capability c \<and> off = yo_ID oo \<and>
      r = \<lparr>or_Capability = yc_Capability c, or_Offering = yo_ID oo, or_WorkUnit = yc_WorkUnit c,
           or_BackendURL = yo_BackendURL oo, or_PricePerWorkUnitWei = yo_PricePerWorkUnitWei oo\<rparr>"
    by (simp add: Lookup_projectFromYAML)
  with wf show ?thesis
    by (auto simp: config_wf_def capability_wf_def offering_wf_def)
qed

text \<open>The start-up catalog check succeeds exactly when the daemon reports, in the same
  order, the same capabilities, work units, offering ids and price strings as the configuration;
  the backend URLs do not take part.\<close>

lemma VerifyDaemonCatalog_iff:
  "VerifyDaemonCatalog (Some cfg) daemon = None \<longleftrightarrow> daemon = map daemon_capability (cf_Ordered cfg)"
  by (auto simp: VerifyDaemonCatalog_def verifyCapabilities_None)

text \<open>The catalog check never indexes the daemon's lists out of range: the counts are
  compared before the entries are.\<close>

lemma VerifyDaemonCatalog_in_range: "VerifyDaemonCatalog cfg daemon \<noteq> Some IndexOutOfRange"
  by (simp add: VerifyDaemonCatalog_def verifyCapabilities_in_range split: option.splits)

section \<open>Witnesses\<close>

definition sample_yaml :: yamlConfig where
  "sample_yaml =
     \<lparr>y_ProtocolVersion = 1, y_WorkerEthAddress = '''', y_AuthToken = '''',
      y_PaymentDaemon_Present = True,
      y_Worker = \<lparr>yw_HTTPListen = '':8080'', yw_PaymentDaemonSocket = ''/s'',
                  yw_MaxConcurrentRequests = 1, yw_VerifyDaemonConsistencyOnStart = True\<rparr>,
      y_Capabilities =
        [\<lparr>yc_Capability = ''livepeer:vtuber-session'', yc_WorkUnit = ''second'',
          yc_Offerings = [\<lparr>yo_ID = ''hd'', yo_PricePerWorkUnitWei = ''6250'', yo_BackendURL = ''http://r/s''\<rparr>],
          yc_DebitCadenceSeconds = 5, yc_SufficientMinRunwaySeconds = 30, yc_SufficientGraceSeconds = 60\<rparr>],
      y_ServiceRegistryPublisher_Present = False\<rparr>"

definition sample_dec :: yaml_decoder where
  "sample_dec t = (Inr sample_yaml, Inl io_EOF)"

lemma sample_SetString: "big_SetString ''6250'' = Some 6250"
  by (simp add: big_SetString_def scan_nat_def digit_val_def Let_def)

lemma sample_capabilityRE: "match_capabilityRE ''livepeer:vtuber-session''"
  by code_simp

lemma sample_wf: "config_wf (\<lambda>_. None) sample_yaml"
  by (simp add: config_wf_def sample_yaml_def worker_wf_def capability_wf_def offering_wf_def
      sample_SetString CurrentProtocolVersion_def knownWorkUnits_def sample_capabilityRE)

lemma sample_Load: "Load (\<lambda>p. Inr p) sample_dec (\<lambda>_. None) ''f'' = Inr (projectFromYAML sample_yaml)"
  by (simp add: Load_def parseFile_def parseReader_def sample_dec_def io_EOF_def
      validate_None [THEN iffD2, OF sample_wf])

lemma sample_Lookup:
  "Lookup (projectFromYAML sample_yaml) ''livepeer:vtuber-session'' ''hd'' =
     Some \<lparr>or_Capability = ''livepeer:vtuber-session'', or_Offering = ''hd'', or_WorkUnit = ''second'',
           or_BackendURL = ''http://r/s'', or_PricePerWorkUnitWei = ''6250''\<rparr>"
  by (subst Lookup_projectFromYAML [OF sample_wf]) (simp add: sample_yaml_def)

theorem Load_Lookup_exact_witness:
  "\<exists>y. parseFile (\<lambda>p. Inr p) sample_dec ''f'' = Inr y \<and> length (y_Capabilities y) = 1"
  using Load_Lookup_exact [OF sample_Load]
  by (auto simp: parseFile_def parseReader_def sample_dec_def io_EOF_def sample_yaml_def)

end
