(* ===== verification/Effects.thy ===== *)
theory Effects
  imports Go_Base
begin

text \<open>
  The second half of the prelude: sequential Go code with effects. A \<open>proc\<close> is a state
  transformer that returns a value or panics; a panic skips the rest of the sequence and keeps the
  effects made so far, and \<open>deferred\<close> is \<open>defer func() { ... recover() ... }()\<close>. The rules
  for \<open>keeps\<close> lift a relation between the states before and after from the single steps of a
  procedure to the whole of it.
\<close>

datatype 'a outcome = Ret 'a | Panic string

type_synonym ('s, 'a) proc = "'s \<Rightarrow> 'a outcome \<times> 's"

definition ret :: "'a \<Rightarrow> ('s, 'a) proc" where
  "ret x s = (Ret x, s)"

definition andThen :: "('s, 'a) proc \<Rightarrow> ('a \<Rightarrow> ('s, 'b) proc) \<Rightarrow> ('s, 'b) proc" where
  "andThen m f s = (case m s of (Ret x, s') \<Rightarrow> f x s' | (Panic p, s') \<Rightarrow> (Panic p, s'))"

definition gets :: "('s \<Rightarrow> 'a) \<Rightarrow> ('s, 'a) proc" where
  "gets f s = (Ret (f s), s)"

definition modify :: "('s \<Rightarrow> 's) \<Rightarrow> ('s, unit) proc" where
  "modify f s = (Ret (), f s)"

definition deferred :: "('s, 'a) proc \<Rightarrow> ('a outcome \<Rightarrow> ('s, 'a) proc) \<Rightarrow> ('s, 'a) proc" where
  "deferred body handler s = (case body s of (r, s') \<Rightarrow> handler r s')"

section \<open>Relations a procedure keeps\<close>

definition keeps :: "('s \<Rightarrow> 's \<Rightarrow> bool) \<Rightarrow> ('s, 'a) proc \<Rightarrow> bool" where
  "keeps R m \<longleftrightarrow> (\<forall>s r s'. m s = (r, s') \<longrightarrow> R s s')"

named_theorems keeps_rules \<open>introduction rules for \<open>keeps\<close>\<close>

lemma keepsI: "(\<And>s. R s (snd (m s))) \<Longrightarrow> keeps R m"
  unfolding keeps_def by (metis snd_conv)

lemma keepsD: "keeps R m \<Longrightarrow> m s = (r, s') \<Longrightarrow> R s s'"
  by (simp add: keeps_def)

text \<open>
  A step relation is a reflexive and transitive relation between states; everything the
  components prove about whole procedures is an instance.
\<close>

locale step_relation =
  fixes R :: "'s \<Rightarrow> 's \<Rightarrow> bool"
  assumes refl: "R s s"
    and trans: "R s t \<Longrightarrow> R t u \<Longrightarrow> R s u"
begin

lemma keeps_ret: "keeps R (ret x)"
  by (simp add: keeps_def ret_def refl)

lemma keeps_gets: "keeps R (gets f)"
  by (simp add: keeps_def gets_def refl)

lemma keeps_modify: "(\<And>s. R s (f s)) \<Longrightarrow> keeps R (modify f)"
  by (simp add: keeps_def modify_def)

lemma keeps_andThen: "keeps R m \<Longrightarrow> (\<And>x. keeps R (f x)) \<Longrightarrow> keeps R (andThen m f)"
  unfolding keeps_def andThen_def by (auto split: prod.splits outcome.splits) (meson trans)

lemma keeps_deferred: "keeps R m \<Longrightarrow> (\<And>r. keeps R (h r)) \<Longrightarrow> keeps R (deferred m h)"
  unfolding keeps_def deferred_def by (auto split: prod.splits) (meson trans)

lemma keeps_if: "keeps R m \<Longrightarrow> keeps R n \<Longrightarrow> keeps R (if b then m else n)"
  by simp

lemma keeps_sum: "(\<And>x. keeps R (f x)) \<Longrightarrow> (\<And>y. keeps R (g y)) \<Longrightarrow> keeps R (case v of Inl x \<Rightarrow> f x | Inr y \<Rightarrow> g y)"
  by (cases v) auto

lemma keeps_option: "keeps R m \<Longrightarrow> (\<And>y. keeps R (g y)) \<Longrightarrow> keeps R (case v of None \<Rightarrow> m | Some y \<Rightarrow> g y)"
  by (cases v) auto

lemmas keeps_core = keeps_ret keeps_gets keeps_andThen keeps_deferred keeps_if keeps_sum keeps_option

end

section \<open>Equations\<close>

lemma andThen_eq_Ret:
  "andThen m f s = (Ret y, s') \<longleftrightarrow> (\<exists>x t. m s = (Ret x, t) \<and> f x t = (Ret y, s'))"
  by (auto simp: andThen_def split: prod.splits outcome.splits)

lemma andThen_eq:
  "andThen m f s = (r, s') \<longleftrightarrow>
     (\<exists>x t. m s = (Ret x, t) \<and> f x t = (r, s')) \<or> (\<exists>p. m s = (Panic p, s') \<and> r = Panic p)"
  by (auto simp: andThen_def split: prod.splits outcome.splits)

lemma ret_eq [simp]: "ret x s = (r, s') \<longleftrightarrow> r = Ret x \<and> s' = s"
  by (auto simp: ret_def)

lemma gets_eq [simp]: "gets f s = (r, s') \<longleftrightarrow> r = Ret (f s) \<and> s' = s"
  by (auto simp: gets_def)

lemma modify_eq [simp]: "modify f s = (r, s') \<longleftrightarrow> r = Ret () \<and> s' = f s"
  by (auto simp: modify_def)

lemma andThen_assoc: "andThen (andThen m f) g = andThen m (\<lambda>x. andThen (f x) g)"
  by (auto simp: andThen_def fun_eq_iff split: prod.splits outcome.splits)

lemma andThen_ret_left [simp]: "andThen (ret x) f = f x"
  by (simp add: andThen_def ret_def fun_eq_iff)

lemma andThen_ret_right [simp]: "andThen m ret = m"
  by (auto simp: andThen_def ret_def fun_eq_iff split: prod.splits outcome.splits)

end
