(* ===== verification/Session_Deps.thy ===== *)
theory Session_Deps
  imports Effects
begin

text \<open>
  The collaborators of a streaming session: \<^verbatim>\<open>vtuber_session/events.go\<close> (the events sent to the
  bridge), \<^verbatim>\<open>deps.go\<close> and \<^verbatim>\<open>modules/streaming.go\<close> (the interfaces) and \<^verbatim>\<open>system.go\<close>
  (the stub bridge, the HTTP backend and the counter id generator). An interface is a record of
  functions over a state \<open>'w\<close> of the outside world; \<open>net/http\<close>'s transport and
  \<open>net/url\<close>'s parser are parameters of the HTTP backend. The lemmas show that the
  redaction of backend error bodies leaves no bearer token, that the ids of a counter are
  distinct, and what the HTTP backend reports as success.
\<close>

section \<open>Events (events.go)\<close>

type_synonym EventType = string
type_synonym ErrorCode = string

definition EventSessionReady :: EventType where "EventSessionReady = ''session.ready''"
definition EventSessionEnded :: EventType where "EventSessionEnded = ''session.ended''"
definition EventSessionError :: EventType where "EventSessionError = ''session.error''"
definition EventSessionUsageTick :: EventType where "EventSessionUsageTick = ''session.usage.tick''"
definition EventSessionBalanceLow :: EventType where "EventSessionBalanceLow = ''session.balance.low''"
definition EventSessionBalanceRefilled :: EventType where
  "EventSessionBalanceRefilled = ''session.balance.refilled''"

lemmas event_type_defs =
  EventSessionReady_def EventSessionEnded_def EventSessionError_def EventSessionUsageTick_def
  EventSessionBalanceLow_def EventSessionBalanceRefilled_def

definition ErrCodeBalanceExhausted :: ErrorCode where "ErrCodeBalanceExhausted = ''balance_exhausted''"
definition ErrCodePaymentUnreachable :: ErrorCode where "ErrCodePaymentUnreachable = ''payment_unreachable''"
definition ErrCodeBackendDown :: ErrorCode where "ErrCodeBackendDown = ''backend_down''"
definition ErrCodeFatal :: ErrorCode where "ErrCodeFatal = ''fatal''"

text \<open>The empty string, which means that no reason is recorded yet, is \<open>None\<close> of an option.\<close>

datatype EndReason =
    EndReasonUserEnd
  | EndReasonBalanceExhausted
  | EndReasonFatalError
  | EndReasonShutdown

record UsageTickData =
  ut_WorkerSessionID :: string
  ut_WorkID :: string
  ut_UsageSeq :: u64
  ut_WorkUnits :: u64
  ut_WorkUnitKind :: string
  ut_CumulativeWorkUnits :: u64

datatype EventData =
    NoData
  | UsageTick UsageTickData
  | BalanceLow int
  | BalanceRefilled string string int
  | ErrorData ErrorCode string bool
  | EndedData EndReason u64

record Event =
  ev_EventID :: string
  ev_Type :: EventType
  ev_SessionID :: string
  ev_TsMs :: int
  ev_Data :: EventData

section \<open>HTTP messages\<close>

text \<open>The parts of a request and a response the worker reads; a nil body is the empty body.\<close>

record Request =
  rq_Header :: header
  rq_Body :: bytes
  rq_PathValue :: "string \<Rightarrow> string"

record OutRequest =
  oq_Method :: string
  oq_URL :: string
  oq_Header :: header
  oq_Body :: bytes

record OutResponse =
  rs_StatusCode :: int
  rs_Header :: header
  rs_Body :: bytes

section \<open>Interfaces (deps.go, modules/streaming.go)\<close>

text \<open>
  \<open>Recv\<close> belongs to a goroutine of its own; its results reach the session as inputs of the main
  loop. A clock's \<open>Ticker\<close> may panic, as \<open>time.NewTicker\<close> does on a period that is not
  positive; \<open>After\<close> does not.
\<close>

record 'w BridgeControlPlane =
  Send :: "Event \<Rightarrow> ('w, goerr option) proc"
  Bridge_Close :: "('w, goerr option) proc"

record 'w BackendForward =
  Backend_OpenSession :: "Request option \<Rightarrow> string \<Rightarrow> ('w, goerr option) proc"
  Backend_Close :: "string \<Rightarrow> string \<Rightarrow> ('w, goerr option) proc"

record 'w Clock =
  Now :: "'w \<Rightarrow> int \<times> 'w"
  Ticker :: "int \<Rightarrow> ('w, unit) proc"

type_synonym 'w IDGenerator = "'w \<Rightarrow> string \<times> 'w"

record 'w PaymentSession =
  Debit :: "u64 \<Rightarrow> u64 \<Rightarrow> ('w, goerr + int) proc"
  Sufficient :: "u64 \<Rightarrow> ('w, goerr + bool) proc"
  PS_Close :: "('w, goerr option) proc"

section \<open>The stub bridge and the counter id generator (system.go)\<close>

definition ErrBridgeClosed :: goerr where
  "ErrBridgeClosed = Sentinel ''vtuber_session: bridge control plane closed''"

definition ErrBridgeNotConfigured :: goerr where
  "ErrBridgeNotConfigured =
     Sentinel ''vtuber_session: system bridge not configured (stub); inject a BridgeControlPlane''"

definition NewStubBridge :: "'w BridgeControlPlane" where
  "NewStubBridge = \<lparr>Send = (\<lambda>ev. ret (Some ErrBridgeNotConfigured)), Bridge_Close = ret None\<rparr>"

definition stubBridge_Recv :: "goerr + Event" where
  "stubBridge_Recv = Inl ErrBridgeNotConfigured"

definition CounterIDGen_NextID :: "string \<Rightarrow> u64 \<Rightarrow> string \<times> u64" where
  "CounterIDGen_NextID prefix counter =
     (let n = counter + 1 in (prefix @ ''_'' @ pad3 (big_String (uint n)), n))"

definition SystemClock_Ticker :: "int \<Rightarrow> ('w, unit) proc" where
  "SystemClock_Ticker d =
     (if d \<le> 0 then (\<lambda>w. (Panic ''non-positive interval for NewTicker'', w)) else ret ())"

section \<open>The HTTP backend (system.go)\<close>

definition token_char :: "char \<Rightarrow> bool" where
  "token_char c =
     (let n = of_char c :: nat in
      65 \<le> n \<and> n \<le> 90 \<or> 97 \<le> n \<and> n \<le> 122 \<or> 48 \<le> n \<and> n \<le> 57 \<or> n = 95 \<or> n = 45)"

definition bearer_prefixes :: "string list" where
  "bearer_prefixes = [''vtbs_'', ''vtbsw_'', ''pl_egress_'', ''lpgw_stream_'']"

text \<open>
  A match of \<open>bearerPattern\<close> at the head of \<open>s\<close>: the first prefix that \<open>s\<close> starts with
  and that at least six token characters follow. The repetition is greedy.
\<close>

definition bearer_at :: "string \<Rightarrow> string \<Rightarrow> bool" where
  "bearer_at s p = (take (length p) s = p \<and> 6 \<le> length (takeWhile token_char (drop (length p) s)))"

definition match_bearer :: "string \<Rightarrow> string option" where
  "match_bearer s = List.find (bearer_at s) bearer_prefixes"

function redactBearers :: "string \<Rightarrow> string" where
  "redactBearers s =
     (case s of
        [] \<Rightarrow> []
      | c # t \<Rightarrow>
          (case match_bearer s of
             None \<Rightarrow> c # redactBearers t
           | Some p \<Rightarrow> p @ ''<redacted>'' @ redactBearers (dropWhile token_char (drop (length p) s))))"
  by auto

lemma match_bearer_SomeD:
  "match_bearer s = Some p \<Longrightarrow> p \<in> set bearer_prefixes \<and> bearer_at s p"
  by (auto simp: match_bearer_def find_Some_iff)

lemma bearer_prefix_nonempty [simp]: "p \<in> set bearer_prefixes \<Longrightarrow> 0 < length p"
  by (auto simp: bearer_prefixes_def)

lemma length_dropWhile_less: "length (dropWhile P (drop (Suc n) (c # t))) < length (c # t)"
  by (rule le_less_trans [OF length_dropWhile_le]) simp

termination redactBearers
proof (relation "measure length")
  fix s :: string and c t p
  assume "s = c # t" and "match_bearer s = Some p"
  then obtain n where "length p = Suc n"
    using match_bearer_SomeD [of s p] bearer_prefix_nonempty by (cases "length p") auto
  then show "(dropWhile token_char (drop (length p) s), s) \<in> measure length"
    using length_dropWhile_less [of token_char n c t] \<open>s = c # t\<close> by simp
qed auto

declare redactBearers.simps [simp del]

definition contains_bytes :: "bytes \<Rightarrow> bytes \<Rightarrow> bool" where
  "contains_bytes b sub = (\<exists>i \<in> {0..length b}. take (length sub) (drop i b) = sub)"

definition isAlreadyStoppedError :: "bytes \<Rightarrow> bool" where
  "isAlreadyStoppedError body =
     (contains_bytes body ''no_active_session'' \<or> contains_bytes body ''no_active_stream'')"

text \<open>
  What the backend uses of the standard library: \<open>ht_ReqErr\<close> is the error
  \<open>http.NewRequestWithContext\<close> returns for a URL, \<open>ht_Do\<close> the client's \<open>Do\<close>,
  \<open>ht_StopURL backendURL path\<close> parses the URL, replaces its path and clears its query and its
  fragment, \<open>ht_PathEscape\<close> is \<open>url.PathEscape\<close>.
\<close>

record 'w HTTPClient =
  ht_ReqErr :: "string \<Rightarrow> goerr option"
  ht_Do :: "OutRequest \<Rightarrow> ('w, goerr + OutResponse) proc"
  ht_StopURL :: "string \<Rightarrow> string \<Rightarrow> goerr + string"
  ht_PathEscape :: "string \<Rightarrow> string"

definition errBody :: "OutResponse \<Rightarrow> bytes" where
  "errBody resp = take 4096 (rs_Body resp)"

definition HTTPBackend_OpenSession ::
  "'w HTTPClient \<Rightarrow> Request option \<Rightarrow> string \<Rightarrow> ('w, goerr option) proc"
where
  "HTTPBackend_OpenSession h req backendURL =
     (case req of
        None \<Rightarrow> ret (Some (ErrorText ''vtuber_session: HTTPBackend.OpenSession: nil request''))
      | Some r \<Rightarrow>
          if backendURL = ''''
          then ret (Some (ErrorText ''vtuber_session: HTTPBackend.OpenSession: empty backendURL''))
          else
            (case ht_ReqErr h backendURL of
               Some e \<Rightarrow> ret (Some (Wrapped ''build backend request'' e))
             | None \<Rightarrow>
                 let ct = header_Get (rq_Header r) ''Content-Type'';
                     outReq = \<lparr>oq_Method = ''POST'', oq_URL = backendURL,
                               oq_Header = (if ct \<noteq> '''' then header_Set Map.empty ''Content-Type'' ct
                                            else Map.empty),
                               oq_Body = rq_Body r\<rparr>
                 in andThen (ht_Do h outReq) (\<lambda>res.
                      (case res of
                         Inl e \<Rightarrow> ret (Some (Wrapped ''backend POST'' e))
                       | Inr resp \<Rightarrow>
                           if rs_StatusCode resp < 200 \<or> rs_StatusCode resp \<ge> 300
                           then ret (Some (ErrorText (''backend returned '' @
                                  big_String (rs_StatusCode resp) @ '': '' @
                                  redactBearers (errBody resp))))
                           else ret None))))"

definition sessionStopURL :: "'w HTTPClient \<Rightarrow> string \<Rightarrow> string \<Rightarrow> goerr + string" where
  "sessionStopURL h backendURL sessionID =
     (case ht_StopURL h backendURL (''/api/sessions/'' @ ht_PathEscape h sessionID @ ''/stop'') of
        Inl e \<Rightarrow> Inl (Wrapped ''parse backendURL'' e)
      | Inr u \<Rightarrow> Inr u)"

definition HTTPBackend_Close :: "'w HTTPClient \<Rightarrow> string \<Rightarrow> string \<Rightarrow> ('w, goerr option) proc" where
  "HTTPBackend_Close h sessionID backendURL =
     (if TrimSpace sessionID = ''''
      then ret (Some (ErrorText ''vtuber_session: HTTPBackend.Close: empty sessionID''))
      else if TrimSpace backendURL = ''''
      then ret (Some (ErrorText ''vtuber_session: HTTPBackend.Close: empty backendURL''))
      else
        (case sessionStopURL h backendURL sessionID of
           Inl e \<Rightarrow> ret (Some e)
         | Inr stopURL \<Rightarrow>
             (case ht_ReqErr h stopURL of
                Some e \<Rightarrow> ret (Some (Wrapped ''build backend close request'' e))
              | None \<Rightarrow>
                  andThen (ht_Do h \<lparr>oq_Method = ''POST'', oq_URL = stopURL, oq_Header = Map.empty,
                                    oq_Body = []\<rparr>) (\<lambda>res.
                    (case res of
                       Inl e \<Rightarrow> ret (Some (Wrapped ''backend stop POST'' e))
                     | Inr resp \<Rightarrow>
                         if rs_StatusCode resp \<ge> 200 \<and> rs_StatusCode resp < 300 then ret None
                         else if rs_StatusCode resp = 409 \<and> isAlreadyStoppedError (errBody resp)
                         then ret None
                         else ret (Some (ErrorText (''backend stop returned '' @
                                big_String (rs_StatusCode resp) @ '': '' @
                                redactBearers (errBody resp)))))))))"

definition NewHTTPBackend :: "'w HTTPClient \<Rightarrow> 'w BackendForward" where
  "NewHTTPBackend h =
     \<lparr>Backend_OpenSession = HTTPBackend_OpenSession h, Backend_Close = HTTPBackend_Close h\<rparr>"

section \<open>Lemmas: redaction\<close>

text \<open>
  What must not reach the logs, stated on its own and not through the matcher: the comments of
  \<^verbatim>\<open>system.go\<close> name four kinds of token by their prefixes; the secret after the prefix has at least six
  letters, digits, underscores or hyphens.
\<close>

definition secret_alphabet :: string where
  "secret_alphabet = ''ABCDEFGHIJKLMNOPQRSTUVWXYZabcdefghijklmnopqrstuvwxyz0123456789_-''"

definition carries_token :: "string \<Rightarrow> bool" where
  "carries_token s \<longleftrightarrow>
     (\<exists>before kind secret after. s = before @ kind @ secret @ after \<and>
        kind \<in> {''vtbs_'', ''vtbsw_'', ''pl_egress_'', ''lpgw_stream_''} \<and>
        length secret = 6 \<and> set secret \<subseteq> set secret_alphabet)"

lemma token_char_alphabet: "token_char c \<longleftrightarrow> c \<in> set secret_alphabet"
proof -
  have "\<forall>c \<in> set Enum.enum. token_char c \<longleftrightarrow> c \<in> set secret_alphabet" by code_simp
  then show ?thesis by (simp add: UNIV_enum [symmetric])
qed

lemma bearer_prefix_tokens: "p \<in> set bearer_prefixes \<Longrightarrow> \<forall>c \<in> set p. token_char c"
  by (auto simp: bearer_prefixes_def token_char_def Let_def)

lemma not_token_lt [simp]: "\<not> token_char (CHR ''<'')"
  by (simp add: token_char_def)

lemma takeWhile_ge_iff:
  "n \<le> length (takeWhile P xs) \<longleftrightarrow> n \<le> length xs \<and> (\<forall>x \<in> set (take n xs). P x)"
proof (induction xs arbitrary: n)
  case (Cons x xs)
  then show ?case by (cases n) auto
qed auto

lemma append_avoids: "a @ z # b = c @ d \<Longrightarrow> z \<notin> set c \<Longrightarrow> \<exists>u. a = c @ u"
proof (induction a arbitrary: c)
  case Nil
  then show ?case by (cases c) auto
next
  case (Cons x a)
  then show ?case by (cases c) auto
qed

text \<open>A match is a prefix followed by six token characters.\<close>

lemma match_bearer_iff:
  "match_bearer s \<noteq> None \<longleftrightarrow>
     (\<exists>p t r. p \<in> set bearer_prefixes \<and> length t = 6 \<and> (\<forall>c \<in> set t. token_char c) \<and> s = p @ t @ r)"
proof -
  have "bearer_at s p \<longleftrightarrow> (\<exists>t r. length t = 6 \<and> (\<forall>c \<in> set t. token_char c) \<and> s = p @ t @ r)" for p
  proof
    assume a: "bearer_at s p"
    let ?t = "take 6 (drop (length p) s)" and ?r = "drop 6 (drop (length p) s)"
    from a have "length ?t = 6 \<and> (\<forall>c \<in> set ?t. token_char c) \<and> s = p @ ?t @ ?r"
      by (auto simp: bearer_at_def takeWhile_ge_iff simp flip: drop_drop) (metis append_take_drop_id)
    then show "\<exists>t r. length t = 6 \<and> (\<forall>c \<in> set t. token_char c) \<and> s = p @ t @ r" by blast
  qed (auto simp: bearer_at_def takeWhile_ge_iff)
  then show ?thesis by (auto simp: match_bearer_def find_None_iff)
qed

lemma redact_None: "match_bearer (c # t) = None \<Longrightarrow> redactBearers (c # t) = c # redactBearers t"
  by (simp add: redactBearers.simps [of "c # t"])

lemma redact_Some:
  "match_bearer s = Some p \<Longrightarrow>
   redactBearers s = p @ ''<redacted>'' @ redactBearers (dropWhile token_char (drop (length p) s))"
  using match_bearer_SomeD [of s p]
  by (subst redactBearers.simps) (auto simp: bearer_at_def split: list.splits)

text \<open>
  Replacing a token can only lose matches: one that starts before the replaced part and reaches
  into it would have matched the unredacted text as well.
\<close>

lemma redact_no_new_match:
  "match_bearer (x @ redactBearers s) \<noteq> None \<Longrightarrow> match_bearer (x @ s) \<noteq> None"
proof (induction s arbitrary: x rule: redactBearers.induct)
  case (1 s)
  show ?case
  proof (cases s)
    case Nil
    with "1.prems" show ?thesis by (simp add: redactBearers.simps)
  next
    case (Cons c t)
    show ?thesis
    proof (cases "match_bearer s")
      case None
      with Cons "1.prems" have "match_bearer ((x @ [c]) @ redactBearers t) \<noteq> None"
        by (simp add: redact_None)
      with "1.IH"(1) [OF Cons None, of "x @ [c]"] Cons show ?thesis by simp
    next
      case (Some q)
      let ?rest = "dropWhile token_char (drop (length q) s)"
      have s: "s = q @ drop (length q) s"
        using match_bearer_SomeD [OF Some] by (metis append_take_drop_id bearer_at_def)
      from "1.prems" obtain p t' r where
        p: "p \<in> set bearer_prefixes" "length t' = 6" "\<forall>c \<in> set t'. token_char c"
        and eq: "(x @ q) @ CHR ''<'' # ''redacted>'' @ redactBearers ?rest = (p @ t') @ r"
        unfolding redact_Some [OF Some] match_bearer_iff by auto
      have "CHR ''<'' \<notin> set (p @ t')" using p bearer_prefix_tokens [OF p(1)] by auto
      with eq obtain u where "x @ q = (p @ t') @ u"
        by (blast dest: append_avoids)
      then have "x @ s = p @ t' @ (u @ drop (length q) s)" by (subst s) simp
      with p show ?thesis unfolding match_bearer_iff by blast
    qed
  qed
qed

lemma match_bearer_before:
  assumes "match_bearer (y @ z # r) \<noteq> None" and "\<not> token_char z"
  shows "\<exists>p \<in> set bearer_prefixes. take (length p) y = p \<and> length p + 6 \<le> length y"
proof -
  from assms(1) obtain p t u where p: "p \<in> set bearer_prefixes" "length t = 6" "\<forall>c \<in> set t. token_char c"
    and eq: "y @ z # r = (p @ t) @ u"
    unfolding match_bearer_iff by auto
  have "z \<notin> set (p @ t)" using p bearer_prefix_tokens [OF p(1)] assms(2) by auto
  with eq obtain v where "y = (p @ t) @ v"
    by (blast dest: append_avoids)
  with p show ?thesis by (intro bexI [of _ p]) auto
qed

lemma redacted_prefix_clean:
  "\<forall>q \<in> set bearer_prefixes. \<forall>i \<in> set [0..<Suc (length q)]. \<forall>p \<in> set bearer_prefixes.
     \<not> (take (length p) (drop i q) = p \<and> length p + 6 \<le> length (drop i q))"
  by code_simp

lemma redacted_mark_clean: "match_bearer (drop i ''redacted>'' @ r) \<noteq> None \<Longrightarrow> 9 \<le> i"
proof (rule ccontr)
  assume m: "match_bearer (drop i ''redacted>'' @ r) \<noteq> None" and "\<not> 9 \<le> i"
  then have "drop i ''redacted>'' = drop i ''redacted'' @ ''>''"
    by (auto simp: not_le less_Suc_eq numeral_nat)
  with m have "match_bearer (drop i ''redacted'' @ CHR ''>'' # r) \<noteq> None" by simp
  from match_bearer_before [OF this] show False
    by (auto simp: token_char_def bearer_prefixes_def)
qed

lemma redact_clean: "match_bearer (drop i (redactBearers s)) = None"
proof (induction s arbitrary: i rule: redactBearers.induct)
  case (1 s)
  show ?case
  proof (cases s)
    case Nil
    then show ?thesis by (simp add: redactBearers.simps match_bearer_def bearer_prefixes_def bearer_at_def)
  next
    case (Cons c t)
    show ?thesis
    proof (cases "match_bearer s")
      case None
      then show ?thesis
        using "1.IH"(1) [OF Cons None, of "i - 1"] redact_no_new_match [of "[c]" t] Cons
        by (cases i) (auto simp: redact_None simp del: not_None_eq)
    next
      case (Some q)
      let ?R = "redactBearers (dropWhile token_char (drop (length q) s))"
      have q: "q \<in> set bearer_prefixes" using match_bearer_SomeD [OF Some] by simp
      consider "i \<le> length q" | "length q < i" "i < length q + 10" | "length q + 10 \<le> i"
        by linarith
      then show ?thesis
      proof cases
        case 1
        have "drop i (redactBearers s) = drop i q @ CHR ''<'' # (''redacted>'' @ ?R)"
          using 1 by (simp add: redact_Some [OF Some])
        with match_bearer_before [of "drop i q" "CHR ''<''" "''redacted>'' @ ?R"]
          redacted_prefix_clean q 1 show ?thesis by fastforce
      next
        case 2
        then obtain j where "i = length q + Suc j" "j < 9" by (auto dest!: less_imp_Suc_add)
        moreover from this have "drop i (redactBearers s) = drop j ''redacted>'' @ ?R"
          using drop_append [of j "''redacted>''" ?R] by (simp add: redact_Some [OF Some])
        ultimately show ?thesis using redacted_mark_clean [of j ?R] by fastforce
      next
        case 3
        then obtain k where "i = length q + (10 + k)" by (auto simp: le_iff_add)
        then have "drop i (redactBearers s) = drop k ?R"
          using drop_append [of "10 + k" "''<redacted>''" ?R] by (simp add: redact_Some [OF Some])
        with "1.IH"(2) [OF Cons Some] show ?thesis by simp
      qed
    qed
  qed
qed

lemma carries_token_iff: "carries_token s \<longleftrightarrow> (\<exists>i \<le> length s. match_bearer (drop i s) \<noteq> None)"
proof -
  define K where "K = set bearer_prefixes"
  have K: "K = {''vtbs_'', ''vtbsw_'', ''pl_egress_'', ''lpgw_stream_''}"
    by (simp add: K_def bearer_prefixes_def)
  have match: "match_bearer r \<noteq> None \<longleftrightarrow>
      (\<exists>p t u. p \<in> K \<and> length t = 6 \<and> set t \<subseteq> set secret_alphabet \<and> r = p @ t @ u)" for r
    unfolding match_bearer_iff K_def [symmetric] token_char_alphabet subset_iff Ball_def ..
  have "carries_token s \<longleftrightarrow> (\<exists>before r. s = before @ r \<and> match_bearer r \<noteq> None)"
    unfolding carries_token_def match K [symmetric] by iprover
  also have "\<dots> \<longleftrightarrow> (\<exists>i \<le> length s. match_bearer (drop i s) \<noteq> None)"
  proof (intro iffI; elim exE conjE)
    fix before r
    assume "s = before @ r" and "match_bearer r \<noteq> None"
    then show "\<exists>i \<le> length s. match_bearer (drop i s) \<noteq> None" by (intro exI [of _ "length before"]) simp
  next
    fix i
    assume "match_bearer (drop i s) \<noteq> None"
    moreover have "s = take i s @ drop i s" by simp
    ultimately show "\<exists>before r. s = before @ r \<and> match_bearer r \<noteq> None" by blast
  qed
  finally show ?thesis .
qed

lemma redact_untouched: "(\<And>i. i \<le> length s \<Longrightarrow> match_bearer (drop i s) = None) \<Longrightarrow> redactBearers s = s"
proof (induction s)
  case Nil
  show ?case by (simp add: redactBearers.simps)
next
  case (Cons c t)
  have "match_bearer (c # t) = None" using Cons.prems [of 0] by simp
  moreover have "redactBearers t = t" using Cons.IH Cons.prems [of "Suc i" for i] by simp
  ultimately show ?case by (simp add: redact_None)
qed

section \<open>Lemmas: event ids\<close>

lemma scan_digits_zeros: "scan_digits 0 (replicate n (CHR ''0'') @ s) = scan_digits 0 s"
  by (induction n) (simp_all add: digit_val_def)

lemma scan_pad3: "scan_digits 0 (pad3 (dec_nat n)) = Some n"
  by (simp add: pad3_def scan_digits_zeros wire_simps)

lemma pad3_inj: "pad3 (dec_nat m) = pad3 (dec_nat n) \<longleftrightarrow> m = n"
  by (metis option.inject scan_pad3)

fun counter_ids :: "string \<Rightarrow> u64 \<Rightarrow> nat \<Rightarrow> string list" where
  "counter_ids prefix c 0 = []"
| "counter_ids prefix c (Suc n) =
     (case CounterIDGen_NextID prefix c of (i, c') \<Rightarrow> i # counter_ids prefix c' n)"

definition counter_id :: "string \<Rightarrow> u64 \<Rightarrow> string" where
  "counter_id prefix n = prefix @ ''_'' @ pad3 (big_String (uint n))"

lemma counter_id_inj: "counter_id prefix m = counter_id prefix n \<longleftrightarrow> m = n"
  by (simp add: counter_id_def big_String_def pad3_inj word_unat_eq_iff)

lemma unat_of_nat64: "m < 2 ^ 64 \<Longrightarrow> unat (of_nat m :: u64) = m"
  by (simp add: unsigned_of_nat take_bit_nat_eq_self)

lemma counter_ids_eq: "counter_ids prefix c n = map (\<lambda>i. counter_id prefix (c + of_nat i)) [1..<Suc n]"
proof (induction n arbitrary: c)
  case (Suc n)
  have "map (\<lambda>i. counter_id prefix (c + of_nat i)) [1..<Suc (Suc n)] =
        counter_id prefix (c + 1) # map (\<lambda>i. counter_id prefix (c + of_nat i)) (map Suc [1..<Suc n])"
    unfolding map_Suc_upt by (subst upt_rec) simp
  then show ?case
    by (simp add: Suc CounterIDGen_NextID_def counter_id_def Let_def add.assoc del: upt_Suc)
qed simp

section \<open>Properties\<close>

text \<open>C40: Redaction loses the tokens and nothing else. Whatever a backend's error body was, after
  redaction it holds none of the four kinds of token, that is no prefix \<^verbatim>\<open>vtbs_\<close>, \<^verbatim>\<open>vtbsw_\<close>, \<^verbatim>\<open>pl_egress_\<close>
  or \<^verbatim>\<open>lpgw_stream_\<close> followed by six characters of the token alphabet; and a body that holds none is
  passed on as it is.\<close>

theorem redactBearers_complete:
  "\<not> carries_token (redactBearers s) \<and> (\<not> carries_token s \<longrightarrow> redactBearers s = s)"
  using redact_clean redact_untouched [of s] by (auto simp: carries_token_iff)

theorem redactBearers_complete_witness:
  "redactBearers ''down'' = ''down'' \<and> \<not> carries_token (redactBearers ''x=lpgw_stream_abc-123'')"
proof -
  have "\<not> carries_token ''down''"
  proof
    assume "carries_token ''down''"
    then have "\<exists>i \<in> {0..4}. match_bearer (drop i ''down'') \<noteq> None" by (auto simp: carries_token_iff)
    moreover have "\<not> (\<exists>i \<in> set [0..<5]. match_bearer (drop i ''down'') \<noteq> None)" by code_simp
    ultimately show False by fastforce
  qed
  with redactBearers_complete [of "''down''"] redactBearers_complete [of "''x=lpgw_stream_abc-123''"]
  show ?thesis by simp
qed

text \<open>The first \<open>n\<close> event ids of a counter generator are pairwise distinct, from any
  starting value, up to the 2^64 values of the counter: the zero padding of \<open>%03d\<close>
  makes no two of them equal.\<close>

lemma counter_ids_distinct:
  assumes "n \<le> 2 ^ 64"
  shows "distinct (counter_ids prefix c n)"
proof -
  have "inj_on (\<lambda>i. counter_id prefix (c + of_nat i)) {1..<Suc n}"
  proof (rule inj_onI)
    fix i j
    assume ij: "i \<in> {1..<Suc n}" "j \<in> {1..<Suc n}"
      and "counter_id prefix (c + of_nat i) = counter_id prefix (c + of_nat j)"
    then have "(of_nat (i - 1) :: u64) = of_nat (j - 1)" by (simp add: counter_id_inj of_nat_diff)
    moreover have "unat (of_nat (m - 1) :: u64) = m - 1" if "m \<in> {1..<Suc n}" for m
      using that assms by (intro unat_of_nat64) auto
    ultimately have "i - 1 = j - 1" using ij by metis
    with ij show "i = j" by auto
  qed
  then show ?thesis by (simp add: counter_ids_eq distinct_map del: upt_Suc)
qed

text \<open>The HTTP backend's stop request reports success exactly when the backend answered with a
  2xx status, or with 409 and one of the two already-stopped markers in the first 4096 bytes of its
  answer; a blank session id, a blank or unparsable URL, or a transport error is an error.\<close>

lemma HTTPBackend_Close_success_iff:
  "HTTPBackend_Close h sessionID backendURL w = (Ret None, w') \<longleftrightarrow>
     TrimSpace sessionID \<noteq> '''' \<and> TrimSpace backendURL \<noteq> '''' \<and>
     (\<exists>stopURL resp. sessionStopURL h backendURL sessionID = Inr stopURL \<and> ht_ReqErr h stopURL = None \<and>
        ht_Do h \<lparr>oq_Method = ''POST'', oq_URL = stopURL, oq_Header = Map.empty, oq_Body = []\<rparr> w
          = (Ret (Inr resp), w') \<and>
        (200 \<le> rs_StatusCode resp \<and> rs_StatusCode resp < 300 \<or>
         rs_StatusCode resp = 409 \<and>
           (contains_bytes (take 4096 (rs_Body resp)) ''no_active_session'' \<or>
            contains_bytes (take 4096 (rs_Body resp)) ''no_active_stream'')))"
  by (auto simp: HTTPBackend_Close_def andThen_eq isAlreadyStoppedError_def errBody_def split_sum_ex
      split: option.splits if_splits sum.splits)

end
