(* ===== verification/Http.thy ===== *)
theory Http
  imports Config Session_Deps
begin

text \<open>
  The state the HTTP handlers share and their common parts: \<^verbatim>\<open>runtime/http/mux.go\<close> (the
  paid-route semaphore, the registry of streaming sessions, registration of routes), and from
  \<^verbatim>\<open>middleware.go\<close> the status writer, \<open>classifyOutcome\<close> and \<open>writeJSONError\<close>. A handler is a
  \<open>proc\<close> over the record \<open>server\<close>: the payment daemon, the recorder, the number of taken
  semaphore slots and the session registry. JSON bodies are kept as values; their text form is not
  modelled.
\<close>

section \<open>Responses\<close>

datatype json = JStr string | JInt int | JArr "json list" | JObj "(string \<times> json) list"

datatype body = Empty | Text string | Json json | Raw bytes

record Response =
  rp_Status :: int
  rp_Body :: body

definition http_Error :: "string \<Rightarrow> int \<Rightarrow> Response" where
  "http_Error msg code = \<lparr>rp_Status = code, rp_Body = Text msg\<rparr>"

definition writeJSONError :: "int \<Rightarrow> string \<Rightarrow> string \<Rightarrow> Response" where
  "writeJSONError status code detail =
     \<lparr>rp_Status = status, rp_Body = Json (JObj [(''detail'', JStr detail), (''error'', JStr code)])\<rparr>"

section \<open>The streaming session registry\<close>

record streamingSessionInfo =
  si_GatewaySessionID :: string
  si_WorkerSessionID :: string
  si_WorkID :: string
  si_BackendURL :: string
  si_Sender :: bytes

type_synonym registry = "string \<rightharpoonup> streamingSessionInfo"

definition registry_Upsert :: "streamingSessionInfo \<Rightarrow> registry \<Rightarrow> registry" where
  "registry_Upsert info r = r(si_GatewaySessionID info \<mapsto> info)"

definition registry_Get :: "string \<Rightarrow> registry \<Rightarrow> streamingSessionInfo option" where
  "registry_Get gid r = r gid"

definition registry_Delete :: "string \<Rightarrow> registry \<Rightarrow> registry" where
  "registry_Delete gid r = r(gid := None)"

section \<open>Shared state\<close>

record ('d, 'r) server =
  sv_payee :: 'd
  sv_rec :: 'r
  sv_sem :: nat
  sv_sessions :: registry

type_synonym ('d, 'r, 'a) handler = "(('d, 'r) server, 'a) proc"

definition payee_call :: "('d \<Rightarrow> 'a \<times> 'd) \<Rightarrow> ('d, 'r, 'a) handler" where
  "payee_call f st = (case f (sv_payee st) of (x, d) \<Rightarrow> (Ret x, st\<lparr>sv_payee := d\<rparr>))"

definition record_metric :: "'r recorder \<Rightarrow> metric_call \<Rightarrow> ('d, 'r, unit) handler" where
  "record_metric rec m = modify (\<lambda>st. st\<lparr>sv_rec := rec m (sv_rec st)\<rparr>)"

definition sessions_update :: "(registry \<Rightarrow> registry) \<Rightarrow> ('d, 'r, unit) handler" where
  "sessions_update f = modify (\<lambda>st. st\<lparr>sv_sessions := f (sv_sessions st)\<rparr>)"

text \<open>The buffered channel as a counter: a non-blocking send, and a receive of a value that is there.\<close>

definition sem_acquire :: "nat \<Rightarrow> ('d, 'r, bool) handler" where
  "sem_acquire capacity st =
     (if sv_sem st < capacity then (Ret True, st\<lparr>sv_sem := sv_sem st + 1\<rparr>) else (Ret False, st))"

definition sem_release :: "('d, 'r, unit) handler" where
  "sem_release = modify (\<lambda>st. st\<lparr>sv_sem := sv_sem st - 1\<rparr>)"

section \<open>The mux\<close>

datatype route_kind = UnpaidRoute | PaidRoute string | StreamingRoute string | TopupRoute | EndRoute bool

record 'd Mux =
  mx_cfg :: Config
  mx_payee :: "'d Client"
  mx_registered :: "string set"
  mx_paidCapabilities :: "string set"
  mx_semCap :: nat
  mx_inner :: "string \<rightharpoonup> route_kind"

definition NewMux :: "Config \<Rightarrow> 'd Client \<Rightarrow> 'd Mux" where
  "NewMux cfg payee =
     (let maxConcurrent = ws_MaxConcurrentRequests (cf_Worker cfg)
      in \<lparr>mx_cfg = cfg, mx_payee = payee, mx_registered = {}, mx_paidCapabilities = {},
          mx_semCap = nat (if maxConcurrent \<le> 0 then 1 else maxConcurrent), mx_inner = Map.empty\<rparr>)"

definition InflightPaid :: "('d, 'r) server \<Rightarrow> int" where
  "InflightPaid st = int (sv_sem st)"

definition MaxConcurrentPaid :: "'d Mux \<Rightarrow> int" where
  "MaxConcurrentPaid m = int (mx_semCap m)"

definition route_key :: "string \<Rightarrow> string \<Rightarrow> string" where
  "route_key method path = method @ '' '' @ path"

definition bind_route :: "string \<Rightarrow> route_kind \<Rightarrow> 'd Mux \<Rightarrow> 'd Mux" where
  "bind_route key k m =
     m\<lparr>mx_registered := insert key (mx_registered m), mx_inner := (mx_inner m)(key \<mapsto> k)\<rparr>"

definition Register :: "string \<Rightarrow> string \<Rightarrow> ('d Mux, unit) proc" where
  "Register method path m =
     (let key = route_key method path in
      if key \<in> mx_registered m then (Panic (''Mux.Register: duplicate route '' @ key), m)
      else (Ret (), bind_route key UnpaidRoute m))"

definition RegisterPaidRoute :: "string \<Rightarrow> string \<Rightarrow> string \<Rightarrow> ('d Mux, unit) proc" where
  "RegisterPaidRoute capability method path m =
     (let key = route_key method path in
      if key \<in> mx_registered m then (Panic (''Mux.RegisterPaidRoute: duplicate route '' @ key), m)
      else (Ret (), bind_route key (PaidRoute capability)
                      (m\<lparr>mx_paidCapabilities := insert capability (mx_paidCapabilities m)\<rparr>)))"

definition topup_key :: string where
  "topup_key = ''POST /api/sessions/{gateway_session_id}/topup''"

definition end_key :: string where
  "end_key = ''POST /api/sessions/{gateway_session_id}/end''"

definition bind_if_absent :: "string \<Rightarrow> route_kind \<Rightarrow> 'd Mux \<Rightarrow> 'd Mux" where
  "bind_if_absent key k m = (if key \<in> mx_registered m then m else bind_route key k m)"

text \<open>\<open>terminates\<close> says whether the module is a \<open>SessionTerminator\<close>.\<close>

definition RegisterStreamingRoute :: "string \<Rightarrow> string \<Rightarrow> string \<Rightarrow> bool \<Rightarrow> ('d Mux, unit) proc" where
  "RegisterStreamingRoute capability method path terminates m =
     (let key = route_key method path in
      if key \<in> mx_registered m then (Panic (''Mux.RegisterStreamingRoute: duplicate route '' @ key), m)
      else (Ret (),
            bind_if_absent end_key (EndRoute terminates)
              (bind_if_absent topup_key TopupRoute
                (bind_route key (StreamingRoute capability)
                  (m\<lparr>mx_paidCapabilities := insert capability (mx_paidCapabilities m)\<rparr>)))))"

definition HasPaidCapability :: "string \<Rightarrow> 'd Mux \<Rightarrow> bool" where
  "HasPaidCapability c m = (c \<in> mx_paidCapabilities m)"

section \<open>The status writer\<close>

datatype writer_op = WriteHeader int | Write body | Flush

record statusWriter =
  sw_status :: int
  sw_wrote :: bool
  sw_inner :: "writer_op list"

definition new_statusWriter :: statusWriter where
  "new_statusWriter = \<lparr>sw_status = 0, sw_wrote = False, sw_inner = []\<rparr>"

fun statusWriter_op :: "writer_op \<Rightarrow> statusWriter \<Rightarrow> statusWriter" where
  "statusWriter_op (WriteHeader code) s =
     (if sw_wrote s then s else s\<lparr>sw_status := code, sw_wrote := True\<rparr>)
       \<lparr>sw_inner := sw_inner s @ [WriteHeader code]\<rparr>"
| "statusWriter_op (Write b) s =
     (if sw_wrote s then s else s\<lparr>sw_status := 200, sw_wrote := True\<rparr>)
       \<lparr>sw_inner := sw_inner s @ [Write b]\<rparr>"
| "statusWriter_op Flush s = s\<lparr>sw_inner := sw_inner s @ [Flush]\<rparr>"

definition classifyOutcome :: "goerr option \<Rightarrow> int \<Rightarrow> string" where
  "classifyOutcome ctxErr status =
     (if (case ctxErr of None \<Rightarrow> False
          | Some err \<Rightarrow> errors_is err context_Canceled \<or> errors_is err context_DeadlineExceeded)
      then OutcomeRequestCanceled
      else if 200 \<le> status \<and> status < 300 then OutcomeRequest2xx
      else if status = 402 then OutcomeRequest402
      else if status = 429 then OutcomeRequest4xx
      else if 400 \<le> status \<and> status < 500 then OutcomeRequest4xx
      else if 500 \<le> status \<and> status < 600 then OutcomeRequest5xx
      else if status = 0 then OutcomeRequest5xx
      else OutcomeRequest5xx)"

section \<open>Lemmas\<close>

lemma payee_call_eq:
  "payee_call f st = (r, st') \<longleftrightarrow>
     (\<exists>x d. f (sv_payee st) = (x, d) \<and> r = Ret x \<and> st' = st\<lparr>sv_payee := d\<rparr>)"
  by (auto simp: payee_call_def split: prod.splits)

lemma sessions_update_eq:
  "sessions_update f st = (r, st') \<longleftrightarrow> r = Ret () \<and> st' = st\<lparr>sv_sessions := f (sv_sessions st)\<rparr>"
  by (auto simp: sessions_update_def)

lemma registry_laws [simp]:
  "registry_Get (si_GatewaySessionID info) (registry_Upsert info r) = Some info"
  "gid \<noteq> si_GatewaySessionID info \<Longrightarrow> registry_Get gid (registry_Upsert info r) = registry_Get gid r"
  "registry_Get gid (registry_Delete gid r) = None"
  "gid \<noteq> gid' \<Longrightarrow> registry_Get gid (registry_Delete gid' r) = registry_Get gid r"
  by (simp_all add: registry_Get_def registry_Upsert_def registry_Delete_def)

text \<open>The first header written, or 200 if a body comes first. A flush alone does not count here,
  although net/http would send a 200 header for it.\<close>

fun sent_status :: "writer_op list \<Rightarrow> int" where
  "sent_status [] = 0"
| "sent_status (WriteHeader code # ops) = code"
| "sent_status (Write b # ops) = 200"
| "sent_status (Flush # ops) = sent_status ops"

lemma statusWriter_ops:
  "sw_inner (fold statusWriter_op ops s) = sw_inner s @ ops \<and>
   sw_status (fold statusWriter_op ops s) =
     (if sw_wrote s then sw_status s
      else if list_all (\<lambda>op. op = Flush) ops then sw_status s else sent_status ops)"
proof (induction ops arbitrary: s)
  case (Cons op ops)
  then show ?case by (cases op) auto
qed simp

lemma sent_status_flushes: "list_all (\<lambda>op. op = Flush) ops \<Longrightarrow> sent_status ops = 0"
  by (induction ops) auto

section \<open>Properties\<close>

text \<open>Whatever a module writes, the status writer passes every operation on in order and reports
  the status of the first header or body written, and 0 when there was none.\<close>

lemma statusWriter_status:
  "sw_inner (fold statusWriter_op ops new_statusWriter) = ops \<and>
   sw_status (fold statusWriter_op ops new_statusWriter) = sent_status ops"
  using statusWriter_ops [of ops new_statusWriter]
  by (auto simp: new_statusWriter_def sent_status_flushes)

end
