(* ===== verification/Session.thy ===== *)
theory Session
  imports Session_Deps
begin

text \<open>
  \<^verbatim>\<open>vtuber_session/module.go\<close>: one streaming session, from the backend's session-open to the
  release of its payment session. The session's mutable fields are the record \<open>session\<close>; each
  function of the file is a \<open>proc\<close> over it, so a panic of a collaborator skips the rest as it
  does in Go. Every call on a collaborator is appended to the field \<open>calls\<close> with what it
  returned; nothing in the model reads that field, it is what the theorems speak about.

  The \<open>select\<close> of \<open>runLoop\<close> is a list of inputs, one per iteration: what the scheduler
  found ready. A theorem about all lists is a theorem about all interleavings of ticks, the grace
  timer, the bridge reader and cancellation. A list that ends before the session does leaves it
  running. The \<open>select\<close> of the retry pause is \<open>RetryWait\<close> of the context: the context's error
  when cancellation came first. While the main loop waits, the rest of the worker runs: \<open>SelectWait\<close>
  is what has become of the shared world when the next input is ready.
\<close>

section \<open>Configuration\<close>

definition CapabilityName :: string where "CapabilityName = ''livepeer:vtuber-session''"
definition HTTPMethodName :: string where "HTTPMethodName = ''POST''"
definition HTTPPathName :: string where "HTTPPathName = ''/api/sessions/start''"

definition Second :: int where "Second = 1000000000"
definition DefaultDebitCadence :: int where "DefaultDebitCadence = 5 * Second"
definition DefaultRunwayMinUnits :: u64 where "DefaultRunwayMinUnits = 30"
definition DefaultGraceWindow :: int where "DefaultGraceWindow = 60 * Second"
definition DefaultDebitRetryBudget :: int where "DefaultDebitRetryBudget = 3"
definition DefaultDebitRetryInterval :: int where "DefaultDebitRetryInterval = Second"

record 'w ModuleConfig =
  mc_BackendURL :: string
  mc_DebitCadence :: int
  mc_RunwayMinUnits :: u64
  mc_GraceWindow :: int
  mc_DebitRetryBudget :: int
  mc_DebitRetryInterval :: int
  mc_Bridge :: "'w BridgeControlPlane option"
  mc_Backend :: "'w BackendForward option"
  mc_Clock :: "'w Clock option"
  mc_IDGen :: "'w IDGenerator option"

text \<open>The module that \<open>New\<close> builds: after \<open>withDefaults\<close> only the id generator may be nil.\<close>

record 'w Module =
  md_BackendURL :: string
  md_DebitCadence :: int
  md_RunwayMinUnits :: u64
  md_GraceWindow :: int
  md_DebitRetryBudget :: int
  md_DebitRetryInterval :: int
  md_Bridge :: "'w BridgeControlPlane"
  md_Backend :: "'w BackendForward"
  md_Clock :: "'w Clock"
  md_IDGen :: "'w IDGenerator option"

definition withDefaults :: "'w BackendForward \<Rightarrow> 'w Clock \<Rightarrow> 'w ModuleConfig \<Rightarrow> 'w Module" where
  "withDefaults httpBackend systemClock c =
     \<lparr>md_BackendURL = mc_BackendURL c,
      md_DebitCadence = (if mc_DebitCadence c = 0 then DefaultDebitCadence else mc_DebitCadence c),
      md_RunwayMinUnits = (if mc_RunwayMinUnits c = 0 then DefaultRunwayMinUnits else mc_RunwayMinUnits c),
      md_GraceWindow = (if mc_GraceWindow c = 0 then DefaultGraceWindow else mc_GraceWindow c),
      md_DebitRetryBudget =
        (if mc_DebitRetryBudget c \<le> 0 then DefaultDebitRetryBudget else mc_DebitRetryBudget c),
      md_DebitRetryInterval =
        (if mc_DebitRetryInterval c \<le> 0 then DefaultDebitRetryInterval else mc_DebitRetryInterval c),
      md_Bridge = (case mc_Bridge c of None \<Rightarrow> NewStubBridge | Some b \<Rightarrow> b),
      md_Backend = (case mc_Backend c of None \<Rightarrow> httpBackend | Some b \<Rightarrow> b),
      md_Clock = (case mc_Clock c of None \<Rightarrow> systemClock | Some k \<Rightarrow> k),
      md_IDGen = mc_IDGen c\<rparr>"

definition EstimateWorkUnits :: "Request \<Rightarrow> goerr + int" where
  "EstimateWorkUnits req = Inr 1"

section \<open>The state of a session\<close>

datatype call =
    Called_OpenSession string "goerr option outcome"
  | Called_Ticker int "unit outcome"
  | Called_TickerStop
  | Called_Debit u64 u64 "(goerr + int) outcome"
  | Called_Sufficient u64 "(goerr + bool) outcome"
  | Called_After int
  | Called_Send Event "goerr option outcome"
  | Called_BridgeClose "goerr option outcome"
  | Called_Close "goerr option outcome"

record 'w session =
  cumulativeUnits :: u64
  debitSeq :: u64
  consecutiveDebitFailures :: int
  inLowBalance :: bool
  graceTimerCh :: "int option"
  endReason :: "EndReason option"
  inboundErrChNil :: bool
  idCounter :: u64
  world :: 'w
  calls :: "call list"

text \<open>What the \<open>select\<close> of the main loop finds ready.\<close>

datatype input =
    CtxDone goerr
  | TickFired
  | GraceFired
  | Inbound Event
  | InboundClosed
  | InboundErr goerr

record 'w Ctx =
  RetryWait :: "int \<Rightarrow> 'w \<Rightarrow> goerr option \<times> 'w"
  SelectWait :: "input \<Rightarrow> 'w \<Rightarrow> 'w"

record 'w sessionEnv =
  se_cfg :: "'w Module"
  se_ctx :: "'w Ctx"
  se_sessionID :: string
  se_workerSessionID :: string
  se_workID :: string
  se_ps :: "'w PaymentSession"

definition new_session :: "'w \<Rightarrow> 'w session" where
  "new_session w =
     \<lparr>cumulativeUnits = 0, debitSeq = 0, consecutiveDebitFailures = 0, inLowBalance = False,
      graceTimerCh = None, endReason = None, inboundErrChNil = False, idCounter = 0, world = w,
      calls = []\<rparr>"

definition quiet :: "('w \<Rightarrow> 'a \<times> 'w) \<Rightarrow> ('w session, 'a) proc" where
  "quiet f s = (case f (world s) of (x, w) \<Rightarrow> (Ret x, s\<lparr>world := w\<rparr>))"

definition invoke :: "('w, 'a) proc \<Rightarrow> ('a outcome \<Rightarrow> call) \<Rightarrow> ('w session, 'a) proc" where
  "invoke op mk s = (case op (world s) of (r, w) \<Rightarrow> (r, s\<lparr>world := w, calls := calls s @ [mk r]\<rparr>))"

section \<open>Emitting events and recording the end\<close>

definition nextID :: "'w sessionEnv \<Rightarrow> ('w session, string) proc" where
  "nextID env =
     (case md_IDGen (se_cfg env) of
        Some g \<Rightarrow> quiet g
      | None \<Rightarrow> (\<lambda>s. case CounterIDGen_NextID (se_sessionID env) (idCounter s) of
                      (i, n) \<Rightarrow> (Ret i, s\<lparr>idCounter := n\<rparr>)))"

definition emit :: "'w sessionEnv \<Rightarrow> EventType \<Rightarrow> EventData \<Rightarrow> ('w session, unit) proc" where
  "emit env typ data =
     andThen (nextID env) (\<lambda>eventID.
     andThen (quiet (Now (md_Clock (se_cfg env)))) (\<lambda>tsMs.
       let ev = \<lparr>ev_EventID = eventID, ev_Type = typ, ev_SessionID = se_sessionID env,
                 ev_TsMs = tsMs, ev_Data = data\<rparr>
       in andThen (invoke (Send (md_Bridge (se_cfg env)) ev) (Called_Send ev)) (\<lambda>_. ret ())))"

definition emitErrorBest :: "'w sessionEnv \<Rightarrow> ErrorCode \<Rightarrow> string \<Rightarrow> bool \<Rightarrow> ('w session, unit) proc" where
  "emitErrorBest env code msg recoverable =
     emit env EventSessionError (ErrorData code msg recoverable)"

definition recordEnd :: "EndReason \<Rightarrow> ('w session, unit) proc" where
  "recordEnd reason = modify (\<lambda>s. if endReason s = None then s\<lparr>endReason := Some reason\<rparr> else s)"

definition emitEndedBest :: "'w sessionEnv \<Rightarrow> ('w session, unit) proc" where
  "emitEndedBest env =
     andThen (gets (\<lambda>s. (case endReason s of None \<Rightarrow> EndReasonUserEnd | Some r \<Rightarrow> r, cumulativeUnits s)))
       (\<lambda>(reason, units). emit env EventSessionEnded (EndedData reason units))"

section \<open>Balance state and debits\<close>

definition enterLowBalance :: "'w sessionEnv \<Rightarrow> int \<Rightarrow> ('w session, unit) proc" where
  "enterLowBalance env balance =
     andThen (modify (\<lambda>s. s\<lparr>inLowBalance := True, graceTimerCh := Some (md_GraceWindow (se_cfg env)),
                            calls := calls s @ [Called_After (md_GraceWindow (se_cfg env))]\<rparr>)) (\<lambda>_.
       emit env EventSessionBalanceLow (BalanceLow balance))"

definition exitLowBalance :: "'w sessionEnv \<Rightarrow> ('w session, unit) proc" where
  "exitLowBalance env =
     andThen (modify (\<lambda>s. s\<lparr>inLowBalance := False, graceTimerCh := None\<rparr>)) (\<lambda>_.
       emit env EventSessionBalanceRefilled
         (BalanceRefilled (se_workerSessionID env) (se_workID env) (sint (md_RunwayMinUnits (se_cfg env)))))"

definition psSufficient :: "'w sessionEnv \<Rightarrow> ('w session, goerr + bool) proc" where
  "psSufficient env =
     invoke (Sufficient (se_ps env) (md_RunwayMinUnits (se_cfg env)))
       (Called_Sufficient (md_RunwayMinUnits (se_cfg env)))"

definition checkSufficientNoEmit :: "'w sessionEnv \<Rightarrow> ('w session, bool) proc" where
  "checkSufficientNoEmit env =
     andThen (psSufficient env) (\<lambda>r. case r of Inl e \<Rightarrow> ret False | Inr ok \<Rightarrow> ret ok)"

text \<open>The retry loop of \<open>debitWithRetry\<close>, from attempt number \<open>attempt\<close> on.\<close>

function debitAttempts ::
  "'w sessionEnv \<Rightarrow> u64 \<Rightarrow> u64 \<Rightarrow> int \<Rightarrow> ('w session, goerr + int) proc"
where
  "debitAttempts env units seq attempt =
     (if attempt \<le> md_DebitRetryBudget (se_cfg env) then
        andThen (invoke (Debit (se_ps env) units seq) (Called_Debit units seq)) (\<lambda>r.
          case r of
            Inr balance \<Rightarrow>
              andThen (modify (\<lambda>s. s\<lparr>debitSeq := seq, consecutiveDebitFailures := 0\<rparr>)) (\<lambda>_.
                ret (Inr balance))
          | Inl e \<Rightarrow>
              andThen (modify (\<lambda>s. s\<lparr>consecutiveDebitFailures := consecutiveDebitFailures s + 1\<rparr>)) (\<lambda>_.
              andThen (if attempt = 1
                       then emit env EventSessionError
                              (ErrorData ErrCodePaymentUnreachable (error_text e) True)
                       else ret ()) (\<lambda>_.
              andThen (if attempt < md_DebitRetryBudget (se_cfg env)
                       then quiet (RetryWait (se_ctx env) (md_DebitRetryInterval (se_cfg env)))
                       else ret None) (\<lambda>cancelled.
                case cancelled of
                  Some ce \<Rightarrow> ret (Inl ce)
                | None \<Rightarrow> debitAttempts env units seq (attempt + 1)))))
      else ret (Inl (ErrorText (''Debit failed after '' @
                   big_String (md_DebitRetryBudget (se_cfg env)) @ '' attempts''))))"
  by pat_completeness auto
termination
  by (relation "measure (\<lambda>(env, units, seq, attempt). nat (md_DebitRetryBudget (se_cfg env) + 1 - attempt))")
     auto

declare debitAttempts.simps [simp del]

definition debitWithRetry :: "'w sessionEnv \<Rightarrow> u64 \<Rightarrow> ('w session, goerr + int) proc" where
  "debitWithRetry env units =
     andThen (gets debitSeq) (\<lambda>seq. debitAttempts env units (seq + 1) 1)"

definition tick_units :: "'w Module \<Rightarrow> u64" where
  "tick_units m =
     (let units = word_of_int (go_quot (md_DebitCadence m) Second) in if units = 0 then 1 else units)"

text \<open>The second half of \<open>tick\<close>: the runway check after a debit.\<close>

definition tickSufficient :: "'w sessionEnv \<Rightarrow> int \<Rightarrow> ('w session, goerr option) proc" where
  "tickSufficient env balance =
     andThen (psSufficient env) (\<lambda>res.
       case res of
         Inl e \<Rightarrow> ret None
       | Inr ok \<Rightarrow>
           andThen (gets inLowBalance) (\<lambda>low.
           andThen (if \<not> ok \<and> \<not> low then enterLowBalance env balance
                    else if ok \<and> low then exitLowBalance env
                    else ret ()) (\<lambda>_. ret None)))"

text \<open>\<open>tick\<close> returns Go's error, \<open>None\<close> for nil.\<close>

definition tick :: "'w sessionEnv \<Rightarrow> ('w session, goerr option) proc" where
  "tick env =
     (let units = tick_units (se_cfg env) in
      andThen (debitWithRetry env units) (\<lambda>r.
        case r of
          Inl err \<Rightarrow>
            andThen (recordEnd EndReasonFatalError) (\<lambda>_.
            andThen (emit env EventSessionError
                       (ErrorData ErrCodePaymentUnreachable (error_text err) False)) (\<lambda>_.
              ret (Some (Wrapped ''debit'' err))))
        | Inr balance \<Rightarrow>
            if balance < 0 then
              andThen (recordEnd EndReasonFatalError) (\<lambda>_.
              andThen (emit env EventSessionError
                         (ErrorData ErrCodeBalanceExhausted (''over-debit: balance '' @ big_String balance)
                            False)) (\<lambda>_.
                ret (Some (ErrorText ''vtuber_session: over-debit''))))
            else
              andThen (modify (\<lambda>s. s\<lparr>cumulativeUnits := cumulativeUnits s + units\<rparr>)) (\<lambda>_.
              andThen (gets (\<lambda>s. \<lparr>ut_WorkerSessionID = se_workerSessionID env,
                                  ut_WorkID = se_workID env, ut_UsageSeq = debitSeq s,
                                  ut_WorkUnits = units, ut_WorkUnitKind = ''second'',
                                  ut_CumulativeWorkUnits = cumulativeUnits s\<rparr>)) (\<lambda>data.
              andThen (emit env EventSessionUsageTick (UsageTick data)) (\<lambda>_.
                tickSufficient env balance)))))"

section \<open>The main loop\<close>

text \<open>
  One iteration: \<open>None\<close> continues, \<open>Some e\<close> returns the error \<open>e\<close> (\<open>Some None\<close> returns
  nil). A nil channel is never ready, so a grace input without an armed timer, or an
  error input after the error channel was set to nil, is no iteration.
\<close>

definition loopStep :: "'w sessionEnv \<Rightarrow> input \<Rightarrow> ('w session, goerr option option) proc" where
  "loopStep env i =
     (case i of
        CtxDone err \<Rightarrow> andThen (recordEnd EndReasonShutdown) (\<lambda>_. ret (Some (Some err)))
      | TickFired \<Rightarrow>
          andThen (tick env) (\<lambda>r. case r of Some err \<Rightarrow> ret (Some (Some err)) | None \<Rightarrow> ret None)
      | GraceFired \<Rightarrow>
          andThen (gets graceTimerCh) (\<lambda>ch.
            case ch of
              None \<Rightarrow> ret None
            | Some _ \<Rightarrow>
                andThen (checkSufficientNoEmit env) (\<lambda>ok.
                  if \<not> ok then
                    andThen (recordEnd EndReasonBalanceExhausted) (\<lambda>_.
                    andThen (emit env EventSessionError
                               (ErrorData ErrCodeBalanceExhausted
                                  ''grace window expired with insufficient balance'' False)) (\<lambda>_.
                      ret (Some (Some (ErrorText ''vtuber_session: balance exhausted past grace'')))))
                  else andThen (exitLowBalance env) (\<lambda>_. ret None)))
      | Inbound ev \<Rightarrow>
          if ev_Type ev = ''session.end''
          then andThen (recordEnd EndReasonUserEnd) (\<lambda>_. ret (Some None))
          else ret None
      | InboundClosed \<Rightarrow> ret None
      | InboundErr err \<Rightarrow> andThen (modify (\<lambda>s. s\<lparr>inboundErrChNil := True\<rparr>)) (\<lambda>_. ret None))"

datatype serve_result = StillRunning | Returned "goerr option"

definition selectWait :: "'w sessionEnv \<Rightarrow> input \<Rightarrow> ('w session, unit) proc" where
  "selectWait env i = quiet (\<lambda>w. ((), SelectWait (se_ctx env) i w))"

fun loop :: "'w sessionEnv \<Rightarrow> input list \<Rightarrow> ('w session, serve_result) proc" where
  "loop env [] = ret StillRunning"
| "loop env (i # is) =
     andThen (selectWait env i) (\<lambda>_.
     andThen (loopStep env i) (\<lambda>r. case r of Some err \<Rightarrow> ret (Returned err) | None \<Rightarrow> loop env is))"

definition stopTicker :: "serve_result outcome \<Rightarrow> ('w session, serve_result) proc" where
  "stopTicker r s =
     (r, if r = Ret StillRunning then s else s\<lparr>calls := calls s @ [Called_TickerStop]\<rparr>)"

definition runLoop :: "'w sessionEnv \<Rightarrow> input list \<Rightarrow> ('w session, serve_result) proc" where
  "runLoop env inputs =
     andThen (invoke (Ticker (md_Clock (se_cfg env)) (md_DebitCadence (se_cfg env)))
                (Called_Ticker (md_DebitCadence (se_cfg env)))) (\<lambda>_.
       deferred (loop env inputs) stopTicker)"

text \<open>
  The bridge reader: what it forwards to the main loop for a sequence of results of \<open>Recv\<close>. A
  \<open>Dropped\<close> result is one whose hand-over lost against cancellation.
\<close>

datatype recv_result = Received Event | RecvFailed goerr | Dropped

fun bridgeReader :: "recv_result list \<Rightarrow> input list" where
  "bridgeReader [] = []"
| "bridgeReader (Received ev # rs) = Inbound ev # bridgeReader rs"
| "bridgeReader (RecvFailed e # rs) = [InboundErr e, InboundClosed]"
| "bridgeReader (Dropped # rs) = [InboundClosed]"

section \<open>Serve and TerminateSession\<close>

definition extractSessionID :: "Request option \<Rightarrow> string" where
  "extractSessionID req =
     (case req of
        None \<Rightarrow> ''unknown''
      | Some r \<Rightarrow> let v = header_Get (rq_Header r) ''X-Vtuber-Session-Id'' in
                  if v \<noteq> '''' then v else ''unknown'')"

definition extractWorkerSessionID :: "Request option \<Rightarrow> string \<Rightarrow> string" where
  "extractWorkerSessionID req fallback =
     (case req of
        None \<Rightarrow> fallback
      | Some r \<Rightarrow> let v = header_Get (rq_Header r) ''X-Vtuber-Worker-Session-Id'' in
                  if v \<noteq> '''' then v else fallback)"

definition extractWorkID :: "Request option \<Rightarrow> string" where
  "extractWorkID req =
     (case req of None \<Rightarrow> '''' | Some r \<Rightarrow> header_Get (rq_Header r) ''X-Vtuber-Work-Id'')"

definition backendURLForRequest :: "Request option \<Rightarrow> string \<Rightarrow> string" where
  "backendURLForRequest req fallback =
     (case req of
        None \<Rightarrow> fallback
      | Some r \<Rightarrow> let v = TrimSpace (header_Get (rq_Header r) ''X-Vtuber-Backend-Url'') in
                  if v \<noteq> '''' then v else fallback)"

definition cleanup :: "'w sessionEnv \<Rightarrow> goerr option \<Rightarrow> ('w session, serve_result) proc" where
  "cleanup env retErr =
     andThen (emitEndedBest env) (\<lambda>_.
     andThen (invoke (Bridge_Close (md_Bridge (se_cfg env))) Called_BridgeClose) (\<lambda>_.
     andThen (invoke (PS_Close (se_ps env)) Called_Close) (\<lambda>_.
       ret (Returned retErr))))"

definition serveDefer :: "'w sessionEnv \<Rightarrow> serve_result outcome \<Rightarrow> ('w session, serve_result) proc" where
  "serveDefer env r =
     (case r of
        Ret StillRunning \<Rightarrow> ret StillRunning
      | Ret (Returned retErr) \<Rightarrow> cleanup env retErr
      | Panic p \<Rightarrow>
          andThen (recordEnd EndReasonFatalError) (\<lambda>_.
          andThen (emitErrorBest env ErrCodeFatal (''panic: '' @ p) False) (\<lambda>_.
            cleanup env (Some (ErrorText (''vtuber_session: panic: '' @ p))))))"

definition serveBody ::
  "'w sessionEnv \<Rightarrow> Request option \<Rightarrow> string \<Rightarrow> input list \<Rightarrow> ('w session, serve_result) proc"
where
  "serveBody env req backendURL inputs =
     andThen (invoke (Backend_OpenSession (md_Backend (se_cfg env)) req backendURL)
                (Called_OpenSession backendURL)) (\<lambda>r.
       case r of
         Some err \<Rightarrow>
           andThen (recordEnd EndReasonFatalError) (\<lambda>_.
           andThen (emitErrorBest env ErrCodeBackendDown (error_text err) False) (\<lambda>_.
             ret (Returned (Some (Wrapped ''backend OpenSession'' err)))))
       | None \<Rightarrow>
           andThen (emit env EventSessionReady NoData) (\<lambda>_. runLoop env inputs))"

definition serve_env ::
  "'w Ctx \<Rightarrow> 'w Module \<Rightarrow> Request option \<Rightarrow> 'w PaymentSession \<Rightarrow> 'w sessionEnv"
where
  "serve_env ctx m req ps =
     \<lparr>se_cfg = m, se_ctx = ctx, se_sessionID = extractSessionID req,
      se_workerSessionID = extractWorkerSessionID req (extractSessionID req),
      se_workID = extractWorkID req, se_ps = ps\<rparr>"

definition Serve ::
  "'w Ctx \<Rightarrow> 'w Module \<Rightarrow> Request option \<Rightarrow> 'w PaymentSession option \<Rightarrow> input list \<Rightarrow> 'w \<Rightarrow>
   serve_result outcome \<times> 'w session"
where
  "Serve ctx m req psOpt inputs w =
     (case psOpt of
        None \<Rightarrow> (Ret (Returned (Some (ErrorText ''vtuber_session: nil PaymentSession''))), new_session w)
      | Some ps \<Rightarrow>
          if md_BackendURL m = ''''
          then (Ret (Returned (Some (ErrorText ''vtuber_session: empty BackendURL in config''))), new_session w)
          else
            let env = serve_env ctx m req ps
            in deferred (serveBody env req (backendURLForRequest req (md_BackendURL m)) inputs)
                 (serveDefer env) (new_session w))"

definition TerminateSession :: "'w Module \<Rightarrow> string \<Rightarrow> string \<Rightarrow> ('w, goerr option) proc" where
  "TerminateSession m gatewaySessionID backendURL0 =
     (if TrimSpace gatewaySessionID = ''''
      then ret (Some (ErrorText ''vtuber_session: empty gateway session id''))
      else
        let backendURL = backendURLForRequest None backendURL0 in
        if backendURL = ''''
        then ret (Some (ErrorText ''vtuber_session: empty BackendURL in config''))
        else Backend_Close (md_Backend m) gatewaySessionID backendURL)"

end
