(* ===== verification/Session_Protocol.thy ===== *)
theory Session_Protocol
  imports Session
begin

text \<open>
  The contract of a session as an automaton over the calls it makes on its collaborators, and the
  proof that \<open>Serve\<close> implements it for every configuration, every sequence of inputs and every
  behaviour of the collaborators, panics included. The automaton says in which order calls may come
  (open, ready, debits with usage reports, low-balance episodes, at most one way out: ended, bridge
  closed, payment session closed), which sequence number each debit carries, how many
  attempts a debit has, and what each usage report says.
\<close>

section \<open>The automaton\<close>

datatype phase = Opening | Opened | Live | Dying | Ended | BridgeShut | Closed

record proto =
  p_phase :: phase
  p_taken :: u64
  p_fails :: int
  p_cum :: u64
  p_due :: bool
  p_armed :: bool
  p_low :: bool

definition proto_init :: proto where
  "proto_init = \<lparr>p_phase = Opening, p_taken = 0, p_fails = 0, p_cum = 0, p_due = False,
                 p_armed = False, p_low = False\<rparr>"

fun panicked :: "'a outcome \<Rightarrow> bool" where
  "panicked (Ret x) = False"
| "panicked (Panic p) = True"

text \<open>A panic of a call that was made while the session was running leaves only the way out.\<close>

definition after :: "'a outcome \<Rightarrow> proto \<Rightarrow> proto" where
  "after r q = (if panicked r then q\<lparr>p_phase := Dying\<rparr> else q)"

fun type_of_data :: "EventData \<Rightarrow> EventType" where
  "type_of_data NoData = EventSessionReady"
| "type_of_data (UsageTick d) = EventSessionUsageTick"
| "type_of_data (BalanceLow b) = EventSessionBalanceLow"
| "type_of_data (BalanceRefilled a b c) = EventSessionBalanceRefilled"
| "type_of_data (ErrorData a b c) = EventSessionError"
| "type_of_data (EndedData a b) = EventSessionEnded"

fun send_step :: "'w sessionEnv \<Rightarrow> proto \<Rightarrow> EventData \<Rightarrow> proto option" where
  "send_step env q NoData = (if p_phase q = Opened then Some (q\<lparr>p_phase := Live\<rparr>) else None)"
| "send_step env q (UsageTick d) =
     (if p_phase q = Live \<and> p_due q \<and>
         d = \<lparr>ut_WorkerSessionID = se_workerSessionID env, ut_WorkID = se_workID env,
              ut_UsageSeq = p_taken q, ut_WorkUnits = tick_units (se_cfg env),
              ut_WorkUnitKind = ''second'',
              ut_CumulativeWorkUnits = p_cum q + tick_units (se_cfg env)\<rparr>
      then Some (q\<lparr>p_due := False, p_cum := p_cum q + tick_units (se_cfg env)\<rparr>) else None)"
| "send_step env q (BalanceLow b) =
     (if p_phase q = Live \<and> p_armed q \<and> \<not> p_low q then Some (q\<lparr>p_low := True\<rparr>) else None)"
| "send_step env q (BalanceRefilled a b c) =
     (if p_phase q = Live \<and> p_low q \<and> a = se_workerSessionID env \<and> b = se_workID env
      then Some (q\<lparr>p_low := False, p_armed := False\<rparr>) else None)"
| "send_step env q (ErrorData code msg recoverable) =
     (if recoverable
      then (if p_phase q = Live \<and> p_fails q = 1 \<and> code = ErrCodePaymentUnreachable then Some q else None)
      else (if p_phase q \<in> {Live, Dying} then Some (q\<lparr>p_phase := Dying\<rparr>) else None))"
| "send_step env q (EndedData reason units) =
     (if p_phase q \<in> {Live, Dying} \<and> units = p_cum q then Some (q\<lparr>p_phase := Ended\<rparr>) else None)"

definition debit_step :: "'w sessionEnv \<Rightarrow> proto \<Rightarrow> (goerr + int) outcome \<Rightarrow> proto" where
  "debit_step env q r =
     (case r of
        Ret (Inr b) \<Rightarrow> q\<lparr>p_taken := p_taken q + 1, p_fails := 0, p_due := True\<rparr>
      | Ret (Inl e) \<Rightarrow> q\<lparr>p_fails := p_fails q + 1\<rparr>
      | Panic p \<Rightarrow> q\<lparr>p_phase := Dying\<rparr>)"

definition proto_step :: "'w sessionEnv \<Rightarrow> proto \<Rightarrow> call \<Rightarrow> proto option" where
  "proto_step env q c =
     (case c of
        Called_OpenSession url r \<Rightarrow>
          if p_phase q = Opening
          then Some (q\<lparr>p_phase := (if r = Ret None then Opened else Dying)\<rparr>) else None
      | Called_Ticker d r \<Rightarrow>
          if p_phase q = Live \<and> d = md_DebitCadence (se_cfg env) then Some (after r q) else None
      | Called_TickerStop \<Rightarrow> if p_phase q \<in> {Live, Dying} then Some q else None
      | Called_Debit units seq r \<Rightarrow>
          if p_phase q = Live \<and> units = tick_units (se_cfg env) \<and> seq = p_taken q + 1 \<and>
             \<not> p_due q \<and> p_fails q < md_DebitRetryBudget (se_cfg env)
          then Some (debit_step env q r) else None
      | Called_Sufficient units r \<Rightarrow>
          if p_phase q = Live \<and> \<not> p_due q \<and> p_fails q = 0 \<and> units = md_RunwayMinUnits (se_cfg env)
          then Some (after r q) else None
      | Called_After d \<Rightarrow>
          if p_phase q = Live \<and> \<not> p_armed q \<and> d = md_GraceWindow (se_cfg env)
          then Some (q\<lparr>p_armed := True\<rparr>) else None
      | Called_Send ev r \<Rightarrow>
          if ev_SessionID ev = se_sessionID env \<and> ev_Type ev = type_of_data (ev_Data ev)
          then (case send_step env q (ev_Data ev) of
                  None \<Rightarrow> None
                | Some q' \<Rightarrow> Some (if p_phase q' = Ended then q' else after r q'))
          else None
      | Called_BridgeClose r \<Rightarrow>
          if p_phase q = Ended then Some (q\<lparr>p_phase := BridgeShut\<rparr>) else None
      | Called_Close r \<Rightarrow>
          if p_phase q = BridgeShut then Some (q\<lparr>p_phase := Closed\<rparr>) else None)"

definition proto_run :: "'w sessionEnv \<Rightarrow> call list \<Rightarrow> proto option" where
  "proto_run env cs = foldl (\<lambda>q c. Option.bind q (\<lambda>q. proto_step env q c)) (Some proto_init) cs"

lemma proto_run_Nil [simp]: "proto_run env [] = Some proto_init"
  by (simp add: proto_run_def)

lemma proto_run_snoc [simp]:
  "proto_run env (cs @ [c]) = Option.bind (proto_run env cs) (\<lambda>q. proto_step env q c)"
  by (simp add: proto_run_def)

lemma proto_run_append:
  "proto_run env (cs @ ds) = foldl (\<lambda>q c. Option.bind q (\<lambda>q. proto_step env q c)) (proto_run env cs) ds"
  by (simp add: proto_run_def)

section \<open>What the steps of a session do\<close>

lemma invoke_eq:
  "invoke op mk s = (r, s') \<longleftrightarrow>
     (\<exists>w. op (world s) = (r, w) \<and> s' = s\<lparr>world := w, calls := calls s @ [mk r]\<rparr>)"
  by (auto simp: invoke_def split: prod.splits)

lemma quiet_eq:
  "quiet f s = (r, s') \<longleftrightarrow> (\<exists>x w. f (world s) = (x, w) \<and> r = Ret x \<and> s' = s\<lparr>world := w\<rparr>)"
  by (auto simp: quiet_def split: prod.splits)

lemma nextID_D: "nextID env s = (r, s') \<Longrightarrow> \<exists>x w n. r = Ret x \<and> s' = s\<lparr>world := w, idCounter := n\<rparr>"
  by (auto simp: nextID_def quiet_eq split: option.splits prod.splits)
     (metis session.surjective session.update_convs(8,9) session.unfold_congs(1))+

definition frame :: "'w session \<Rightarrow> 'w session \<Rightarrow> bool" where
  "frame s s' \<longleftrightarrow> cumulativeUnits s' = cumulativeUnits s \<and> debitSeq s' = debitSeq s \<and>
     inLowBalance s' = inLowBalance s \<and> graceTimerCh s' = graceTimerCh s \<and> endReason s' = endReason s"

lemma emitD:
  assumes "emit env typ data s = (r, s')"
  shows "\<exists>ev r0. ev_Type ev = typ \<and> ev_Data ev = data \<and> ev_SessionID ev = se_sessionID env \<and>
     calls s' = calls s @ [Called_Send ev r0] \<and> frame s s' \<and> (panicked r0 \<longleftrightarrow> panicked r)"
  using assms
  by (auto simp: emit_def andThen_eq Let_def quiet_eq invoke_eq frame_def dest!: nextID_D)

text \<open>
  An event that the automaton allows: afterwards the automaton is where the event leads, or on the
  way out when sending panicked, and no field of the session changed.
\<close>

lemma emit_run:
  assumes "emit env typ data s = (r, s')" and "proto_run env (calls s) = Some q"
    and "send_step env q data = Some q'" and "typ = type_of_data data" and "p_phase q' \<noteq> Ended"
  shows "proto_run env (calls s') = Some (after r q') \<and> frame s s'"
  using emitD [OF assms(1)] assms(2-)
  by (auto simp: proto_step_def after_def)

definition debits_at :: "'w sessionEnv \<Rightarrow> proto \<Rightarrow> 'w session \<Rightarrow> bool" where
  "debits_at env q s \<longleftrightarrow> proto_run env (calls s) = Some q \<and> p_phase q = Live \<and>
     p_taken q = debitSeq s \<and> p_cum q = cumulativeUnits s \<and> \<not> p_due q"

definition debits_left :: "proto \<Rightarrow> (goerr + int) outcome \<Rightarrow> int \<Rightarrow> proto" where
  "debits_left q r k =
     (case r of
        Ret (Inr b) \<Rightarrow> q\<lparr>p_taken := p_taken q + 1, p_fails := 0, p_due := True\<rparr>
      | Ret (Inl e) \<Rightarrow> q\<lparr>p_fails := k\<rparr>
      | Panic p \<Rightarrow> q\<lparr>p_fails := k, p_phase := Dying\<rparr>)"

definition debit_done :: "'w session \<Rightarrow> (goerr + int) outcome \<Rightarrow> 'w session" where
  "debit_done s r = (case r of Ret (Inr b) \<Rightarrow> s\<lparr>debitSeq := debitSeq s + 1\<rparr> | _ \<Rightarrow> s)"

lemma debit_fail_emit:
  assumes "(if attempt = 1 then emit env EventSessionError (ErrorData ErrCodePaymentUnreachable msg True)
            else ret ()) s = (r, s')"
    and "proto_run env (calls s) = Some q" and "p_phase q = Live" and "p_fails q = attempt"
  shows "proto_run env (calls s') = Some (after r q) \<and> frame s s'"
  using assms emit_run [of env EventSessionError "ErrorData ErrCodePaymentUnreachable msg True" s r s' q q]
  by (auto simp: after_def frame_def split: if_splits)

lemma frame_refl [simp]: "frame s s"
  by (simp add: frame_def)

lemma frame_world [simp]:
  "frame s (s'\<lparr>world := w\<rparr>) = frame s s'" "frame (s\<lparr>world := w\<rparr>) s' = frame s s'"
  "frame s (s'\<lparr>calls := cs\<rparr>) = frame s s'" "frame (s\<lparr>calls := cs\<rparr>) s' = frame s s'"
  "frame s (s'\<lparr>consecutiveDebitFailures := n\<rparr>) = frame s s'"
  "frame (s\<lparr>consecutiveDebitFailures := n\<rparr>) s' = frame s s'"
  by (simp_all add: frame_def)

lemma frame_trans: "frame s t \<Longrightarrow> frame t u \<Longrightarrow> frame s u"
  by (simp add: frame_def)

lemma retry_wait_D:
  "\<exists>c w. (if attempt < md_DebitRetryBudget (se_cfg env)
          then quiet (RetryWait (se_ctx env) (md_DebitRetryInterval (se_cfg env))) else ret None) s
         = (Ret c, s\<lparr>world := w\<rparr>)"
  by (auto simp: quiet_def ret_def split: prod.splits) (metis session.surjective session.update_convs(9))

lemma debitAttempts_run:
  assumes "debitAttempts env units seq attempt s = (r, s')"
    and "debits_at env q s" and "units = tick_units (se_cfg env)" and "seq = debitSeq s + 1"
    and "p_fails q = attempt - 1" and "1 \<le> attempt"
  shows "\<exists>k. proto_run env (calls s') = Some (debits_left q r k) \<and> frame (debit_done s r) s'"
  using assms
proof (induction "nat (md_DebitRetryBudget (se_cfg env) + 1 - attempt)" arbitrary: attempt s q rule: less_induct)
  case less
  note defs = debits_at_def debits_left_def debit_done_def
  show ?case
  proof (cases "attempt \<le> md_DebitRetryBudget (se_cfg env)")
    case False
    with less.prems show ?thesis
      by (intro exI [of _ "p_fails q"]) (auto simp: debitAttempts.simps defs)
  next
    case True
    obtain d w where op: "Debit (se_ps env) units seq (world s) = (d, w)" by fastforce
    let ?s = "s\<lparr>world := w, calls := calls s @ [Called_Debit units seq d]\<rparr>"
    have run: "proto_run env (calls ?s) = Some (debit_step env q d)"
      using less.prems True by (simp add: debits_at_def proto_step_def)
    have eq: "debitAttempts env units seq attempt s = (r, s')" by (rule less.prems)
    consider (panic) p where "d = Panic p" | (ok) b where "d = Ret (Inr b)" | (fail) e where "d = Ret (Inl e)"
      by (metis outcome.exhaust sum.exhaust)
    then show ?thesis
    proof cases
      case panic
      with eq op True run show ?thesis
        by (intro exI [of _ "p_fails q"])
           (auto simp: debitAttempts.simps [of env units seq attempt] andThen_eq invoke_eq debit_step_def defs)
    next
      case ok
      with eq op True have "r = Ret (Inr b)" "s' = ?s\<lparr>debitSeq := seq, consecutiveDebitFailures := 0\<rparr>"
        by (auto simp: debitAttempts.simps [of env units seq attempt] andThen_eq invoke_eq)
      with ok run less.prems(4) show ?thesis by (auto simp: debit_step_def defs frame_def)
    next
      case (fail e)
      let ?s1 = "?s\<lparr>consecutiveDebitFailures := consecutiveDebitFailures s + 1\<rparr>"
      let ?q1 = "q\<lparr>p_fails := attempt\<rparr>"
      obtain r2 s2 where em: "(if attempt = 1 then emit env EventSessionError
            (ErrorData ErrCodePaymentUnreachable (error_text e) True) else ret ()) ?s1 = (r2, s2)"
        by (metis surj_pair)
      have q1: "debit_step env q d = ?q1" using fail less.prems(5) by (simp add: debit_step_def)
      have s2: "proto_run env (calls s2) = Some (after r2 ?q1)" "frame s s2"
        using debit_fail_emit [OF em, of ?q1] run q1 less.prems by (auto simp: debits_at_def)
      show ?thesis
      proof (cases r2)
        case (Panic p)
        with eq op True fail em s2 show ?thesis
          by (intro exI [of _ attempt])
             (auto simp: debitAttempts.simps [of env units seq attempt] andThen_eq invoke_eq defs after_def)
      next
        case (Ret u)
        obtain c w3 where wt: "(if attempt < md_DebitRetryBudget (se_cfg env)
            then quiet (RetryWait (se_ctx env) (md_DebitRetryInterval (se_cfg env))) else ret None) s2
            = (Ret c, s2\<lparr>world := w3\<rparr>)"
          using retry_wait_D [of attempt env s2] by blast
        have s3: "debits_at env ?q1 (s2\<lparr>world := w3\<rparr>)" "debitSeq s2 = debitSeq s"
          using s2 Ret less.prems(2) by (auto simp: debits_at_def after_def frame_def)
        have rest: "(case c of Some ce \<Rightarrow> ret (Inl ce) | None \<Rightarrow> debitAttempts env units seq (attempt + 1))
            (s2\<lparr>world := w3\<rparr>) = (r, s')"
          using eq op True fail em Ret wt
          by (auto simp: debitAttempts.simps [of env units seq attempt] andThen_def invoke_def modify_def)
        show ?thesis
        proof (cases c)
          case (Some ce)
          with rest s2 Ret show ?thesis
            by (intro exI [of _ attempt]) (auto simp: defs after_def)
        next
          case None
          have "\<exists>k. proto_run env (calls s') = Some (debits_left ?q1 r k) \<and>
              frame (debit_done (s2\<lparr>world := w3\<rparr>) r) s'"
            using rest None s3 less.prems True
            by (intro less.hyps [of "attempt + 1" "s2\<lparr>world := w3\<rparr>" ?q1]) auto
          with s2(2) show ?thesis
            by (auto simp: defs frame_def split: outcome.splits sum.splits)
        qed
      qed
    qed
  qed
qed

section \<open>Invariants of the main loop\<close>

text \<open>
  \<open>idle\<close> holds whenever the main loop waits: no debit is pending, the timer is armed
  exactly in a low-balance episode, and the bridge has been told of it. \<open>leaving\<close> holds once a
  session is on its way out, by an error, a panic or a regular end.
\<close>

definition idle :: "'w sessionEnv \<Rightarrow> 'w session \<Rightarrow> bool" where
  "idle env s \<longleftrightarrow>
     proto_run env (calls s) = Some \<lparr>p_phase = Live, p_taken = debitSeq s, p_fails = 0,
       p_cum = cumulativeUnits s, p_due = False, p_armed = inLowBalance s, p_low = inLowBalance s\<rparr> \<and>
     (graceTimerCh s \<noteq> None \<longleftrightarrow> inLowBalance s) \<and> endReason s = None"

definition leaving :: "'w sessionEnv \<Rightarrow> 'w session \<Rightarrow> bool" where
  "leaving env s \<longleftrightarrow>
     (\<exists>q. proto_run env (calls s) = Some q \<and> p_phase q \<in> {Live, Dying} \<and>
          p_taken q = debitSeq s \<and> p_cum q = cumulativeUnits s)"

definition crashing :: "'w sessionEnv \<Rightarrow> 'w session \<Rightarrow> bool" where
  "crashing env s \<longleftrightarrow> leaving env s \<and> endReason s \<noteq> Some EndReasonUserEnd"

lemma idle_leaving: "idle env s \<Longrightarrow> leaving env s"
  by (auto simp: idle_def crashing_def leaving_def)

lemma idle_world [simp]: "idle env (s\<lparr>world := w\<rparr>) = idle env s"
  by (simp add: idle_def)

lemma recordEnd_eq [simp]:
  "recordEnd reason s = (r, s') \<longleftrightarrow>
     r = Ret () \<and> s' = s\<lparr>endReason := Some (case endReason s of None \<Rightarrow> reason | Some e \<Rightarrow> e)\<rparr>"
  by (cases s; cases "endReason s") (auto simp: recordEnd_def)

lemma leaving_endReason [simp]: "leaving env (s\<lparr>endReason := x\<rparr>) = leaving env s"
  by (simp add: leaving_def)

text \<open>Recording a reason and sending the fatal error event.\<close>

lemma fatal_emit:
  assumes "emit env EventSessionError (ErrorData code msg False) s = (r, s')" and "leaving env s"
  shows "leaving env s' \<and> frame s s'"
proof -
  obtain q where q: "proto_run env (calls s) = Some q" "p_phase q \<in> {Live, Dying}"
      "p_taken q = debitSeq s" "p_cum q = cumulativeUnits s"
    using assms(2) by (auto simp: leaving_def)
  with emit_run [OF assms(1) q(1), of "q\<lparr>p_phase := Dying\<rparr>"] show ?thesis
    by (auto simp: leaving_def after_def frame_def)
qed

lemma fatal_out:
  assumes "andThen (recordEnd reason) (\<lambda>_. andThen (emit env EventSessionError (ErrorData code msg False))
             (\<lambda>_. ret x)) s = (r, s')"
    and "leaving env s"
  shows "leaving env s' \<and> endReason s' = Some (case endReason s of None \<Rightarrow> reason | Some e \<Rightarrow> e)
         \<and> (r = Ret x \<or> panicked r)"
proof -
  let ?s = "s\<lparr>endReason := Some (case endReason s of None \<Rightarrow> reason | Some e \<Rightarrow> e)\<rparr>"
  obtain r1 s1 where em: "emit env EventSessionError (ErrorData code msg False) ?s = (r1, s1)"
    by fastforce
  have "leaving env s1 \<and> frame ?s s1" using fatal_emit [OF em] assms(2) by simp
  moreover have "s' = s1 \<and> (r = Ret x \<or> panicked r)"
    using assms(1) em by (auto simp: andThen_eq)
  ultimately show ?thesis by (simp add: frame_def)
qed

lemma psSufficient_run:
  assumes "psSufficient env s = (r, s')" and "idle env s"
  shows "if panicked r then crashing env s' else idle env s'"
  using assms
  by (cases r) (auto simp: psSufficient_def invoke_eq idle_def crashing_def leaving_def proto_step_def after_def)

lemma enterLowBalance_run:
  assumes "enterLowBalance env b s = (r, s')" and "idle env s" and "\<not> inLowBalance s"
  shows "if panicked r then crashing env s' else idle env s'"
proof -
  let ?g = "md_GraceWindow (se_cfg env)"
  let ?s = "s\<lparr>inLowBalance := True, graceTimerCh := Some ?g, calls := calls s @ [Called_After ?g]\<rparr>"
  let ?q = "\<lparr>p_phase = Live, p_taken = debitSeq s, p_fails = 0, p_cum = cumulativeUnits s,
             p_due = False, p_armed = True, p_low = False\<rparr>"
  have run: "proto_run env (calls ?s) = Some ?q"
    using assms(2,3) by (simp add: idle_def proto_step_def)
  have em: "emit env EventSessionBalanceLow (BalanceLow b) ?s = (r, s')"
    using assms(1) by (auto simp: enterLowBalance_def andThen_def modify_def)
  from emit_run [OF em run] assms(2) show ?thesis
    by (auto simp: idle_def crashing_def leaving_def after_def frame_def)
qed

lemma exitLowBalance_run:
  assumes "exitLowBalance env s = (r, s')" and "idle env s" and "inLowBalance s"
  shows "if panicked r then crashing env s' else idle env s'"
proof -
  let ?s = "s\<lparr>inLowBalance := False, graceTimerCh := None\<rparr>"
  have em: "emit env EventSessionBalanceRefilled
      (BalanceRefilled (se_workerSessionID env) (se_workID env) (sint (md_RunwayMinUnits (se_cfg env)))) ?s = (r, s')"
    using assms(1) by (auto simp: exitLowBalance_def andThen_def modify_def)
  from assms(2,3) have "proto_run env (calls ?s) = Some \<lparr>p_phase = Live, p_taken = debitSeq s, p_fails = 0,
       p_cum = cumulativeUnits s, p_due = False, p_armed = True, p_low = True\<rparr>"
    by (simp add: idle_def)
  from emit_run [OF em this] assms(2) show ?thesis
    by (auto simp: idle_def crashing_def leaving_def after_def frame_def)
qed

lemma tickSufficient_run:
  assumes "tickSufficient env b s = (r, s')" and "idle env s"
  shows "(case r of Ret v \<Rightarrow> v = None \<and> idle env s' | Panic p \<Rightarrow> crashing env s')"
proof -
  obtain r1 s1 where su: "psSufficient env s = (r1, s1)" by fastforce
  note st = psSufficient_run [OF su assms(2)]
  show ?thesis
  proof (cases r1)
    case (Panic p)
    with su st assms(1) show ?thesis by (auto simp: tickSufficient_def andThen_def)
  next
    case (Ret v)
    show ?thesis
    proof (cases v)
      case (Inl e)
      with Ret su st assms(1) show ?thesis by (auto simp: tickSufficient_def andThen_def ret_def)
    next
      case (Inr ok)
      let ?m = "if \<not> ok \<and> \<not> inLowBalance s1 then enterLowBalance env b
                else if ok \<and> inLowBalance s1 then exitLowBalance env else ret ()"
      obtain r2 s2 where m: "?m s1 = (r2, s2)" by fastforce
      have "if panicked r2 then crashing env s2 else idle env s2"
        using m st Ret enterLowBalance_run [of env b s1 r2 s2] exitLowBalance_run [of env s1 r2 s2]
        by (auto split: if_splits)
      moreover have "s' = s2 \<and> (if panicked r2 then panicked r else r = Ret None)"
        using assms(1) su Ret Inr m
        by (cases r2) (auto simp: tickSufficient_def andThen_def gets_def ret_def)
      ultimately show ?thesis by (cases r) (auto split: if_splits)
    qed
  qed
qed

lemma idle_debits_at:
  assumes "idle env s"
  obtains q where "debits_at env q s" and "p_fails q = 0" and "p_armed q = inLowBalance s"
    and "p_low q = inLowBalance s" and "graceTimerCh s \<noteq> None \<longleftrightarrow> inLowBalance s" and "endReason s = None"
  using assms
  by (intro that [of "\<lparr>p_phase = Live, p_taken = debitSeq s, p_fails = 0, p_cum = cumulativeUnits s,
        p_due = False, p_armed = inLowBalance s, p_low = inLowBalance s\<rparr>"])
     (auto simp: idle_def debits_at_def)

definition tick_post :: "'w sessionEnv \<Rightarrow> goerr option outcome \<Rightarrow> 'w session \<Rightarrow> bool" where
  "tick_post env r s \<longleftrightarrow>
     (case r of
        Ret None \<Rightarrow> idle env s
      | Ret (Some e) \<Rightarrow> leaving env s \<and> endReason s = Some EndReasonFatalError
      | Panic p \<Rightarrow> crashing env s)"

lemma tick_post_fatal:
  "leaving env s \<Longrightarrow> endReason s = Some EndReasonFatalError \<Longrightarrow> r = Ret (Some e) \<or> panicked r \<Longrightarrow>
   tick_post env r s"
  by (cases r) (auto simp: tick_post_def crashing_def)

lemma tick_paid:
  assumes "andThen (modify (\<lambda>s. s\<lparr>cumulativeUnits := cumulativeUnits s + units\<rparr>)) (\<lambda>_.
      andThen (gets (\<lambda>s. \<lparr>ut_WorkerSessionID = se_workerSessionID env, ut_WorkID = se_workID env,
                 ut_UsageSeq = debitSeq s, ut_WorkUnits = units, ut_WorkUnitKind = ''second'',
                 ut_CumulativeWorkUnits = cumulativeUnits s\<rparr>)) (\<lambda>data.
      andThen (emit env EventSessionUsageTick (UsageTick data)) (\<lambda>_. tickSufficient env b))) s = (r, s')"
    and "proto_run env (calls s) = Some \<lparr>p_phase = Live, p_taken = debitSeq s, p_fails = 0,
       p_cum = cumulativeUnits s, p_due = True, p_armed = inLowBalance s, p_low = inLowBalance s\<rparr>"
    and "graceTimerCh s \<noteq> None \<longleftrightarrow> inLowBalance s" and "endReason s = None"
    and "units = tick_units (se_cfg env)"
  shows "tick_post env r s'"
proof -
  let ?s = "s\<lparr>cumulativeUnits := cumulativeUnits s + units\<rparr>"
  let ?d = "\<lparr>ut_WorkerSessionID = se_workerSessionID env, ut_WorkID = se_workID env,
       ut_UsageSeq = debitSeq s, ut_WorkUnits = units, ut_WorkUnitKind = ''second'',
       ut_CumulativeWorkUnits = cumulativeUnits s + units\<rparr>"
  obtain r1 s1 where em: "emit env EventSessionUsageTick (UsageTick ?d) ?s = (r1, s1)" by fastforce
  have run: "proto_run env (calls ?s) = Some \<lparr>p_phase = Live, p_taken = debitSeq s, p_fails = 0,
       p_cum = cumulativeUnits s, p_due = True, p_armed = inLowBalance s, p_low = inLowBalance s\<rparr>"
    using assms(2) by simp
  note st = emit_run [OF em run, unfolded assms(5), simplified]
  have rest: "case r1 of Ret u \<Rightarrow> tickSufficient env b s1 = (r, s') | Panic p \<Rightarrow> r = Panic p \<and> s' = s1"
    using assms(1) em by (auto simp: andThen_def gets_def modify_def split: outcome.splits)
  show ?thesis
  proof (cases r1)
    case (Panic p)
    with st rest assms(4,5) show ?thesis by (auto simp: tick_post_def crashing_def leaving_def after_def frame_def)
  next
    case (Ret u)
    with st assms(3-) have "idle env s1" by (auto simp: idle_def after_def frame_def)
    with Ret rest tickSufficient_run [of env b s1 r s'] show ?thesis
      by (cases r) (auto simp: tick_post_def)
  qed
qed

lemma tick_run:
  assumes "tick env s = (r, s')" and "idle env s"
  shows "tick_post env r s'"
  using assms(2)
proof (rule idle_debits_at)
  fix q
  assume q: "debits_at env q s" "p_fails q = 0" "p_armed q = inLowBalance s" "p_low q = inLowBalance s"
    and g: "graceTimerCh s \<noteq> None \<longleftrightarrow> inLowBalance s" and e: "endReason s = None"
  let ?u = "tick_units (se_cfg env)"
  obtain r1 s1 where da: "debitAttempts env ?u (debitSeq s + 1) 1 s = (r1, s1)" by fastforce
  from debitAttempts_run [OF da q(1)] q obtain k where
    run: "proto_run env (calls s1) = Some (debits_left q r1 k)" and fr: "frame (debit_done s r1) s1"
    by auto
  have dw: "debitWithRetry env ?u s = (r1, s1)"
    using da by (simp add: debitWithRetry_def andThen_def gets_def)
  note defs = debits_left_def debit_done_def debits_at_def frame_def
  consider (panic) p where "r1 = Panic p" | (fail) err where "r1 = Ret (Inl err)"
    | (over) b where "r1 = Ret (Inr b)" "b < 0" | (ok) b where "r1 = Ret (Inr b)" "0 \<le> b"
    by (metis outcome.exhaust sum.exhaust not_less)
  then show ?thesis
  proof cases
    case panic
    with run fr q(1) e have "crashing env s1" by (auto simp: crashing_def leaving_def defs)
    with panic dw assms(1) show ?thesis by (auto simp: tick_def andThen_def Let_def tick_post_def)
  next
    case (fail err)
    with run fr q(1) e have lv: "leaving env s1" "endReason s1 = None" by (auto simp: leaving_def defs)
    from fail dw assms(1) have "andThen (recordEnd EndReasonFatalError) (\<lambda>_. andThen (emit env EventSessionError
        (ErrorData ErrCodePaymentUnreachable (error_text err) False)) (\<lambda>_. ret (Some (Wrapped ''debit'' err)))) s1 = (r, s')"
      by (auto simp: tick_def andThen_def Let_def)
    from fatal_out [OF this lv(1)] lv(2) show ?thesis by (auto intro: tick_post_fatal)
  next
    case (over b)
    with run fr q(1) e have lv: "leaving env s1" "endReason s1 = None" by (auto simp: leaving_def defs)
    from over dw assms(1) have "andThen (recordEnd EndReasonFatalError) (\<lambda>_. andThen (emit env EventSessionError
        (ErrorData ErrCodeBalanceExhausted (''over-debit: balance '' @ big_String b) False))
        (\<lambda>_. ret (Some (ErrorText ''vtuber_session: over-debit'')))) s1 = (r, s')"
      by (auto simp: tick_def andThen_def Let_def)
    from fatal_out [OF this lv(1)] lv(2) show ?thesis by (auto intro: tick_post_fatal)
  next
    case (ok b)
    have run1: "proto_run env (calls s1) = Some \<lparr>p_phase = Live, p_taken = debitSeq s1, p_fails = 0,
       p_cum = cumulativeUnits s1, p_due = True, p_armed = inLowBalance s1, p_low = inLowBalance s1\<rparr>"
      using run fr q ok by (cases q) (auto simp: defs)
    have "graceTimerCh s1 \<noteq> None \<longleftrightarrow> inLowBalance s1" and "endReason s1 = None"
      using fr ok g e by (auto simp: defs)
    with run1 dw assms(1) ok show ?thesis
      by (intro tick_paid [of ?u env b s1]) (auto simp: tick_def andThen_def Let_def)
  qed
qed

section \<open>The loop and the way out\<close>

text \<open>Which reason a session records for the error it returns.\<close>

definition reason_matches :: "goerr option \<Rightarrow> EndReason \<Rightarrow> bool" where
  "reason_matches err reason \<longleftrightarrow> (err = None \<longleftrightarrow> reason = EndReasonUserEnd)"

definition step_post :: "'w sessionEnv \<Rightarrow> goerr option option outcome \<Rightarrow> 'w session \<Rightarrow> bool" where
  "step_post env r s \<longleftrightarrow>
     (case r of
        Ret None \<Rightarrow> idle env s
      | Ret (Some err) \<Rightarrow> leaving env s \<and> (\<exists>reason. endReason s = Some reason \<and> reason_matches err reason)
      | Panic p \<Rightarrow> crashing env s)"

lemma checkSufficient_run:
  assumes "checkSufficientNoEmit env s = (r, s')" and "idle env s"
  shows "if panicked r then crashing env s' else idle env s'"
proof -
  obtain r1 s1 where su: "psSufficient env s = (r1, s1)" by fastforce
  have "s' = s1 \<and> (panicked r \<longleftrightarrow> panicked r1)"
    using assms(1) su
    by (cases r1) (auto simp: checkSufficientNoEmit_def andThen_def ret_def split: sum.splits)
  with psSufficient_run [OF su assms(2)] show ?thesis by simp
qed

lemma grace_run:
  assumes "loopStep env GraceFired s = (r, s')" and "idle env s"
  shows "step_post env r s'"
proof (cases "graceTimerCh s")
  case None
  with assms show ?thesis by (auto simp: loopStep_def andThen_def gets_def ret_def step_post_def)
next
  case (Some g)
  with assms(2) have low: "inLowBalance s" by (auto simp: idle_def)
  obtain r1 s1 where ck: "checkSufficientNoEmit env s = (r1, s1)" by fastforce
  note st = checkSufficient_run [OF ck assms(2)]
  have low1: "inLowBalance s1"
    using ck low by (auto simp: checkSufficientNoEmit_def psSufficient_def andThen_eq invoke_eq split_sum_ex)
  have eq: "(case r1 of
        Panic p \<Rightarrow> r = Panic p \<and> s' = s1
      | Ret ok \<Rightarrow> (if \<not> ok then andThen (recordEnd EndReasonBalanceExhausted) (\<lambda>_.
          andThen (emit env EventSessionError (ErrorData ErrCodeBalanceExhausted
             ''grace window expired with insufficient balance'' False)) (\<lambda>_.
             ret (Some (Some (ErrorText ''vtuber_session: balance exhausted past grace''))))) s1 = (r, s')
        else andThen (exitLowBalance env) (\<lambda>_. ret None) s1 = (r, s')))"
    using assms(1) Some ck
    by (cases r1) (auto simp: loopStep_def andThen_def gets_def split: if_splits)
  show ?thesis
  proof (cases r1)
    case (Panic p)
    with eq st show ?thesis by (simp add: step_post_def)
  next
    case (Ret ok)
    show ?thesis
    proof (cases ok)
      case True
      obtain r2 s2 where ex: "exitLowBalance env s1 = (r2, s2)" by fastforce
      with exitLowBalance_run [OF ex] st Ret low1 True eq show ?thesis
        by (cases r2) (auto simp: andThen_def ret_def step_post_def)
    next
      case False
      with Ret eq st idle_leaving [of env s1] have "leaving env s'" and
        "endReason s' = Some (case endReason s1 of None \<Rightarrow> EndReasonBalanceExhausted | Some e \<Rightarrow> e)"
        and "r = Ret (Some (Some (ErrorText ''vtuber_session: balance exhausted past grace''))) \<or> panicked r"
        using fatal_out [of EndReasonBalanceExhausted env ErrCodeBalanceExhausted
            "''grace window expired with insufficient balance''"
            "Some (Some (ErrorText ''vtuber_session: balance exhausted past grace''))" s1 r s'] by auto
      moreover have "endReason s1 = None" using st Ret by (simp add: idle_def)
      ultimately show ?thesis
        by (cases r) (auto simp: step_post_def reason_matches_def crashing_def)
    qed
  qed
qed

lemma tick_step_run:
  assumes "loopStep env TickFired s = (r, s')" and "idle env s"
  shows "step_post env r s'"
proof -
  obtain r1 s1 where t: "tick env s = (r1, s1)" by fastforce
  from tick_run [OF t assms(2)] assms(1) t show ?thesis
    by (auto simp: loopStep_def andThen_def ret_def step_post_def tick_post_def reason_matches_def
        split: outcome.splits option.splits)
qed

lemma loopStep_run:
  assumes "loopStep env i s = (r, s')" and "idle env s"
  shows "step_post env r s'"
proof (cases i)
  case TickFired
  with assms tick_step_run show ?thesis by blast
next
  case GraceFired
  with assms grace_run show ?thesis by blast
qed (use assms idle_leaving [OF assms(2)] in
      \<open>auto simp: loopStep_def andThen_def ret_def modify_def step_post_def recordEnd_def reason_matches_def
        idle_def split: if_splits\<close>)

definition loop_post :: "'w sessionEnv \<Rightarrow> serve_result outcome \<Rightarrow> 'w session \<Rightarrow> bool" where
  "loop_post env r s \<longleftrightarrow>
     (case r of
        Ret StillRunning \<Rightarrow> idle env s
      | Ret (Returned err) \<Rightarrow> leaving env s \<and> (\<exists>reason. endReason s = Some reason \<and> reason_matches err reason)
      | Panic p \<Rightarrow> crashing env s)"

lemma selectWait_eq: "selectWait env i s = (Ret (), s\<lparr>world := SelectWait (se_ctx env) i (world s)\<rparr>)"
  by (simp add: selectWait_def quiet_def)

lemma loop_Cons:
  "loop env (i # is) s =
     andThen (loopStep env i) (\<lambda>r. case r of Some err \<Rightarrow> ret (Returned err) | None \<Rightarrow> loop env is)
       (s\<lparr>world := SelectWait (se_ctx env) i (world s)\<rparr>)"
  by (simp add: andThen_def selectWait_eq)

declare loop.simps(2) [simp del]

lemma loop_run:
  assumes "loop env is s = (r, s')" and "idle env s"
  shows "loop_post env r s'"
  using assms
proof (induction "is" arbitrary: s)
  case Nil
  then show ?case by (simp add: loop_post_def)
next
  case (Cons i "is")
  obtain r1 s1 where st: "loopStep env i (s\<lparr>world := SelectWait (se_ctx env) i (world s)\<rparr>) = (r1, s1)" by fastforce
  have post: "step_post env r1 s1" using loopStep_run [OF st] Cons.prems(2) by simp
  show ?case
  proof (cases "r1 = Ret None")
    case True
    with Cons st post show ?thesis by (auto simp: loop_Cons andThen_def step_post_def)
  next
    case False
    with Cons.prems st post show ?thesis
      by (cases r1) (auto simp: loop_Cons andThen_def ret_def step_post_def loop_post_def split: option.splits)
  qed
qed

lemma leaving_TickerStop: "leaving env s \<Longrightarrow> leaving env (s\<lparr>calls := calls s @ [Called_TickerStop]\<rparr>)"
  by (auto simp: leaving_def proto_step_def)

lemma runLoop_run:
  assumes "runLoop env is s = (r, s')" and "idle env s"
  shows "loop_post env r s'"
proof -
  let ?d = "md_DebitCadence (se_cfg env)"
  obtain r1 w where op: "Ticker (md_Clock (se_cfg env)) ?d (world s) = (r1, w)" by fastforce
  let ?s = "s\<lparr>world := w, calls := calls s @ [Called_Ticker ?d r1]\<rparr>"
  show ?thesis
  proof (cases r1)
    case (Panic p)
    with assms op show ?thesis
      by (auto simp: runLoop_def andThen_def invoke_def loop_post_def crashing_def leaving_def idle_def proto_step_def
          after_def)
  next
    case (Ret u)
    with assms(2) have id: "idle env ?s" by (simp add: idle_def proto_step_def after_def)
    obtain r2 s2 where lo: "loop env is ?s = (r2, s2)" by fastforce
    have "r = r2 \<and> s' = (if r2 = Ret StillRunning then s2 else s2\<lparr>calls := calls s2 @ [Called_TickerStop]\<rparr>)"
      using assms(1) op Ret lo
      by (auto simp: runLoop_def andThen_def invoke_def deferred_def stopTicker_def)
    with loop_run [OF lo id] show ?thesis
      by (cases r2; cases "r2 = Ret StillRunning")
         (auto simp: loop_post_def crashing_def leaving_TickerStop split: serve_result.splits)
  qed
qed

lemma serveBody_run:
  assumes "serveBody env req url is s = (r, s')" and "proto_run env (calls s) = Some proto_init"
    and "debitSeq s = 0" and "cumulativeUnits s = 0" and "\<not> inLowBalance s" and "graceTimerCh s = None"
    and "endReason s = None"
  shows "loop_post env r s'"
proof -
  obtain ro w where op: "Backend_OpenSession (md_Backend (se_cfg env)) req url (world s) = (ro, w)" by fastforce
  let ?s = "s\<lparr>world := w, calls := calls s @ [Called_OpenSession url ro]\<rparr>"
  have run: "proto_run env (calls ?s) = Some (proto_init\<lparr>p_phase := (if ro = Ret None then Opened else Dying)\<rparr>)"
    using assms(2) by (simp add: proto_step_def proto_init_def)
  consider (panic) p where "ro = Panic p" | (err) e where "ro = Ret (Some e)" | (ok) "ro = Ret None"
    by (metis option.exhaust outcome.exhaust)
  then show ?thesis
  proof cases
    case panic
    with run op assms show ?thesis
      by (auto simp: serveBody_def andThen_def invoke_def loop_post_def crashing_def leaving_def proto_init_def)
  next
    case (err e)
    with run assms have "leaving env ?s" by (simp add: leaving_def proto_init_def)
    moreover have "andThen (recordEnd EndReasonFatalError) (\<lambda>_. andThen (emit env EventSessionError
        (ErrorData ErrCodeBackendDown (error_text e) False)) (\<lambda>_.
        ret (Returned (Some (Wrapped ''backend OpenSession'' e))))) ?s = (r, s')"
      using assms(1) op err by (auto simp: serveBody_def andThen_def invoke_def emitErrorBest_def)
    ultimately show ?thesis
      using fatal_out [of EndReasonFatalError env ErrCodeBackendDown "error_text e"
          "Returned (Some (Wrapped ''backend OpenSession'' e))" ?s r s'] assms(7)
      by (cases r) (auto simp: loop_post_def reason_matches_def crashing_def)
  next
    case ok
    obtain r1 s1 where em: "emit env EventSessionReady NoData ?s = (r1, s1)" by fastforce
    have st: "proto_run env (calls s1) = Some (after r1 (proto_init\<lparr>p_phase := Live\<rparr>)) \<and> frame ?s s1"
      using emit_run [OF em run] ok by (simp add: proto_init_def)
    have rest: "case r1 of Ret u \<Rightarrow> runLoop env is s1 = (r, s') | Panic p \<Rightarrow> r = Panic p \<and> s' = s1"
      using assms(1) op ok em by (auto simp: serveBody_def andThen_def invoke_def split: outcome.splits)
    show ?thesis
    proof (cases r1)
      case (Panic p)
      with st rest assms show ?thesis
        by (auto simp: loop_post_def crashing_def leaving_def after_def frame_def proto_init_def)
    next
      case (Ret u)
      with st assms have "idle env s1" by (auto simp: idle_def after_def frame_def proto_init_def)
      with Ret rest runLoop_run show ?thesis by auto
    qed
  qed
qed

text \<open>The deferred function: what it leaves when it completes.\<close>

definition way_out :: "'w sessionEnv \<Rightarrow> call list \<Rightarrow> 'w session \<Rightarrow> bool" where
  "way_out env cs s \<longleftrightarrow>
     (\<exists>ev r1 r2 r3. calls s = cs @ [Called_Send ev r1, Called_BridgeClose r2, Called_Close r3] \<and>
        ev_Data ev = EndedData (case endReason s of None \<Rightarrow> EndReasonUserEnd | Some r \<Rightarrow> r) (cumulativeUnits s) \<and>
        ev_Type ev = EventSessionEnded \<and> ev_SessionID ev = se_sessionID env)"

definition proto_ends :: "'w sessionEnv \<Rightarrow> phase set \<Rightarrow> 'w session \<Rightarrow> bool" where
  "proto_ends env phs s \<longleftrightarrow>
     (\<exists>q. proto_run env (calls s) = Some q \<and> p_phase q \<in> phs \<and> p_taken q = debitSeq s \<and>
          p_cum q = cumulativeUnits s)"

lemma cleanup_run:
  assumes "cleanup env err s = (r, s')" and "leaving env s"
  shows "endReason s' = endReason s \<and> cumulativeUnits s' = cumulativeUnits s \<and>
    (case r of
       Ret v \<Rightarrow> v = Returned err \<and> way_out env (calls s) s' \<and> proto_ends env {Closed} s'
     | Panic p \<Rightarrow> proto_ends env {Ended, BridgeShut, Closed} s')"
proof -
  let ?d = "EndedData (case endReason s of None \<Rightarrow> EndReasonUserEnd | Some r \<Rightarrow> r) (cumulativeUnits s)"
  obtain q where q: "proto_run env (calls s) = Some q" "p_phase q \<in> {Live, Dying}"
      "p_taken q = debitSeq s" "p_cum q = cumulativeUnits s"
    using assms(2) by (auto simp: leaving_def)
  obtain r1 s1 where em: "emit env EventSessionEnded ?d s = (r1, s1)" by fastforce
  from emitD [OF em] obtain ev r0 where ev: "ev_Type ev = EventSessionEnded" "ev_Data ev = ?d"
      "ev_SessionID ev = se_sessionID env" "calls s1 = calls s @ [Called_Send ev r0]"
    and fr: "frame s s1" and pan: "panicked r0 \<longleftrightarrow> panicked r1" by blast
  have run: "proto_run env (calls s1) = Some (q\<lparr>p_phase := Ended\<rparr>)"
    using q ev by (auto simp: proto_step_def)
  have em2: "emitEndedBest env s = (r1, s1)"
    using em by (simp add: emitEndedBest_def andThen_def gets_def)
  obtain b w1 where bc: "Bridge_Close (md_Bridge (se_cfg env)) (world s1) = (b, w1)" by fastforce
  obtain c w2 where cl: "PS_Close (se_ps env) w1 = (c, w2)" by fastforce
  note defs = cleanup_def andThen_def invoke_def ret_def proto_ends_def way_out_def frame_def proto_step_def proto_run_append
  show ?thesis
  proof (cases r1)
    case (Panic p)
    with assms(1) em2 run fr q show ?thesis by (auto simp: defs)
  next
    case Ret1: (Ret u)
    show ?thesis
    proof (cases b)
      case (Panic p)
      with assms(1) em2 run fr q Ret1 bc show ?thesis by (auto simp: defs)
    next
      case Ret2: (Ret x)
      with assms(1) em2 run fr q Ret1 bc cl ev show ?thesis
        by (cases c) (auto simp: defs)
    qed
  qed
qed

lemma fatal_emit_Dying:
  assumes "emit env EventSessionError (ErrorData code msg False) s = (r, s')" and "leaving env s"
  shows "proto_ends env {Dying} s' \<and> frame s s'"
proof -
  obtain q where q: "proto_run env (calls s) = Some q" "p_phase q \<in> {Live, Dying}"
      "p_taken q = debitSeq s" "p_cum q = cumulativeUnits s"
    using assms(2) by (auto simp: leaving_def)
  with emit_run [OF assms(1) q(1), of "q\<lparr>p_phase := Dying\<rparr>"] show ?thesis
    by (auto simp: proto_ends_def after_def frame_def)
qed

definition serve_post :: "'w sessionEnv \<Rightarrow> serve_result outcome \<Rightarrow> 'w session \<Rightarrow> bool" where
  "serve_post env r s \<longleftrightarrow>
     (case r of
        Ret StillRunning \<Rightarrow> idle env s
      | Ret (Returned err) \<Rightarrow>
          proto_ends env {Closed} s \<and> (\<exists>cs. way_out env cs s) \<and>
          (\<exists>reason. endReason s = Some reason \<and> reason_matches err reason)
      | Panic p \<Rightarrow> proto_ends env {Dying, Ended, BridgeShut, Closed} s)"

lemma serveDefer_run:
  assumes "serveDefer env r0 s = (r, s')" and "loop_post env r0 s"
  shows "serve_post env r s'"
proof -
  consider (still) "r0 = Ret StillRunning" | (finish) err where "r0 = Ret (Returned err)" | (panic) p where "r0 = Panic p"
    by (metis outcome.exhaust serve_result.exhaust)
  then show ?thesis
  proof cases
    case still
    with assms show ?thesis by (simp add: serveDefer_def loop_post_def serve_post_def)
  next
    case (finish err)
    with assms cleanup_run [of env err s r s'] show ?thesis
      by (cases r) (auto simp: serveDefer_def loop_post_def serve_post_def proto_ends_def)
  next
    case (panic p)
    let ?s = "s\<lparr>endReason := Some (case endReason s of None \<Rightarrow> EndReasonFatalError | Some e \<Rightarrow> e)\<rparr>"
    let ?err = "Some (ErrorText (''vtuber_session: panic: '' @ p))"
    obtain r1 s1 where em: "emit env EventSessionError (ErrorData ErrCodeFatal (''panic: '' @ p) False) ?s = (r1, s1)"
      by fastforce
    from assms(2) panic have "leaving env ?s" and nu: "endReason s \<noteq> Some EndReasonUserEnd"
      by (simp_all add: loop_post_def crashing_def)
    with fatal_emit_Dying [OF em] have st: "proto_ends env {Dying} s1" "frame ?s s1" by simp_all
    have rest: "case r1 of Ret u \<Rightarrow> cleanup env ?err s1 = (r, s') | Panic p' \<Rightarrow> r = Panic p' \<and> s' = s1"
      using assms(1) panic em
      by (cases r1) (auto simp: serveDefer_def andThen_eq emitErrorBest_def)
    show ?thesis
    proof (cases r1)
      case (Panic p')
      with st rest show ?thesis by (auto simp: serve_post_def proto_ends_def)
    next
      case (Ret u)
      with rest have cl: "cleanup env ?err s1 = (r, s')" by simp
      have "leaving env s1" using st(1) by (auto simp: proto_ends_def leaving_def)
      from cleanup_run [OF cl this] st(2) nu show ?thesis
        by (cases r) (auto simp: serve_post_def proto_ends_def frame_def reason_matches_def split: option.splits)
    qed
  qed
qed

lemma Serve_run:
  assumes "Serve ctx m req (Some ps) inputs w = (r, s)" and "md_BackendURL m \<noteq> ''''"
  shows "serve_post (serve_env ctx m req ps) r s"
proof -
  let ?env = "serve_env ctx m req ps" and ?url = "backendURLForRequest req (md_BackendURL m)"
  obtain r1 s1 where body: "serveBody ?env req ?url inputs (new_session w) = (r1, s1)" by fastforce
  have "serveDefer ?env r1 s1 = (r, s)"
    using assms body by (auto simp: Serve_def deferred_def Let_def)
  moreover have "loop_post ?env r1 s1"
    by (rule serveBody_run [OF body]) (simp_all add: new_session_def)
  ultimately show ?thesis by (rule serveDefer_run)
qed

end
