(* ===== verification/Session_Theorems.thy ===== *)
theory Session_Theorems
  imports Session_Protocol
begin

text \<open>
  What the session protocol means for its parties, as properties of \<open>Serve\<close>: the payment
  session is released exactly once and last, every debit carries the next sequence number and is
  attempted at most as often as the retry budget says, usage reports add up, low-balance episodes
  are bracketed, and a session that is told to end does end.
\<close>

section \<open>Reading a trace\<close>

fun is_end_call :: "call \<Rightarrow> bool" where
  "is_end_call (Called_Send ev r) = (ev_Type ev = EventSessionEnded)"
| "is_end_call (Called_BridgeClose r) = True"
| "is_end_call (Called_Close r) = True"
| "is_end_call _ = False"

fun is_taken :: "call \<Rightarrow> bool" where
  "is_taken (Called_Debit u q (Ret (Inr b))) = True"
| "is_taken _ = False"

fun is_failed :: "call \<Rightarrow> bool" where
  "is_failed (Called_Debit u q (Ret (Inl e))) = True"
| "is_failed _ = False"

fun is_usage :: "call \<Rightarrow> bool" where
  "is_usage (Called_Send ev r) = (case ev_Data ev of UsageTick d \<Rightarrow> True | _ \<Rightarrow> False)"
| "is_usage _ = False"

fun is_low :: "call \<Rightarrow> bool" where
  "is_low (Called_Send ev r) = (case ev_Data ev of BalanceLow b \<Rightarrow> True | _ \<Rightarrow> False)"
| "is_low _ = False"

fun is_refilled :: "call \<Rightarrow> bool" where
  "is_refilled (Called_Send ev r) = (case ev_Data ev of BalanceRefilled a b c \<Rightarrow> True | _ \<Rightarrow> False)"
| "is_refilled _ = False"

definition count :: "(call \<Rightarrow> bool) \<Rightarrow> call list \<Rightarrow> nat" where
  "count P cs = length (filter P cs)"

text \<open>The failed debits since the last successful one.\<close>

definition failed_since :: "call list \<Rightarrow> nat" where
  "failed_since cs = count is_failed (takeWhile (\<lambda>c. \<not> is_taken c) (rev cs))"

lemma count_Nil [simp]: "count P [] = 0"
  by (simp add: count_def)

lemma count_snoc [simp]: "count P (cs @ [c]) = count P cs + of_bool (P c)"
  by (simp add: count_def)

lemma failed_since_Nil [simp]: "failed_since [] = 0"
  by (simp add: failed_since_def)

lemma failed_since_snoc [simp]:
  "failed_since (cs @ [c]) = (if is_taken c then 0 else failed_since cs + of_bool (is_failed c))"
  by (simp add: failed_since_def count_def)

section \<open>What the automaton counts\<close>

definition counted :: "'w sessionEnv \<Rightarrow> call list \<Rightarrow> proto \<Rightarrow> bool" where
  "counted env cs q \<longleftrightarrow>
     p_taken q = of_nat (count is_taken cs) \<and>
     p_fails q = int (failed_since cs) \<and>
     p_cum q = tick_units (se_cfg env) * of_nat (count is_usage cs) \<and>
     count is_taken cs = count is_usage cs + of_bool (p_due q) \<and>
     count is_low cs = count is_refilled cs + of_bool (p_low q) \<and>
     (p_phase q \<in> {Opening, Opened, Live, Dying} \<longrightarrow> count is_end_call cs = 0)"

lemma not_EventSessionEnded [simp]:
  "EventSessionReady \<noteq> EventSessionEnded" "EventSessionUsageTick \<noteq> EventSessionEnded"
  "EventSessionBalanceLow \<noteq> EventSessionEnded" "EventSessionBalanceRefilled \<noteq> EventSessionEnded"
  "EventSessionError \<noteq> EventSessionEnded"
  by (simp_all add: event_type_defs)

lemma counted_send:
  assumes "counted env cs q" and "send_step env q (ev_Data ev) = Some q'"
    and "ev_Type ev = type_of_data (ev_Data ev)"
  shows "counted env (cs @ [Called_Send ev r]) q' \<and>
         counted env (cs @ [Called_Send ev r]) (q'\<lparr>p_phase := (if p_phase q' = Ended then Ended else Dying)\<rparr>)"
proof (cases "ev_Data ev")
  case (UsageTick d)
  with assms show ?thesis by (auto simp: counted_def distrib_left split: if_split_asm)
qed (use assms in \<open>clarsimp simp: counted_def split: if_split_asm\<close>)+

lemma counted_step:
  assumes "counted env cs q" and "proto_step env q c = Some q'"
  shows "counted env (cs @ [c]) q'"
proof (cases c)
  case (Called_Send ev r)
  with assms(2) obtain q1 where q1: "send_step env q (ev_Data ev) = Some q1"
      "ev_Type ev = type_of_data (ev_Data ev)" and q': "q' = (if p_phase q1 = Ended then q1 else after r q1)"
    by (auto simp: proto_step_def split: if_split_asm option.split_asm)
  from counted_send [OF assms(1) q1, of r] Called_Send q' show ?thesis
    by (auto simp: after_def split: if_split_asm)
next
  case (Called_Debit u n r)
  with assms show ?thesis
    by (auto simp: counted_def proto_step_def debit_step_def split: if_splits outcome.splits sum.splits)
qed (use assms in \<open>auto simp: counted_def proto_step_def after_def split: if_splits\<close>)

lemma proto_run_snoc_Some:
  "proto_run env (cs @ [c]) = Some q \<longleftrightarrow> (\<exists>q0. proto_run env cs = Some q0 \<and> proto_step env q0 c = Some q)"
  by (auto simp: bind_eq_Some_conv)

lemma proto_run_counted: "proto_run env cs = Some q \<Longrightarrow> counted env cs q"
proof (induction cs arbitrary: q rule: rev_induct)
  case Nil
  then have "q = proto_init" by simp
  then show ?case by (simp add: counted_def proto_init_def)
next
  case (snoc c cs)
  then show ?case by (auto simp: proto_run_snoc_Some intro: counted_step simp del: proto_run_snoc)
qed

lemma foldl_bind_None: "foldl (\<lambda>q c. Option.bind q (f c)) None cs = None"
  by (induction cs) auto

lemma proto_run_prefix: "proto_run env (cs @ ds) \<noteq> None \<Longrightarrow> proto_run env cs \<noteq> None"
  by (cases "proto_run env cs") (simp_all add: proto_run_append foldl_bind_None)

text \<open>At every call of an accepted trace, the automaton had counted the calls before it.\<close>

lemma proto_run_at:
  assumes "proto_run env (pre @ c # post) \<noteq> None"
  obtains q q' where "proto_run env pre = Some q" and "counted env pre q" and "proto_step env q c = Some q'"
proof -
  have "proto_run env ((pre @ [c]) @ post) \<noteq> None" using assms by simp
  then have "proto_run env (pre @ [c]) \<noteq> None" by (rule proto_run_prefix)
  then obtain q' where "proto_run env (pre @ [c]) = Some q'" by blast
  with that show ?thesis by (auto simp: proto_run_snoc_Some proto_run_counted simp del: proto_run_snoc)
qed

section \<open>Serve keeps to the protocol\<close>

lemma Serve_accepted:
  assumes "Serve ctx m req (Some ps) inputs w = (r, s)"
  shows "proto_run (serve_env ctx m req ps) (calls s) \<noteq> None"
proof (cases "md_BackendURL m = ''''")
  case True
  with assms show ?thesis by (auto simp: Serve_def new_session_def)
next
  case False
  from Serve_run [OF assms False] show ?thesis
    by (auto simp: serve_post_def proto_ends_def idle_def split: outcome.splits serve_result.splits)
qed

lemma serve_debit_at:
  assumes "Serve ctx m req (Some ps) inputs w = (r, s)"
    and "calls s = pre @ Called_Debit units seq res # post"
  shows "units = tick_units m \<and> seq = of_nat (count is_taken pre) + 1 \<and>
     count is_usage pre = count is_taken pre \<and> int (failed_since pre) < md_DebitRetryBudget m"
proof -
  from Serve_accepted [OF assms(1)] obtain q q' where
      "counted (serve_env ctx m req ps) pre q"
      "proto_step (serve_env ctx m req ps) q (Called_Debit units seq res) = Some q'"
    unfolding assms(2) by (rule proto_run_at)
  then show ?thesis by (auto simp: counted_def proto_step_def serve_env_def split: if_split_asm)
qed

section \<open>Ending\<close>

text \<open>The inputs on which the main loop returns at once.\<close>

definition ends_session :: "input \<Rightarrow> bool" where
  "ends_session i =
     (case i of CtxDone e \<Rightarrow> True | Inbound ev \<Rightarrow> ev_Type ev = ''session.end'' | _ \<Rightarrow> False)"

lemma loop_ends:
  assumes "\<exists>i \<in> set is. ends_session i"
  shows "fst (loop env is s) \<noteq> Ret StillRunning"
  using assms
proof (induction "is" arbitrary: s)
  case (Cons i "is")
  obtain r1 s1 where st: "loopStep env i (s\<lparr>world := SelectWait (se_ctx env) i (world s)\<rparr>) = (r1, s1)" by fastforce
  show ?case
  proof (cases "r1 = Ret None")
    case True
    then have "\<not> ends_session i"
      using st by (auto simp: ends_session_def loopStep_def andThen_def ret_def recordEnd_def modify_def
          split: input.splits if_splits)
    with Cons st True show ?thesis by (auto simp: loop_Cons andThen_def)
  next
    case False
    with st show ?thesis by (cases r1) (auto simp: loop_Cons andThen_def ret_def split: option.splits)
  qed
qed simp

lemma serveBody_ends:
  assumes "\<exists>i \<in> set is. ends_session i"
  shows "fst (serveBody env req url is s) \<noteq> Ret StillRunning"
  using loop_ends [OF assms, of env]
  by (auto simp: serveBody_def runLoop_def andThen_def deferred_def stopTicker_def ret_def
      split: prod.splits outcome.splits option.splits) (metis fst_conv)

lemma emit_returns:
  assumes "\<forall>ev w. \<not> panicked (fst (Send (md_Bridge (se_cfg env)) ev w))"
  obtains s' where "emit env typ data s = (Ret (), s')"
proof -
  obtain r s' where em: "emit env typ data s = (r, s')" by fastforce
  have "\<not> panicked r"
    using em assms
    by (auto simp: emit_def andThen_eq Let_def quiet_eq invoke_eq dest!: nextID_D) (metis fst_conv panicked.simps(2))
  with em that show ?thesis by (cases r) auto
qed

lemma cleanup_returns:
  assumes "\<forall>ev w. \<not> panicked (fst (Send (md_Bridge (se_cfg env)) ev w))"
    and "\<forall>w. \<not> panicked (fst (Bridge_Close (md_Bridge (se_cfg env)) w))"
    and "\<forall>w. \<not> panicked (fst (PS_Close (se_ps env) w))"
  shows "fst (cleanup env err s) = Ret (Returned err)"
proof -
  have inv: "\<exists>x s'. invoke op mk t = (Ret x, s')" if "\<forall>w. \<not> panicked (fst (op w))" for op mk t
    using that [rule_format, of "world t"] by (cases "op (world t)"; cases "fst (op (world t))") (auto simp: invoke_def)
  obtain s1 where s1: "emitEndedBest env s = (Ret (), s1)"
    using emit_returns [OF assms(1)] by (simp add: emitEndedBest_def andThen_def gets_def) blast
  obtain x s2 where s2: "invoke (Bridge_Close (md_Bridge (se_cfg env))) Called_BridgeClose s1 = (Ret x, s2)"
    using inv [OF assms(2)] by blast
  obtain y s3 where s3: "invoke (PS_Close (se_ps env)) Called_Close s2 = (Ret y, s3)"
    using inv [OF assms(3)] by blast
  show ?thesis by (simp add: cleanup_def andThen_def s1 s2 s3 ret_def)
qed

lemma serveDefer_returns:
  assumes "\<forall>ev w. \<not> panicked (fst (Send (md_Bridge (se_cfg env)) ev w))"
    and "\<forall>w. \<not> panicked (fst (Bridge_Close (md_Bridge (se_cfg env)) w))"
    and "\<forall>w. \<not> panicked (fst (PS_Close (se_ps env) w))"
    and "r \<noteq> Ret StillRunning"
  shows "\<exists>err. fst (serveDefer env r s) = Ret (Returned err)"
proof (cases r)
  case (Ret v)
  with assms(4) cleanup_returns [OF assms(1-3)] show ?thesis
    by (cases v) (auto simp: serveDefer_def)
next
  case (Panic p)
  let ?s = "snd (recordEnd EndReasonFatalError s)"
  obtain s1 where s1: "emitErrorBest env ErrCodeFatal (''panic: '' @ p) False ?s = (Ret (), s1)"
    using emit_returns [OF assms(1)] unfolding emitErrorBest_def by blast
  have "serveDefer env r s = cleanup env (Some (ErrorText (''vtuber_session: panic: '' @ p))) s1"
    using s1 Panic by (simp add: serveDefer_def andThen_def recordEnd_def modify_def)
  with cleanup_returns [OF assms(1-3)] show ?thesis by auto
qed

text \<open>How a session that returns has ended.\<close>

lemma Serve_way_out:
  assumes "Serve ctx m req (Some ps) inputs w = (Ret (Returned err), s)" and "md_BackendURL m \<noteq> ''''"
  shows "\<exists>cs ev r1 r2 r3 reason.
     calls s = cs @ [Called_Send ev r1, Called_BridgeClose r2, Called_Close r3] \<and>
     (\<forall>c \<in> set cs. \<not> is_end_call c) \<and>
     ev_Type ev = EventSessionEnded \<and> ev_Data ev = EndedData reason (cumulativeUnits s) \<and>
     endReason s = Some reason \<and> (err = None \<longleftrightarrow> reason = EndReasonUserEnd)"
proof -
  let ?env = "serve_env ctx m req ps"
  from Serve_run [OF assms] obtain cs reason where out: "way_out ?env cs s" and "endReason s = Some reason"
      and "reason_matches err reason"
    by (auto simp: serve_post_def)
  moreover from out obtain ev r1 r2 r3 where cs: "calls s = cs @ [Called_Send ev r1, Called_BridgeClose r2, Called_Close r3]"
      and "ev_Type ev = EventSessionEnded"
      "ev_Data ev = EndedData (case endReason s of None \<Rightarrow> EndReasonUserEnd | Some r \<Rightarrow> r) (cumulativeUnits s)"
    by (auto simp: way_out_def)
  moreover have "\<forall>c \<in> set cs. \<not> is_end_call c"
  proof -
    from Serve_accepted [OF assms(1)] cs have "proto_run ?env (cs @ Called_Send ev r1 # [Called_BridgeClose r2, Called_Close r3]) \<noteq> None"
      by simp
    then obtain q q' where "counted ?env cs q" "proto_step ?env q (Called_Send ev r1) = Some q'"
      by (rule proto_run_at)
    with \<open>ev_Data ev = _\<close> have "count is_end_call cs = 0"
      by (auto simp: counted_def proto_step_def split: if_split_asm)
    then show ?thesis by (simp add: count_def filter_empty_conv)
  qed
  ultimately show ?thesis by (auto simp: reason_matches_def)
qed

section \<open>A sample session\<close>

text \<open>The world is a step count; the first debit attempt of the session fails.\<close>

definition sample_module :: "nat Module" where
  "sample_module =
     \<lparr>md_BackendURL = ''http://r/s'', md_DebitCadence = 5 * Second, md_RunwayMinUnits = 30,
      md_GraceWindow = 60 * Second, md_DebitRetryBudget = 3, md_DebitRetryInterval = Second,
      md_Bridge = \<lparr>Send = (\<lambda>ev. ret None), Bridge_Close = ret None\<rparr>,
      md_Backend = \<lparr>Backend_OpenSession = (\<lambda>rq u. ret None), Backend_Close = (\<lambda>i u. ret None)\<rparr>,
      md_Clock = \<lparr>Now = (\<lambda>w. (0, w)), Ticker = SystemClock_Ticker\<rparr>,
      md_IDGen = None\<rparr>"

definition sample_ps :: "nat PaymentSession" where
  "sample_ps =
     \<lparr>Debit = (\<lambda>u q w. (Ret (if w = 0 then Inl io_EOF else Inr 100), Suc w)),
      Sufficient = (\<lambda>u w. (Ret (Inr False), w)), PS_Close = ret None\<rparr>"

definition sample_ctx :: "nat Ctx" where
  "sample_ctx = \<lparr>RetryWait = (\<lambda>d w. (None, w)), SelectWait = (\<lambda>i w. w)\<rparr>"

definition sample_inputs :: "input list" where
  "sample_inputs = [TickFired, CtxDone context_Canceled]"

definition sample_run :: "serve_result outcome \<times> nat session" where
  "sample_run = Serve sample_ctx sample_module None (Some sample_ps) sample_inputs 0"

definition sample_event :: "u64 \<Rightarrow> EventType \<Rightarrow> EventData \<Rightarrow> call" where
  "sample_event n typ data =
     Called_Send \<lparr>ev_EventID = fst (CounterIDGen_NextID ''unknown'' n), ev_Type = typ,
       ev_SessionID = ''unknown'', ev_TsMs = 0, ev_Data = data\<rparr> (Ret None)"

lemma sample_run_eq:
  "fst sample_run = Ret (Returned (Some context_Canceled)) \<and>
   calls (snd sample_run) =
     [Called_OpenSession ''http://r/s'' (Ret None),
      sample_event 0 EventSessionReady NoData,
      Called_Ticker 5000000000 (Ret ()),
      Called_Debit 5 1 (Ret (Inl io_EOF)),
      sample_event 1 EventSessionError (ErrorData ErrCodePaymentUnreachable ''EOF'' True),
      Called_Debit 5 1 (Ret (Inr 100)),
      sample_event 2 EventSessionUsageTick
        (UsageTick \<lparr>ut_WorkerSessionID = ''unknown'', ut_WorkID = '''', ut_UsageSeq = 1, ut_WorkUnits = 5,
                    ut_WorkUnitKind = ''second'', ut_CumulativeWorkUnits = 5\<rparr>),
      Called_Sufficient 30 (Ret (Inr False)),
      Called_After 60000000000,
      sample_event 3 EventSessionBalanceLow (BalanceLow 100),
      Called_TickerStop,
      sample_event 4 EventSessionEnded (EndedData EndReasonShutdown 5),
      Called_BridgeClose (Ret None),
      Called_Close (Ret None)]"
  by code_simp

section \<open>Properties\<close>

text \<open>C1: \<open>Serve\<close> refines the session protocol: for every configuration, request, payment
  session, sequence of loop inputs and behaviour of the collaborators, the calls it makes are
  accepted by the protocol automaton, whose debit count and unit total are the session's own; while it
  runs the automaton is in its live phase, and when it has returned in its closed phase.\<close>

theorem serve_follows_protocol:
  assumes "Serve ctx m req (Some ps) inputs w = (r, s)" and "md_BackendURL m \<noteq> ''''"
  shows "\<exists>q. proto_run (serve_env ctx m req ps) (calls s) = Some q \<and>
     p_taken q = debitSeq s \<and> p_cum q = cumulativeUnits s \<and>
     (r = Ret StillRunning \<longrightarrow> p_phase q = Live) \<and>
     (\<forall>err. r = Ret (Returned err) \<longrightarrow> p_phase q = Closed)"
  using Serve_run [OF assms]
  by (auto simp: serve_post_def proto_ends_def idle_def split: outcome.splits serve_result.splits)

theorem serve_follows_protocol_witness:
  "\<exists>q. proto_run (serve_env sample_ctx sample_module None sample_ps) (calls (snd sample_run)) = Some q \<and>
       p_phase q = Closed \<and> p_taken q = debitSeq (snd sample_run)"
  using serve_follows_protocol [of sample_ctx sample_module None sample_ps sample_inputs 0
      "fst sample_run" "snd sample_run"] sample_run_eq
  by (auto simp: sample_run_def sample_module_def)

text \<open>C9: A session that returns has released everything exactly once and in order: its last
  three calls are the session.ended event, the close of the bridge and the close of the
  payment session, and none of the calls before is one of these. The event carries the first recorded
  reason and the final unit total, and \<open>Serve\<close> returns nil exactly for the reason user_end.\<close>

theorem serve_releases_once:
  assumes "Serve ctx m req (Some ps) inputs w = (Ret (Returned err), s)" and "md_BackendURL m \<noteq> ''''"
  shows "\<exists>cs ev r1 r2 r3 reason.
     calls s = cs @ [Called_Send ev r1, Called_BridgeClose r2, Called_Close r3] \<and>
     (\<forall>c \<in> set cs. \<not> is_end_call c) \<and>
     ev_Type ev = EventSessionEnded \<and> ev_Data ev = EndedData reason (cumulativeUnits s) \<and>
     endReason s = Some reason \<and> (err = None \<longleftrightarrow> reason = EndReasonUserEnd)"
  using assms by (rule Serve_way_out)

lemma sample_Serve:
  "Serve sample_ctx sample_module None (Some sample_ps) sample_inputs 0
     = (Ret (Returned (Some context_Canceled)), snd sample_run)"
  using sample_run_eq by (simp add: sample_run_def prod_eq_iff)

theorem serve_releases_once_witness:
  "\<exists>cs ev r1 r2 r3. calls (snd sample_run) = cs @ [Called_Send ev r1, Called_BridgeClose r2, Called_Close r3] \<and>
     (\<forall>c \<in> set cs. \<not> is_end_call c) \<and> length cs = 11"
proof -
  have "md_BackendURL sample_module \<noteq> ''''" by (simp add: sample_module_def)
  from serve_releases_once [OF sample_Serve this] obtain cs ev r1 r2 r3 where
    cs: "calls (snd sample_run) = cs @ [Called_Send ev r1, Called_BridgeClose r2, Called_Close r3]"
    "\<forall>c \<in> set cs. \<not> is_end_call c" by blast
  have "length (calls (snd sample_run)) = 14" using sample_run_eq by simp
  with cs(1) have "length cs = 11" by simp
  with cs show ?thesis by blast
qed

text \<open>C11: Every debit a session asks for, retries included, is for the units of one tick and
  carries the number of debits taken before it plus one; every debit taken before it has been
  reported to the bridge; and fewer attempts than the retry budget have failed since the last debit that
  was taken.\<close>

theorem serve_debits_numbered:
  assumes "Serve ctx m req (Some ps) inputs w = (r, s)"
    and "calls s = pre @ Called_Debit units seq res # post"
  shows "units = tick_units m \<and> seq = of_nat (count is_taken pre) + 1 \<and>
     count is_usage pre = count is_taken pre \<and> int (failed_since pre) < md_DebitRetryBudget m"
  using assms by (rule serve_debit_at)

text \<open>C13: Every usage report follows exactly one successful debit that was not reported before: it
  carries that debit's sequence number, the units of one tick, and a running total that is the
  units of one tick times the sequence number.\<close>

theorem serve_usage_adds_up:
  assumes "Serve ctx m req (Some ps) inputs w = (r, s)"
    and "calls s = pre @ Called_Send ev res # post" and "ev_Data ev = UsageTick d"
  shows "count is_taken pre = count is_usage pre + 1 \<and>
     ut_UsageSeq d = of_nat (count is_taken pre) \<and> ut_WorkUnits d = tick_units m \<and>
     ut_CumulativeWorkUnits d = tick_units m * ut_UsageSeq d"
proof -
  from Serve_accepted [OF assms(1)] obtain q q' where
      "counted (serve_env ctx m req ps) pre q"
      "proto_step (serve_env ctx m req ps) q (Called_Send ev res) = Some q'"
    unfolding assms(2) by (rule proto_run_at)
  with assms(3) show ?thesis
    by (auto simp: counted_def proto_step_def serve_env_def distrib_left split: if_split_asm)
qed

text \<open>C23: At every point of a session the bridge has been told of as many refills as low-balance
  episodes, or of one fewer; and while the session waits, the grace timer is armed exactly when it is
  one fewer.\<close>

theorem serve_low_balance_episodes:
  assumes "Serve ctx m req (Some ps) inputs w = (r, s)" and "calls s = pre @ post"
  shows "count is_low pre - count is_refilled pre \<le> 1 \<and> count is_refilled pre \<le> count is_low pre \<and>
     (r = Ret StillRunning \<longrightarrow>
        (graceTimerCh s \<noteq> None \<longleftrightarrow> count is_low (calls s) = count is_refilled (calls s) + 1))"
proof -
  let ?env = "serve_env ctx m req ps"
  have "proto_run ?env (pre @ post) \<noteq> None" using Serve_accepted [OF assms(1)] assms(2) by simp
  then obtain q where "counted ?env pre q"
    using proto_run_prefix proto_run_counted by blast
  moreover have "graceTimerCh s \<noteq> None \<longleftrightarrow> count is_low (calls s) = count is_refilled (calls s) + 1"
    if "r = Ret StillRunning"
  proof -
    have "md_BackendURL m \<noteq> ''''" using assms(1) that by (auto simp: Serve_def)
    from Serve_run [OF assms(1) this] that have id: "idle ?env s" by (simp add: serve_post_def)
    then obtain q where "proto_run ?env (calls s) = Some q" and "p_low q = inLowBalance s"
      by (auto simp: idle_def)
    with id show ?thesis using proto_run_counted [of ?env "calls s" q]
      by (auto simp: counted_def idle_def)
  qed
  ultimately show ?thesis by (auto simp: counted_def)
qed

text \<open>C16: A session that is cancelled, or that the bridge asks to end, ends: if sending events and
  closing the bridge and the payment session do not panic, then \<open>Serve\<close> returns on every
  sequence of inputs that holds a cancellation or a session.end event, whatever the backend, the
  clock and the payment calls do, their panics included.\<close>

theorem serve_returns:
  assumes "\<forall>ev w. \<not> panicked (fst (Send (md_Bridge m) ev w))"
    and "\<forall>w. \<not> panicked (fst (Bridge_Close (md_Bridge m) w))"
    and "\<forall>w. \<not> panicked (fst (PS_Close ps w))"
    and "\<exists>i \<in> set inputs. ends_session i"
  shows "\<exists>err. fst (Serve ctx m req (Some ps) inputs w) = Ret (Returned err)"
proof (cases "md_BackendURL m = ''''")
  case True
  then show ?thesis by (simp add: Serve_def)
next
  case False
  let ?env = "serve_env ctx m req ps"
  obtain r1 s1 where body:
      "serveBody ?env req (backendURLForRequest req (md_BackendURL m)) inputs (new_session w) = (r1, s1)"
    by fastforce
  have "r1 \<noteq> Ret StillRunning"
    using serveBody_ends [OF assms(4), of ?env req "backendURLForRequest req (md_BackendURL m)" "new_session w"]
    by (simp add: body)
  then have "\<exists>err. fst (serveDefer ?env r1 s1) = Ret (Returned err)"
    using assms(1-3) by (intro serveDefer_returns) (simp_all add: serve_env_def)
  with False body show ?thesis by (simp add: Serve_def deferred_def Let_def)
qed

section \<open>Witnesses\<close>

theorem serve_debits_numbered_witness:
  "\<exists>pre post. calls (snd sample_run) = pre @ Called_Debit 5 1 (Ret (Inr 100)) # post \<and>
     (1 :: u64) = of_nat (count is_taken pre) + 1 \<and> int (failed_since pre) < md_DebitRetryBudget sample_module"
proof -
  let ?pre = "take 5 (calls (snd sample_run))" and ?post = "drop 6 (calls (snd sample_run))"
  have "calls (snd sample_run) = ?pre @ Called_Debit 5 1 (Ret (Inr 100)) # ?post"
    using sample_run_eq by simp
  with serve_debits_numbered [OF sample_Serve this] show ?thesis by blast
qed

theorem serve_usage_adds_up_witness:
  "\<exists>pre post ev res d. calls (snd sample_run) = pre @ Called_Send ev res # post \<and> ev_Data ev = UsageTick d \<and>
     ut_CumulativeWorkUnits d = tick_units sample_module * ut_UsageSeq d \<and> count is_taken pre = 1"
proof -
  let ?pre = "take 6 (calls (snd sample_run))" and ?post = "drop 7 (calls (snd sample_run))"
  obtain ev res d where cs: "calls (snd sample_run) = ?pre @ Called_Send ev res # ?post" "ev_Data ev = UsageTick d"
    using sample_run_eq by (simp add: sample_event_def)
  have "count is_taken ?pre = 1"
    using sample_run_eq by (simp add: sample_event_def count_def)
  with serve_usage_adds_up [OF sample_Serve cs] cs show ?thesis by blast
qed

theorem serve_low_balance_episodes_witness:
  "count is_low (calls (snd sample_run)) - count is_refilled (calls (snd sample_run)) \<le> 1 \<and>
   count is_low (calls (snd sample_run)) = 1"
proof -
  have "calls (snd sample_run) = calls (snd sample_run) @ []" by simp
  from serve_low_balance_episodes [OF sample_Serve this] sample_run_eq show ?thesis
    by (simp add: sample_event_def count_def)
qed

theorem serve_returns_witness:
  "(\<forall>ev w. \<not> panicked (fst (Send (md_Bridge sample_module) ev w))) \<and>
   (\<exists>err. fst (Serve sample_ctx sample_module None (Some sample_ps) sample_inputs 0) = Ret (Returned err))"
  using serve_returns [of sample_module sample_ps sample_inputs sample_ctx None 0]
  by (simp add: sample_module_def sample_ps_def sample_inputs_def ends_session_def ret_def)

end
