(* ===== verification/Sha256.thy ===== *)
theory Sha256
  imports Go_Base
begin

text \<open>
  The standard library function \<open>crypto/sha256.Sum256\<close> (FIPS 180-4) on byte sequences. It is
  the hash \<open>deriveWorkID\<close> of \<^verbatim>\<open>internal/runtime/http/workid.go\<close> applies to the payment
  bytes. The theory holds the algorithm and the fact the worker relies on: the digest has 32
  bytes.
\<close>

unbundle bit_operations_syntax

type_synonym u32 = "32 word"

definition rotr32 :: "nat \<Rightarrow> u32 \<Rightarrow> u32" where
  "rotr32 n x = drop_bit n x OR push_bit (32 - n) x"

text \<open>
  The round constants are the first 32 bits of the fractional parts of the cube roots of the
  first 64 primes, and the initial state those of the square roots of the first 8.
  \<open>root_bits k n i r\<close> adds to \<open>r\<close> the bits below \<open>i\<close> of the integer
  \<open>k\<close>-th root of \<open>n\<close>; 35 bits hold the roots of the scaled primes.
\<close>

fun root_bits :: "nat \<Rightarrow> int \<Rightarrow> nat \<Rightarrow> int \<Rightarrow> int" where
  "root_bits k n 0 r = r"
| "root_bits k n (Suc i) r = root_bits k n i (if (r + 2 ^ i) ^ k \<le> n then r + 2 ^ i else r)"

definition frac32 :: "nat \<Rightarrow> int \<Rightarrow> u32" where
  "frac32 k p = word_of_int (root_bits k (p * 2 ^ (32 * k)) 35 0)"

definition sha_primes :: "int list" where
  "sha_primes =
     [2, 3, 5, 7, 11, 13, 17, 19, 23, 29, 31, 37, 41, 43, 47, 53,
      59, 61, 67, 71, 73, 79, 83, 89, 97, 101, 103, 107, 109, 113, 127, 131,
      137, 139, 149, 151, 157, 163, 167, 173, 179, 181, 191, 193, 197, 199, 211, 223,
      227, 229, 233, 239, 241, 251, 257, 263, 269, 271, 277, 281, 283, 293, 307, 311]"

definition sha_K :: "u32 list" where
  "sha_K = map (frac32 3) sha_primes"

definition sha_H0 :: "u32 list" where
  "sha_H0 = map (frac32 2) (take 8 sha_primes)"

lemma root_bits_root:
  "r ^ k \<le> n \<Longrightarrow> n < (r + 2 ^ i) ^ k \<Longrightarrow>
   root_bits k n i r ^ k \<le> n \<and> n < (root_bits k n i r + 1) ^ k"
proof (induction i arbitrary: r)
  case (Suc i)
  have "r + 2 ^ Suc i = (r + 2 ^ i) + 2 ^ i" by simp
  with Suc.prems Suc.IH [of r] Suc.IH [of "r + 2 ^ i"] show ?case
    by (cases "(r + 2 ^ i) ^ k \<le> n") (simp_all add: add.assoc not_le)
qed simp

definition sha_pad :: "bytes \<Rightarrow> bytes" where
  "sha_pad m =
     (let n = length m;
          z = (119 - n mod 64) mod 64;
          bits = 8 * n
      in m @ [char_of (128 :: nat)] @ replicate z (char_of (0 :: nat))
           @ map (\<lambda>i. char_of (bits div 256 ^ i mod 256)) (rev [0..<8]))"

fun be_words :: "bytes \<Rightarrow> u32 list" where
  "be_words (a # b # c # d # s) =
     (of_char a * 16777216 + of_char b * 65536 + of_char c * 256 + of_char d) # be_words s"
| "be_words _ = []"

fun sha_schedule :: "nat \<Rightarrow> u32 list \<Rightarrow> u32 list" where
  \<comment> \<open>the message schedule, newest word first\<close>
  "sha_schedule 0 ws = ws"
| "sha_schedule (Suc k) ws =
     (let a = ws ! 14; b = ws ! 1;
          s0 = rotr32 7 a XOR rotr32 18 a XOR drop_bit 3 a;
          s1 = rotr32 17 b XOR rotr32 19 b XOR drop_bit 10 b
      in sha_schedule k ((ws ! 15 + s0 + ws ! 6 + s1) # ws))"

fun sha_round :: "u32 list \<Rightarrow> u32 \<times> u32 \<Rightarrow> u32 list" where
  "sha_round [a, b, c, d, e, f, g, h] (k, w) =
     (let S1 = rotr32 6 e XOR rotr32 11 e XOR rotr32 25 e;
          ch = (e AND f) XOR (NOT e AND g);
          t1 = h + S1 + ch + k + w;
          S0 = rotr32 2 a XOR rotr32 13 a XOR rotr32 22 a;
          maj = (a AND b) XOR (a AND c) XOR (b AND c);
          t2 = S0 + maj
      in [t1 + t2, a, b, c, d + t1, e, f, g])"
| "sha_round hs kw = hs"

definition sha_block :: "u32 list \<Rightarrow> u32 list \<Rightarrow> u32 list" where
  "sha_block hs ws =
     map2 (+) hs (foldl sha_round hs (zip sha_K (rev (sha_schedule 48 (rev ws)))))"

fun sha_blocks :: "u32 list \<Rightarrow> u32 list \<Rightarrow> u32 list" where
  "sha_blocks hs [] = hs"
| "sha_blocks hs (w # ws) =
     sha_blocks (sha_block hs (take 16 (w # ws))) (drop 16 (w # ws))"

definition u32_bytes :: "u32 \<Rightarrow> bytes" where
  "u32_bytes w = map (\<lambda>i. char_of (unat (drop_bit i w AND 255))) [24, 16, 8, 0]"

definition sha256_Sum256 :: "bytes \<Rightarrow> bytes" where
  "sha256_Sum256 m = concat (map u32_bytes (sha_blocks sha_H0 (be_words (sha_pad m))))"

lemma length_sha_round [simp]: "length (sha_round hs kw) = length hs"
  by (cases "(hs, kw)" rule: sha_round.cases) (simp_all add: Let_def)

lemma length_foldl_sha_round [simp]: "length (foldl sha_round hs kws) = length hs"
  by (induction kws arbitrary: hs) simp_all

lemma length_sha_block [simp]: "length (sha_block hs ws) = length hs"
  by (simp add: sha_block_def)

lemma length_sha_blocks [simp]: "length (sha_blocks hs ws) = length hs"
  by (induction hs ws rule: sha_blocks.induct) simp_all

lemma length_sha256 [simp]: "length (sha256_Sum256 m) = 32"
proof -
  have "length (concat (map u32_bytes ws)) = 4 * length ws" for ws
    by (induction ws) (simp_all add: u32_bytes_def)
  then show ?thesis by (simp add: sha256_Sum256_def sha_H0_def sha_primes_def)
qed

end
