(* ===== verification/Payee_Fake.thy ===== *)
theory Payee_Fake
  imports Payee
begin

text \<open>
  \<^verbatim>\<open>internal/providers/payeedaemon/fake.go\<close>: the in-memory \<open>Client\<close>, with its knobs, call
  counters, session bindings, balances and replay table. It is the repository's own statement of
  how the payment daemon behaves, and it interprets \<open>payee_ledger\<close> with its extensions. Closing a
  session keeps its balance here, which the contract does not promise.
\<close>

section \<open>State\<close>

record fakeSessionBinding =
  sb_Capability :: string
  sb_Offering :: string
  sb_PricePerWorkUnitWei :: "int option"
  sb_WorkUnit :: string
  sb_Sender :: bytes
  sb_Closed :: bool

record Fake =
  fk_ProcessPaymentError :: "goerr option"
  fk_OpenSessionError :: "goerr option"
  fk_DebitBalanceError :: "goerr option"
  fk_SufficientBalanceError :: "goerr option"
  fk_CloseSessionError :: "goerr option"
  fk_ListCapabilitiesResponse :: "Capability list"
  fk_ListCapabilitiesError :: "goerr option"
  fk_GetQuoteResponse :: GetQuoteResult
  fk_GetQuoteError :: "goerr option"
  fk_GetTicketParamsResponse :: TicketParams
  fk_GetTicketParamsError :: "goerr option"
  fk_CreditPerCall :: int
  fk_DebitWeiPerWorkUnit :: int
  fk_SenderAddress :: bytes
  fk_OpenSessionCalls :: int
  fk_ProcessPaymentCalls :: int
  fk_DebitBalanceCalls :: int
  fk_SufficientBalanceCalls :: int
  fk_CloseSessionCalls :: int
  fk_GetQuoteCalls :: int
  fk_GetTicketParamsCalls :: int
  fk_LastOpenSession :: "OpenSessionRequest option"
  fk_LastProcessPaymentPayload :: bytes
  fk_LastDebitBalanceWorkUnits :: int
  fk_LastDebitBalanceSeq :: u64
  fk_LastProcessPaymentWorkID :: string
  fk_LastDebitBalanceWorkID :: string
  fk_LastSufficientWorkID :: string
  fk_LastSufficientMinUnits :: int
  fk_LastCloseSessionWorkID :: string
  fk_LastGetQuoteSender :: bytes
  fk_LastGetQuoteCapability :: string
  fk_LastGetTicketParams :: "GetTicketParamsRequest option"
  fk_balances :: "string \<rightharpoonup> int"
  fk_sessions :: "string \<rightharpoonup> fakeSessionBinding"
  fk_debitReplays :: "string \<rightharpoonup> int"

section \<open>Keys\<close>

definition balanceKey :: "bytes \<Rightarrow> string \<Rightarrow> string" where
  "balanceKey sender workID = sender @ ''::'' @ workID"

definition debitReplayKey :: "bytes \<Rightarrow> string \<Rightarrow> u64 \<Rightarrow> string" where
  "debitReplayKey sender workID debitSeq = balanceKey sender workID @ ''::'' @ big_String (uint debitSeq)"

definition sameSessionBinding :: "fakeSessionBinding \<Rightarrow> OpenSessionRequest \<Rightarrow> bool" where
  "sameSessionBinding ex q =
     (if sb_Capability ex \<noteq> os_Capability q \<or> sb_Offering ex \<noteq> os_Offering q
         \<or> sb_WorkUnit ex \<noteq> os_WorkUnit q then False
      else case (sb_PricePerWorkUnitWei ex, os_PricePerWorkUnitWei q) of
             (None, None) \<Rightarrow> True
           | (Some a, Some b) \<Rightarrow> a = b
           | _ \<Rightarrow> False)"

section \<open>Construction\<close>

definition noTicketParams :: TicketParams where
  "noTicketParams =
     \<lparr>tp_Recipient = [], tp_FaceValueWei = [], tp_WinProb = [], tp_RecipientRandHash = [],
      tp_Seed = [], tp_ExpirationBlock = [],
      tp_ExpirationParams = \<lparr>tx_CreationRound = 0, tx_CreationRoundBlockHash = []\<rparr>\<rparr>"

definition NewFake :: Fake where
  "NewFake =
     \<lparr>fk_ProcessPaymentError = None, fk_OpenSessionError = None, fk_DebitBalanceError = None,
      fk_SufficientBalanceError = None, fk_CloseSessionError = None,
      fk_ListCapabilitiesResponse = [], fk_ListCapabilitiesError = None,
      fk_GetQuoteResponse = \<lparr>gq_TicketParams = noTicketParams, gq_OfferingPrices = []\<rparr>,
      fk_GetQuoteError = None, fk_GetTicketParamsResponse = noTicketParams,
      fk_GetTicketParamsError = None, fk_CreditPerCall = 1000000000, fk_DebitWeiPerWorkUnit = 1,
      fk_SenderAddress = map char_of [10, 11, 12, 13, 14, 15, 16, 17, 18, 19, 20, 21, 22, 23, 24,
                                      25, 26, 27, 28, 29 :: nat],
      fk_OpenSessionCalls = 0, fk_ProcessPaymentCalls = 0, fk_DebitBalanceCalls = 0,
      fk_SufficientBalanceCalls = 0, fk_CloseSessionCalls = 0, fk_GetQuoteCalls = 0,
      fk_GetTicketParamsCalls = 0, fk_LastOpenSession = None, fk_LastProcessPaymentPayload = [],
      fk_LastDebitBalanceWorkUnits = 0, fk_LastDebitBalanceSeq = 0,
      fk_LastProcessPaymentWorkID = [], fk_LastDebitBalanceWorkID = [],
      fk_LastSufficientWorkID = [], fk_LastSufficientMinUnits = 0,
      fk_LastCloseSessionWorkID = [], fk_LastGetQuoteSender = [], fk_LastGetQuoteCapability = [],
      fk_LastGetTicketParams = None, fk_balances = Map.empty, fk_sessions = Map.empty,
      fk_debitReplays = Map.empty\<rparr>"

section \<open>Operations\<close>

definition fake_ListCapabilities :: "Fake \<Rightarrow> (goerr + Capability list) \<times> Fake" where
  "fake_ListCapabilities f =
     (case fk_ListCapabilitiesError f of
        Some e \<Rightarrow> (Inl e, f)
      | None \<Rightarrow> (Inr (fk_ListCapabilitiesResponse f), f))"

definition fake_GetQuote :: "bytes \<Rightarrow> string \<Rightarrow> Fake \<Rightarrow> (goerr + GetQuoteResult) \<times> Fake" where
  "fake_GetQuote sender capability f0 =
     (let f = f0\<lparr>fk_GetQuoteCalls := fk_GetQuoteCalls f0 + 1, fk_LastGetQuoteSender := sender,
                 fk_LastGetQuoteCapability := capability\<rparr>
      in case fk_GetQuoteError f of
           Some e \<Rightarrow> (Inl e, f)
         | None \<Rightarrow> (Inr (fk_GetQuoteResponse f), f))"

definition fake_GetTicketParams :: "GetTicketParamsRequest \<Rightarrow> Fake \<Rightarrow> (goerr + TicketParams) \<times> Fake" where
  "fake_GetTicketParams q f0 =
     (let f = f0\<lparr>fk_GetTicketParamsCalls := fk_GetTicketParamsCalls f0 + 1,
                 fk_LastGetTicketParams := Some q\<rparr>
      in case fk_GetTicketParamsError f of
           Some e \<Rightarrow> (Inl e, f)
         | None \<Rightarrow> (Inr (fk_GetTicketParamsResponse f), f))"

definition fake_OpenSession :: "OpenSessionRequest \<Rightarrow> Fake \<Rightarrow> (goerr + OpenSessionOutcome) \<times> Fake" where
  "fake_OpenSession q f0 =
     (let f = f0\<lparr>fk_OpenSessionCalls := fk_OpenSessionCalls f0 + 1, fk_LastOpenSession := Some q\<rparr>
      in case fk_OpenSessionError f of
           Some e \<Rightarrow> (Inl e, f)
         | None \<Rightarrow>
             (case fk_sessions f (os_WorkID q) of
                Some ex \<Rightarrow>
                  if sb_Closed ex then (Inl (ErrorText ''session closed''), f)
                  else if sameSessionBinding ex q then (Inr OpenSessionOutcomeAlreadyOpen, f)
                  else (Inl (ErrorText ''session already open with different metadata''), f)
              | None \<Rightarrow>
                  (Inr OpenSessionOutcomeOpened,
                   f\<lparr>fk_sessions := (fk_sessions f)(os_WorkID q \<mapsto>
                       \<lparr>sb_Capability = os_Capability q, sb_Offering = os_Offering q,
                        sb_PricePerWorkUnitWei = os_PricePerWorkUnitWei q,
                        sb_WorkUnit = os_WorkUnit q, sb_Sender = [], sb_Closed = False\<rparr>)\<rparr>)))"

definition fake_ProcessPayment :: "bytes \<Rightarrow> string \<Rightarrow> Fake \<Rightarrow> (goerr + ProcessPaymentResult) \<times> Fake" where
  "fake_ProcessPayment paymentBytes workID f0 =
     (let f = f0\<lparr>fk_ProcessPaymentCalls := fk_ProcessPaymentCalls f0 + 1,
                 fk_LastProcessPaymentPayload := paymentBytes,
                 fk_LastProcessPaymentWorkID := workID\<rparr>
      in case fk_ProcessPaymentError f of
           Some e \<Rightarrow> (Inl e, f)
         | None \<Rightarrow>
             (case fk_sessions f workID of
                None \<Rightarrow> (Inl (ErrorText ''unknown session''), f)
              | Some se \<Rightarrow>
                  if sb_Closed se then (Inl (ErrorText ''session closed''), f)
                  else if sb_Sender se \<noteq> [] \<and> sb_Sender se \<noteq> fk_SenderAddress f
                  then (Inl (ErrorText ''sender mismatch''), f)
                  else
                    let f1 = (if sb_Sender se = []
                              then f\<lparr>fk_sessions := (fk_sessions f)(workID \<mapsto> se\<lparr>sb_Sender := fk_SenderAddress f\<rparr>)\<rparr>
                              else f);
                        key = balanceKey (fk_SenderAddress f1) workID;
                        bal = (case fk_balances f1 key of None \<Rightarrow> 0 | Some b \<Rightarrow> b) + fk_CreditPerCall f1
                    in (Inr \<lparr>pp_Sender = fk_SenderAddress f1, pp_CreditedEVWei = fk_CreditPerCall f1,
                             pp_BalanceWei = bal, pp_WinnersQueued = 0\<rparr>,
                        f1\<lparr>fk_balances := (fk_balances f1)(key \<mapsto> bal)\<rparr>)))"

definition bound_price :: "Fake \<Rightarrow> fakeSessionBinding \<Rightarrow> int" where
  "bound_price f se = (case sb_PricePerWorkUnitWei se of None \<Rightarrow> fk_DebitWeiPerWorkUnit f | Some p \<Rightarrow> p)"

definition fake_DebitBalance :: "bytes \<Rightarrow> string \<Rightarrow> int \<Rightarrow> u64 \<Rightarrow> Fake \<Rightarrow> (goerr + int option) \<times> Fake" where
  "fake_DebitBalance sender workID workUnits debitSeq f0 =
     (let f = f0\<lparr>fk_DebitBalanceCalls := fk_DebitBalanceCalls f0 + 1,
                 fk_LastDebitBalanceWorkUnits := workUnits,
                 fk_LastDebitBalanceWorkID := workID, fk_LastDebitBalanceSeq := debitSeq\<rparr>
      in case fk_DebitBalanceError f of
           Some e \<Rightarrow> (Inl e, f)
         | None \<Rightarrow>
             (case fk_sessions f workID of
                None \<Rightarrow> (Inl (ErrorText ''unknown session''), f)
              | Some se \<Rightarrow>
                  if sb_Closed se then (Inl (ErrorText ''session closed''), f)
                  else if sb_Sender se = [] \<or> sb_Sender se \<noteq> sender
                  then (Inl (ErrorText ''sender mismatch''), f)
                  else
                    let replayKey = debitReplayKey sender workID debitSeq in
                    case fk_debitReplays f replayKey of
                      Some b \<Rightarrow> (Inr (Some b), f)
                    | None \<Rightarrow>
                        let key = balanceKey sender workID;
                            bal = (case fk_balances f key of None \<Rightarrow> 0 | Some b \<Rightarrow> b)
                                    - bound_price f se * workUnits
                        in (Inr (Some bal),
                            f\<lparr>fk_balances := (fk_balances f)(key \<mapsto> bal),
                              fk_debitReplays := (fk_debitReplays f)(replayKey \<mapsto> bal)\<rparr>)))"

definition fake_SufficientBalance ::
  "bytes \<Rightarrow> string \<Rightarrow> int \<Rightarrow> Fake \<Rightarrow> (goerr + SufficientBalanceResult) \<times> Fake" where
  "fake_SufficientBalance sender workID minWorkUnits f0 =
     (let f = f0\<lparr>fk_SufficientBalanceCalls := fk_SufficientBalanceCalls f0 + 1,
                 fk_LastSufficientWorkID := workID, fk_LastSufficientMinUnits := minWorkUnits\<rparr>
      in case fk_SufficientBalanceError f of
           Some e \<Rightarrow> (Inl e, f)
         | None \<Rightarrow>
             (case fk_sessions f workID of
                None \<Rightarrow> (Inl (ErrorText ''unknown session''), f)
              | Some se \<Rightarrow>
                  if sb_Closed se then (Inl (ErrorText ''session closed''), f)
                  else if sb_Sender se = [] \<or> sb_Sender se \<noteq> sender
                  then (Inl (ErrorText ''sender mismatch''), f)
                  else
                    let bal = (case fk_balances f (balanceKey sender workID) of None \<Rightarrow> 0 | Some b \<Rightarrow> b)
                    in (Inr \<lparr>sb_Sufficient = (bal \<ge> bound_price f se * minWorkUnits),
                             sb_BalanceWei = bal\<rparr>, f)))"

definition fake_CloseSession :: "bytes \<Rightarrow> string \<Rightarrow> Fake \<Rightarrow> (goerr + unit) \<times> Fake" where
  "fake_CloseSession sender workID f0 =
     (let f = f0\<lparr>fk_CloseSessionCalls := fk_CloseSessionCalls f0 + 1,
                 fk_LastCloseSessionWorkID := workID\<rparr>
      in case fk_CloseSessionError f of
           Some e \<Rightarrow> (Inl e, f)
         | None \<Rightarrow>
             (case fk_sessions f workID of
                None \<Rightarrow> (Inl (ErrorText ''unknown session''), f)
              | Some se \<Rightarrow>
                  if sb_Sender se \<noteq> [] \<and> sb_Sender se \<noteq> sender
                  then (Inl (ErrorText ''sender mismatch''), f)
                  else (Inr (), f\<lparr>fk_sessions := (fk_sessions f)(workID \<mapsto> se\<lparr>sb_Closed := True\<rparr>)\<rparr>)))"

definition BalanceFor :: "Fake \<Rightarrow> bytes \<Rightarrow> string \<Rightarrow> int" where
  "BalanceFor f sender workID =
     (case fk_balances f (balanceKey sender workID) of None \<Rightarrow> 0 | Some b \<Rightarrow> b)"

definition fakeClient :: "Fake Client" where
  "fakeClient =
     \<lparr>ListCapabilities = fake_ListCapabilities, GetQuote = fake_GetQuote,
      GetTicketParams = fake_GetTicketParams, OpenSession = fake_OpenSession,
      ProcessPayment = fake_ProcessPayment, DebitBalance = fake_DebitBalance,
      SufficientBalance = fake_SufficientBalance, CloseSession = fake_CloseSession\<rparr>"

section \<open>The in-memory client keeps the ledger contract\<close>

definition fake_charged :: "bytes \<Rightarrow> Fake \<Rightarrow> string \<Rightarrow> u64 \<rightharpoonup> int" where
  "fake_charged sender f workID q = fk_debitReplays f (debitReplayKey sender workID q)"

definition fake_price :: "Fake \<Rightarrow> string \<Rightarrow> int" where
  "fake_price f workID =
     (case fk_sessions f workID of None \<Rightarrow> fk_DebitWeiPerWorkUnit f | Some se \<Rightarrow> bound_price f se)"

lemma balanceKey_inj [simp]: "balanceKey s w = balanceKey s w' \<longleftrightarrow> w = w'"
  by (simp add: balanceKey_def)

lemma append_sep_inj:
  assumes "z \<notin> set b" and "z \<notin> set d" and "a @ z # b = c @ z # d"
  shows "a = c \<and> b = d"
proof -
  from assms(3) have "rev (a @ z # b) = rev (c @ z # d)" by (rule arg_cong)
  then have "rev b @ z # rev a = rev d @ z # rev c" by simp
  with assms(1,2) have "rev b = rev d \<and> rev a = rev c"
    by (subst (asm) nul_notin_split) simp_all
  then show ?thesis by simp
qed

lemma colon_notin_seq: "CHR '':'' \<notin> set (big_String (uint (q :: u64)))"
  by (simp add: big_String_def dec_nat_no_char)

lemma debitReplayKey_inj [simp]:
  "debitReplayKey s w q = debitReplayKey s w' q' \<longleftrightarrow> w = w' \<and> q = q'"
proof
  assume "debitReplayKey s w q = debitReplayKey s w' q'"
  then have "(w @ '':'') @ CHR '':'' # big_String (uint q) = (w' @ '':'') @ CHR '':'' # big_String (uint q')"
    by (simp add: debitReplayKey_def balanceKey_def)
  from append_sep_inj [OF colon_notin_seq colon_notin_seq this] show "w = w' \<and> q = q'"
    by (simp add: word_uint_eq_iff)
qed simp

lemmas fake_ledger_defs =
  ledger_same_def ledger_took_def BalanceFor_def fake_charged_def fake_price_def bound_price_def
  fun_eq_iff

lemma fake_debit_new:
  assumes "fake_DebitBalance s w u q f = (Inr b, f')" and "fake_charged s f w q = None"
  shows "ledger_took (\<lambda>d w. BalanceFor d s w) (fake_charged s) fake_price w q u f f'"
  using assms
  by (auto simp: fake_DebitBalance_def fake_ledger_defs Let_def
      split: option.splits if_splits)

lemma fake_debit_replay:
  assumes "fake_DebitBalance s w u q f = (Inr b, f')" and "fake_charged s f w q = Some v"
  shows "ledger_same (\<lambda>d w. BalanceFor d s w) (fake_charged s) fake_price f f'"
  using assms
  by (auto simp: fake_DebitBalance_def fake_ledger_defs Let_def split: option.splits if_splits)

lemma fake_debit_answer:
  assumes "fake_DebitBalance s w u q f = (Inr b, f')"
  shows "b = fake_charged s f' w q"
  using assms
  by (auto simp: fake_DebitBalance_def fake_charged_def Let_def split: option.splits if_splits)

lemma fake_debit_error:
  assumes "fake_DebitBalance s w u q f = (Inl e, f')"
  shows "ledger_same (\<lambda>d w. BalanceFor d s w) (fake_charged s) fake_price f f'"
  using assms
  by (auto simp: fake_DebitBalance_def fake_ledger_defs Let_def split: option.splits if_splits)

lemma fake_sufficient:
  assumes "fake_SufficientBalance s w u f = (r, f')"
  shows "ledger_same (\<lambda>d w. BalanceFor d s w) (fake_charged s) fake_price f f'"
    and "r = Inr v \<Longrightarrow> sb_Sufficient v \<longleftrightarrow> fake_price f w * u \<le> BalanceFor f s w"
  using assms
  by (auto simp: fake_SufficientBalance_def fake_ledger_defs Let_def
      split: option.splits if_splits)

interpretation fake_ledger: payee_answers fakeClient s "\<lambda>d w. BalanceFor d s w" "fake_charged s" fake_price
  for s :: bytes
  by unfold_locales
     (auto simp: fakeClient_def fake_debit_new fake_debit_replay fake_debit_error fake_sufficient
        fake_debit_answer)

interpretation metered_fake_ledger:
  payee_answers "meteredClient fakeClient Counter" s "\<lambda>st w. BalanceFor (fst st) s w"
    "\<lambda>st. fake_charged s (fst st)" "\<lambda>st. fake_price (fst st)"
  for s :: bytes
  by (rule fake_ledger.metered_answers)

section \<open>Properties\<close>

text \<open>The sequence number makes a debit idempotent through the whole client stack: once a
  debit of a work id has been answered by the metered in-memory client, any later call with the
  same sequence number, whatever it answers, leaves every balance of the sender unchanged.\<close>

lemma metered_fake_debit_idempotent:
  assumes "DebitBalance (meteredClient fakeClient Counter) s w u q st = (Inr b, st1)"
    and "DebitBalance (meteredClient fakeClient Counter) s w u' q st1 = (r, st2)"
  shows "BalanceFor (fst st2) s w' = BalanceFor (fst st1) s w'"
proof -
  obtain v where "fake_charged s (fst st1) w q = Some v"
    using metered_fake_ledger.debit_recorded [OF assms(1)] by blast
  from metered_fake_ledger.debit_retry_free [OF assms(2) this]
  show ?thesis by (simp add: ledger_same_def fun_eq_iff)
qed

text \<open>An in-memory daemon with one paid session \<open>w\<close> of sender \<open>s\<close>, price 6250.\<close>

definition sample_fake :: Fake where
  "sample_fake = NewFake\<lparr>fk_sessions := [''w'' \<mapsto>
     \<lparr>sb_Capability = ''livepeer:vtuber-session'', sb_Offering = ''hd'',
      sb_PricePerWorkUnitWei = Some 6250, sb_WorkUnit = ''second'', sb_Sender = ''s'', sb_Closed = False\<rparr>],
     fk_balances := [balanceKey ''s'' ''w'' \<mapsto> 1000000]\<rparr>"

lemma sample_fake_sel [simp]:
  "fk_DebitBalanceError sample_fake = None"
  "fk_debitReplays sample_fake = Map.empty"
  "fk_sessions sample_fake ''w'' = Some \<lparr>sb_Capability = ''livepeer:vtuber-session'',
      sb_Offering = ''hd'', sb_PricePerWorkUnitWei = Some 6250, sb_WorkUnit = ''second'',
      sb_Sender = ''s'', sb_Closed = False\<rparr>"
  by (simp_all add: sample_fake_def NewFake_def)

end
