(* ===== verification/Streaming.thy ===== *)
theory Streaming
  imports Http Session_Theorems Sha256 Payee_Fake
begin

text \<open>
  \<^verbatim>\<open>runtime/http/streaming.go\<close> and \<^verbatim>\<open>workid.go\<close>: the session-open middleware, the payment
  session adapter, the top-up and end handlers. The middleware answers and, when it accepts, hands a
  \<open>stream_start\<close> to the goroutine that runs the module's \<open>Serve\<close>; the semaphore slot then
  belongs to that goroutine. \<open>encoding/json\<close>'s decoder is a parameter: what \<open>Unmarshal\<close> puts into
  the two anonymous structs.
\<close>

section \<open>Identifiers\<close>

definition deriveWorkID :: "bytes \<Rightarrow> string" where
  "deriveWorkID paymentBytes = hex_EncodeToString (sha256_Sum256 paymentBytes)"

definition deriveWorkerSessionID :: "string \<Rightarrow> string" where
  "deriveWorkerSessionID workID =
     (if workID = '''' then ''worker_session_unknown'' else ''worker_'' @ workID)"

record jsonDecoder =
  jd_session :: "bytes \<Rightarrow> goerr + string \<times> string"
  jd_offering :: "bytes \<Rightarrow> goerr + string"

definition extractGatewaySessionID :: "jsonDecoder \<Rightarrow> Request option \<Rightarrow> bytes \<Rightarrow> goerr + string" where
  "extractGatewaySessionID jd req body =
     (case req of
        None \<Rightarrow> Inl (ErrorText ''nil request'')
      | Some r \<Rightarrow>
          let hid = TrimSpace (header_Get (rq_Header r) ''X-Vtuber-Session-Id'') in
          if hid \<noteq> '''' then Inr hid
          else
            (case jd_session jd body of
               Inl err \<Rightarrow> Inl err
             | Inr (gatewaySessionID, sessionID) \<Rightarrow>
                 if TrimSpace gatewaySessionID \<noteq> '''' then Inr (TrimSpace gatewaySessionID)
                 else if TrimSpace sessionID \<noteq> '''' then Inr (TrimSpace sessionID)
                 else Inl (ErrorText ''missing gateway_session_id or session_id'')))"

definition extractStreamingOffering :: "jsonDecoder \<Rightarrow> Request option \<Rightarrow> bytes \<Rightarrow> goerr + string" where
  "extractStreamingOffering jd req body =
     (case req of
        None \<Rightarrow> Inl (ErrorText ''nil request'')
      | Some r \<Rightarrow>
          let h = TrimSpace (header_Get (rq_Header r) ''X-Vtuber-Offering'') in
          if h \<noteq> '''' then Inr h
          else
            (case jd_offering jd body of
               Inl err \<Rightarrow> Inl (ErrorText ''missing X-Vtuber-Offering header'')
             | Inr offering \<Rightarrow>
                 if TrimSpace offering \<noteq> '''' then Inr (TrimSpace offering)
                 else Inl (ErrorText ''missing X-Vtuber-Offering header'')))"

section \<open>The payment session adapter\<close>

definition wei64 :: "int option \<Rightarrow> int" where
  "wei64 b =
     (case b of
        None \<Rightarrow> 0
      | Some v \<Rightarrow> if \<not> is_int64 v then (if v < 0 then - 1 else 2 ^ 62 - 1) else v)"

text \<open>
  The world of a session: the server's state and the adapter's own \<open>closed\<close> flag, and whatever
  else a run is followed through.
\<close>

record ('d, 'r) stream_world =
  st_server :: "('d, 'r) server"
  st_closed :: bool

definition on_payee :: "('d \<Rightarrow> 'a \<times> 'd) \<Rightarrow> ('d, 'r, 'x) stream_world_scheme \<Rightarrow> 'a \<times> ('d, 'r, 'x) stream_world_scheme" where
  "on_payee f w =
     (case f (sv_payee (st_server w)) of (x, d) \<Rightarrow> (x, w\<lparr>st_server := st_server w\<lparr>sv_payee := d\<rparr>\<rparr>))"

definition adapter_Debit ::
  "'d Client \<Rightarrow> bytes \<Rightarrow> string \<Rightarrow> u64 \<Rightarrow> u64 \<Rightarrow> (('d, 'r, 'x) stream_world_scheme, goerr + int) proc"
where
  "adapter_Debit payee sender workID units seq w =
     (case on_payee (DebitBalance payee sender workID (sint units) seq) w of
        (Inl err, w') \<Rightarrow> (Ret (Inl err), w')
      | (Inr balance, w') \<Rightarrow> (Ret (Inr (wei64 balance)), w'))"

definition adapter_Sufficient ::
  "'d Client \<Rightarrow> bytes \<Rightarrow> string \<Rightarrow> u64 \<Rightarrow> (('d, 'r, 'x) stream_world_scheme, goerr + bool) proc"
where
  "adapter_Sufficient payee sender workID minUnits w =
     (case on_payee (SufficientBalance payee sender workID (sint minUnits)) w of
        (Inl err, w') \<Rightarrow> (Ret (Inl err), w')
      | (Inr res, w') \<Rightarrow> (Ret (Inr (sb_Sufficient res)), w'))"

definition adapter_Close ::
  "'d Client \<Rightarrow> bytes \<Rightarrow> string \<Rightarrow> (registry \<Rightarrow> registry) \<Rightarrow> (('d, 'r, 'x) stream_world_scheme, goerr option) proc"
where
  "adapter_Close payee sender workID onClose w =
     (if st_closed w then (Ret None, w)
      else
        (case on_payee (CloseSession payee sender workID) (w\<lparr>st_closed := True\<rparr>) of
           (res, w') \<Rightarrow>
             (Ret (err_of res),
              w'\<lparr>st_server := st_server w'\<lparr>sv_sessions := onClose (sv_sessions (st_server w'))\<rparr>\<rparr>)))"

definition newPaymentSessionAdapter ::
  "'d Client \<Rightarrow> bytes \<Rightarrow> string \<Rightarrow> (registry \<Rightarrow> registry) \<Rightarrow> ('d, 'r, 'x) stream_world_scheme PaymentSession"
where
  "newPaymentSessionAdapter payee sender workID onClose =
     \<lparr>Debit = adapter_Debit payee sender workID,
      Sufficient = adapter_Sufficient payee sender workID,
      PS_Close = adapter_Close payee sender workID onClose\<rparr>"

section \<open>The session-open middleware\<close>

definition streamingMaxBodyBytes :: nat where "streamingMaxBodyBytes = 256 * 1024"

record stream_start =
  ss_Request :: Request
  ss_Sender :: bytes
  ss_WorkID :: string
  ss_GatewaySessionID :: string

definition set_headers :: "(string \<times> string) list \<Rightarrow> Request \<Rightarrow> Request" where
  "set_headers hs r = r\<lparr>rq_Header := fold (\<lambda>(k, v) h. header_Set h k v) hs (rq_Header r)\<rparr>"

definition session_reply :: "string \<Rightarrow> string \<Rightarrow> string \<Rightarrow> string \<Rightarrow> body" where
  "session_reply status gid wsid workID =
     Json (JObj [(''gateway_session_id'', JStr gid), (''status'', JStr status),
                 (''work_id'', JStr workID), (''worker_session_id'', JStr wsid)])"

text \<open>
  Everything between taking the semaphore slot and handing it to the session goroutine.
  \<open>readErr\<close> is the error of reading the body, \<open>capability\<close> the module's.
\<close>

definition streaming_open ::
  "'d Mux \<Rightarrow> jsonDecoder \<Rightarrow> string \<Rightarrow> goerr option \<Rightarrow> Request \<Rightarrow>
   ('d, 'r, Response \<times> stream_start option) handler"
where
  "streaming_open mx jd capability readErr r =
     (case readErr of
        Some err \<Rightarrow> ret (http_Error (''body_read: '' @ error_text err) 400, None)
      | None \<Rightarrow>
          let body = take streamingMaxBodyBytes (rq_Body r);
              r1 = r\<lparr>rq_Body := body\<rparr>;
              paymentB64 = header_Get (rq_Header r1) ''X-Livepeer-Payment''
          in
          if paymentB64 = '''' then ret (http_Error ''missing X-Livepeer-Payment'' 402, None)
          else case base64_DecodeString paymentB64 of
            Inl err \<Rightarrow> ret (http_Error (''X-Livepeer-Payment not base64: '' @ error_text err) 400, None)
          | Inr paymentBytes \<Rightarrow>
          (case extractGatewaySessionID jd (Some r1) body of
             Inl err \<Rightarrow> ret (http_Error (''invalid session identity: '' @ error_text err) 400, None)
           | Inr gatewaySessionID \<Rightarrow>
          let r2 = set_headers [(''X-Vtuber-Session-Id'', gatewaySessionID)] r1 in
          (case extractStreamingOffering jd (Some r2) body of
             Inl err \<Rightarrow> ret (http_Error (''invalid offering: '' @ error_text err) 400, None)
           | Inr offering \<Rightarrow>
          (case Lookup (mx_cfg mx) capability offering of
             None \<Rightarrow> ret (http_Error (''unknown offering: '' @ offering) 404, None)
           | Some route \<Rightarrow>
          let workID = deriveWorkID paymentBytes;
              workerSessionID = deriveWorkerSessionID workID;
              r3 = set_headers [(''X-Vtuber-Offering'', offering),
                                (''X-Vtuber-Backend-Url'', or_BackendURL route),
                                (''X-Vtuber-Worker-Session-Id'', workerSessionID),
                                (''X-Vtuber-Work-Id'', workID)] r2
          in
          (case big_SetString (or_PricePerWorkUnitWei route) of
             None \<Rightarrow> ret (http_Error ''invalid route price_per_work_unit_wei'' 500, None)
           | Some pricePerUnit \<Rightarrow>
               andThen (payee_call (OpenSession (mx_payee mx)
                          \<lparr>os_WorkID = workID, os_Capability = or_Capability route,
                           os_Offering = or_Offering route, os_PricePerWorkUnitWei = Some pricePerUnit,
                           os_WorkUnit = or_WorkUnit route\<rparr>)) (\<lambda>opened.
               case opened of
                 Inl err \<Rightarrow> ret (http_Error (''OpenSession: '' @ error_text err) 400, None)
               | Inr _ \<Rightarrow>
               andThen (payee_call (ProcessPayment (mx_payee mx) paymentBytes workID)) (\<lambda>pp.
               case pp of
                 Inl err \<Rightarrow> ret (http_Error (''ProcessPayment: '' @ error_text err) 400, None)
               | Inr ppRes \<Rightarrow>
               andThen (sessions_update (registry_Upsert
                          \<lparr>si_GatewaySessionID = gatewaySessionID, si_WorkerSessionID = workerSessionID,
                           si_WorkID = workID, si_BackendURL = or_BackendURL route,
                           si_Sender = pp_Sender ppRes\<rparr>)) (\<lambda>_.
                 ret (\<lparr>rp_Status = 202,
                       rp_Body = session_reply ''starting'' gatewaySessionID workerSessionID workID\<rparr>,
                      Some \<lparr>ss_Request = r3, ss_Sender = pp_Sender ppRes, ss_WorkID = workID,
                            ss_GatewaySessionID = gatewaySessionID\<rparr>)))))))))"

definition streamingMiddleware ::
  "'d Mux \<Rightarrow> jsonDecoder \<Rightarrow> string \<Rightarrow> goerr option \<Rightarrow> Request \<Rightarrow>
   ('d, 'r, Response \<times> stream_start option) handler"
where
  "streamingMiddleware mx jd capability readErr r =
     andThen (sem_acquire (mx_semCap mx)) (\<lambda>got.
       if \<not> got then ret (http_Error ''capacity_exhausted'' 503, None)
       else andThen (streaming_open mx jd capability readErr r) (\<lambda>(resp, start).
         andThen (if start = None then sem_release else ret ()) (\<lambda>_. ret (resp, start))))"

text \<open>
  The session goroutine: \<open>Serve\<close> on the adapter built from \<open>start\<close>, then the semaphore
  slot. The module's collaborators and the context come in as parameters. The slot is released when
  \<open>Serve\<close> has returned or panicked.
\<close>

definition stream_session ::
  "'d Client \<Rightarrow> ('d, 'r) stream_world Ctx \<Rightarrow> ('d, 'r) stream_world Module \<Rightarrow> stream_start \<Rightarrow> input list \<Rightarrow>
   ('d, 'r) server \<Rightarrow> serve_result outcome \<times> ('d, 'r) server"
where
  "stream_session payee ctx m start inputs st =
     (case Serve ctx m (Some (ss_Request start))
             (Some (newPaymentSessionAdapter payee (ss_Sender start) (ss_WorkID start)
                      (registry_Delete (ss_GatewaySessionID start))))
             inputs \<lparr>st_server = st, st_closed = False\<rparr> of
        (r, s) \<Rightarrow>
          (r, if r = Ret StillRunning then st_server (world s)
              else (st_server (world s))\<lparr>sv_sem := sv_sem (st_server (world s)) - 1\<rparr>))"

section \<open>Top-up and end\<close>

definition streamingTopupHandler :: "'d Client \<Rightarrow> Request \<Rightarrow> ('d, 'r, Response) handler" where
  "streamingTopupHandler payee r =
     (let gatewaySessionID = TrimSpace (rq_PathValue r ''gateway_session_id'') in
      if gatewaySessionID = '''' then ret (http_Error ''gateway_session_id required'' 400)
      else
        andThen (gets (\<lambda>st. registry_Get gatewaySessionID (sv_sessions st))) (\<lambda>found.
        case found of
          None \<Rightarrow> ret (http_Error ''session not found'' 404)
        | Some info \<Rightarrow>
            let paymentB64 = header_Get (rq_Header r) ''X-Livepeer-Payment'' in
            if paymentB64 = '''' then ret (http_Error ''missing X-Livepeer-Payment'' 402)
            else case base64_DecodeString paymentB64 of
              Inl err \<Rightarrow> ret (http_Error (''X-Livepeer-Payment not base64: '' @ error_text err) 400)
            | Inr paymentBytes \<Rightarrow>
                andThen (payee_call (ProcessPayment payee paymentBytes (si_WorkID info))) (\<lambda>pp.
                case pp of
                  Inl err \<Rightarrow> ret (http_Error (''ProcessPayment: '' @ error_text err) 400)
                | Inr _ \<Rightarrow>
                    ret \<lparr>rp_Status = 202,
                         rp_Body = session_reply ''credited'' gatewaySessionID (si_WorkerSessionID info)
                                     (si_WorkID info)\<rparr>)))"

text \<open>\<open>terminator\<close> is nil or the module's \<open>TerminateSession\<close> on the state it shares.\<close>

definition streamingEndHandler ::
  "'d Client \<Rightarrow> (string \<Rightarrow> string \<Rightarrow> (('d, 'r) server, goerr option) proc) option \<Rightarrow> Request \<Rightarrow>
   ('d, 'r, Response) handler"
where
  "streamingEndHandler payee terminator r =
     (let gatewaySessionID = TrimSpace (rq_PathValue r ''gateway_session_id'') in
      if gatewaySessionID = '''' then ret (http_Error ''gateway_session_id required'' 400)
      else
        andThen (gets (\<lambda>st. registry_Get gatewaySessionID (sv_sessions st))) (\<lambda>found.
        case found of
          None \<Rightarrow> ret (http_Error ''session not found'' 404)
        | Some info \<Rightarrow>
            andThen (case terminator of
                       None \<Rightarrow> ret None
                     | Some t \<Rightarrow> t gatewaySessionID (si_BackendURL info)) (\<lambda>stopped.
            case stopped of
              Some err \<Rightarrow> ret (http_Error (''backend stop: '' @ error_text err) 502)
            | None \<Rightarrow>
                andThen (payee_call (CloseSession payee (si_Sender info) (si_WorkID info))) (\<lambda>closed.
                case closed of
                  Inl err \<Rightarrow> ret (http_Error (''CloseSession: '' @ error_text err) 400)
                | Inr _ \<Rightarrow>
                    andThen (sessions_update (registry_Delete gatewaySessionID)) (\<lambda>_.
                      ret \<lparr>rp_Status = 200,
                           rp_Body = session_reply ''ended'' gatewaySessionID (si_WorkerSessionID info)
                                       (si_WorkID info)\<rparr>)))))"

section \<open>Lemmas\<close>

text \<open>What an accepted session-open has established, in the order the middleware does it.\<close>

definition stream_accepted ::
  "'d Mux \<Rightarrow> jsonDecoder \<Rightarrow> string \<Rightarrow> Request \<Rightarrow> stream_start \<Rightarrow> ('d, 'r) server \<Rightarrow> ('d, 'r) server \<Rightarrow> bool"
where
  "stream_accepted mx jd capability r start st st' \<longleftrightarrow>
     sv_sem st' = sv_sem st \<and> sv_rec st' = sv_rec st \<and>
     (\<exists>paymentBytes offering route price opened d pp.
        base64_DecodeString (header_Get (rq_Header r) ''X-Livepeer-Payment'') = Inr paymentBytes \<and>
        header_Get (rq_Header r) ''X-Livepeer-Payment'' \<noteq> '''' \<and>
        ss_WorkID start = deriveWorkID paymentBytes \<and>
        extractGatewaySessionID jd (Some (r\<lparr>rq_Body := take streamingMaxBodyBytes (rq_Body r)\<rparr>))
          (take streamingMaxBodyBytes (rq_Body r)) = Inr (ss_GatewaySessionID start) \<and>
        extractStreamingOffering jd (Some r) (take streamingMaxBodyBytes (rq_Body r)) = Inr offering \<and>
        Lookup (mx_cfg mx) capability offering = Some route \<and>
        big_SetString (or_PricePerWorkUnitWei route) = Some price \<and>
        OpenSession (mx_payee mx)
          \<lparr>os_WorkID = ss_WorkID start, os_Capability = or_Capability route,
           os_Offering = or_Offering route, os_PricePerWorkUnitWei = Some price,
           os_WorkUnit = or_WorkUnit route\<rparr> (sv_payee st) = (Inr opened, d) \<and>
        ProcessPayment (mx_payee mx) paymentBytes (ss_WorkID start) d = (Inr pp, sv_payee st') \<and>
        ss_Sender start = pp_Sender pp \<and>
        sv_sessions st' = (sv_sessions st)(ss_GatewaySessionID start \<mapsto>
          \<lparr>si_GatewaySessionID = ss_GatewaySessionID start,
           si_WorkerSessionID = deriveWorkerSessionID (ss_WorkID start), si_WorkID = ss_WorkID start,
           si_BackendURL = or_BackendURL route, si_Sender = pp_Sender pp\<rparr>) \<and>
        ss_Request start = set_headers [(''X-Vtuber-Session-Id'', ss_GatewaySessionID start),
          (''X-Vtuber-Offering'', offering), (''X-Vtuber-Backend-Url'', or_BackendURL route),
          (''X-Vtuber-Worker-Session-Id'', deriveWorkerSessionID (ss_WorkID start)),
          (''X-Vtuber-Work-Id'', ss_WorkID start)]
          (r\<lparr>rq_Body := take streamingMaxBodyBytes (rq_Body r)\<rparr>))"

definition stream_refused :: "Response \<Rightarrow> ('d, 'r) server \<Rightarrow> ('d, 'r) server \<Rightarrow> bool" where
  "stream_refused resp st st' \<longleftrightarrow>
     400 \<le> rp_Status resp \<and> sv_sem st' = sv_sem st \<and> sv_rec st' = sv_rec st \<and> sv_sessions st' = sv_sessions st"

lemma refused_http_Error [simp]: "400 \<le> code \<Longrightarrow> stream_refused (http_Error msg code) st st"
  by (simp add: stream_refused_def http_Error_def)

lemma refused_payee [simp]:
  "400 \<le> code \<Longrightarrow> stream_refused (http_Error msg code) st (st\<lparr>sv_payee := d\<rparr>)"
  by (simp add: stream_refused_def http_Error_def)

lemma offering_of_request:
  "extractStreamingOffering jd (Some (set_headers [(''X-Vtuber-Session-Id'', gid)] (r\<lparr>rq_Body := b\<rparr>))) body =
     extractStreamingOffering jd (Some r) body"
  by (simp add: extractStreamingOffering_def set_headers_def)

lemma streaming_open_cases:
  assumes "streaming_open mx jd capability readErr r st = (out, st')"
  shows "(\<exists>resp. out = Ret (resp, None) \<and> stream_refused resp st st') \<or>
         (\<exists>resp start. out = Ret (resp, Some start) \<and> rp_Status resp = 202 \<and>
            stream_accepted mx jd capability r start st st')"
  using assms
  unfolding streaming_open_def Let_def
  by (auto simp: andThen_eq payee_call_eq sessions_update_eq split_sum_ex stream_accepted_def
      registry_Upsert_def offering_of_request
      split: option.split_asm sum.split_asm if_split_asm) (auto simp: set_headers_def)

lemma streamingMiddleware_cases:
  assumes "streamingMiddleware mx jd capability readErr r st = (out, st')"
  shows "(\<exists>resp. out = Ret (resp, None) \<and> stream_refused resp st st') \<or>
         (\<exists>resp start. out = Ret (resp, Some start) \<and> rp_Status resp = 202 \<and> sv_sem st < mx_semCap mx \<and>
            sv_sem st' = sv_sem st + 1 \<and>
            stream_accepted mx jd capability r start st (st'\<lparr>sv_sem := sv_sem st\<rparr>))"
proof (cases "sv_sem st < mx_semCap mx")
  case False
  with assms show ?thesis by (auto simp: streamingMiddleware_def andThen_def sem_acquire_def)
next
  case True
  let ?st = "st\<lparr>sv_sem := sv_sem st + 1\<rparr>"
  obtain o1 st1 where op: "streaming_open mx jd capability readErr r ?st = (o1, st1)" by fastforce
  from streaming_open_cases [OF op] show ?thesis
  proof (elim disjE exE conjE)
    fix resp
    assume "o1 = Ret (resp, None)" and "stream_refused resp ?st st1"
    with assms op True show ?thesis
      by (auto simp: streamingMiddleware_def andThen_def sem_acquire_def sem_release_def modify_def ret_def
          stream_refused_def)
  next
    fix resp start
    assume o1: "o1 = Ret (resp, Some start)" and resp: "rp_Status resp = 202"
      and acc: "stream_accepted mx jd capability r start ?st st1"
    from o1 assms op True have "out = Ret (resp, Some start)" and "st' = st1"
      by (auto simp: streamingMiddleware_def andThen_def sem_acquire_def ret_def)
    moreover have "sv_sem st1 = sv_sem st + 1" using acc by (auto simp: stream_accepted_def)
    moreover have "stream_accepted mx jd capability r start st (st1\<lparr>sv_sem := sv_sem st\<rparr>)"
      using acc unfolding stream_accepted_def by simp
    ultimately show ?thesis using True resp by blast
  qed
qed

lemma extractGatewaySessionID_nonempty:
  "extractGatewaySessionID jd req body = Inr gid \<Longrightarrow> gid \<noteq> ''''"
  by (auto simp: extractGatewaySessionID_def Let_def split: option.split_asm sum.split_asm if_split_asm prod.split_asm)

lemma deriveWorkID_nonempty [simp]: "deriveWorkID b \<noteq> []" "[] \<noteq> deriveWorkID b"
proof -
  have "length (deriveWorkID b) = 64" by (simp add: deriveWorkID_def)
  then show "deriveWorkID b \<noteq> []" and "[] \<noteq> deriveWorkID b" by auto
qed

lemma stream_request_headers:
  assumes "gid \<noteq> ''''" and "workID \<noteq> ''''"
    and "rq = set_headers [(''X-Vtuber-Session-Id'', gid), (''X-Vtuber-Offering'', offering),
           (''X-Vtuber-Backend-Url'', url), (''X-Vtuber-Worker-Session-Id'', deriveWorkerSessionID workID),
           (''X-Vtuber-Work-Id'', workID)] r"
  shows "extractSessionID (Some rq) = gid" and "extractWorkID (Some rq) = workID"
    and "extractWorkerSessionID (Some rq) fallback = ''worker_'' @ workID"
    and "backendURLForRequest (Some rq) dflt = (if TrimSpace url = '''' then dflt else TrimSpace url)"
  using assms
  by (simp_all add: extractSessionID_def extractWorkID_def extractWorkerSessionID_def backendURLForRequest_def
      set_headers_def deriveWorkerSessionID_def Let_def)

section \<open>Properties\<close>

text \<open>C24: The session-open middleware answers 202 exactly when it starts a session. Then exactly one
  free semaphore slot has been taken and stays with the session; on every other answer, which is
  an error status, the slots, the session registry and the recorder are as before.\<close>

theorem streaming_slot_accounting:
  assumes "streamingMiddleware mx jd capability readErr r st = (out, st')"
  shows "\<exists>resp start. out = Ret (resp, start) \<and> (rp_Status resp = 202 \<longleftrightarrow> start \<noteq> None) \<and>
     (if start = None
      then 400 \<le> rp_Status resp \<and> sv_sem st' = sv_sem st \<and> sv_sessions st' = sv_sessions st
      else sv_sem st < mx_semCap mx \<and> sv_sem st' = sv_sem st + 1)"
  using streamingMiddleware_cases [OF assms]
proof (elim disjE exE conjE)
  fix resp
  assume "out = Ret (resp, None)" and "stream_refused resp st st'"
  then show ?thesis by (intro exI [of _ resp] exI [of _ None]) (auto simp: stream_refused_def)
qed auto

text \<open>C12: No session starts unpaid. When the middleware starts a session, the payment header decoded,
  the offering the request names was in the catalog, and the daemon first opened a session under the hash of the payment
  with the capability, offering, work unit and price of that route, and then accepted the
  payment for it; the sender it named is the one the session will be charged to, and the registry
  holds that session's data under its gateway id.\<close>

theorem streaming_starts_paid:
  assumes "streamingMiddleware mx jd capability readErr r st = (Ret (resp, Some start), st')"
  shows "\<exists>paymentBytes offering route price opened d pp.
     base64_DecodeString (header_Get (rq_Header r) ''X-Livepeer-Payment'') = Inr paymentBytes \<and>
     ss_WorkID start = deriveWorkID paymentBytes \<and>
     extractStreamingOffering jd (Some r) (take streamingMaxBodyBytes (rq_Body r)) = Inr offering \<and>
     Lookup (mx_cfg mx) capability offering = Some route \<and>
     big_SetString (or_PricePerWorkUnitWei route) = Some price \<and>
     OpenSession (mx_payee mx)
       \<lparr>os_WorkID = ss_WorkID start, os_Capability = or_Capability route, os_Offering = or_Offering route,
        os_PricePerWorkUnitWei = Some price, os_WorkUnit = or_WorkUnit route\<rparr> (sv_payee st) = (Inr opened, d) \<and>
     ProcessPayment (mx_payee mx) paymentBytes (ss_WorkID start) d = (Inr pp, sv_payee st') \<and>
     ss_Sender start = pp_Sender pp \<and>
     registry_Get (ss_GatewaySessionID start) (sv_sessions st') =
       Some \<lparr>si_GatewaySessionID = ss_GatewaySessionID start,
             si_WorkerSessionID = deriveWorkerSessionID (ss_WorkID start), si_WorkID = ss_WorkID start,
             si_BackendURL = or_BackendURL route, si_Sender = pp_Sender pp\<rparr>"
  using streamingMiddleware_cases [OF assms]
  by (auto simp: stream_accepted_def registry_Get_def)

text \<open>The clamp of a balance to 64 bits stays in range, is exact on values that fit, and never
  changes whether the balance is negative, which is all the session uses it for.\<close>

lemma wei64_clamps:
  "is_int64 (wei64 b) \<and> (wei64 (Some v) < 0 \<longleftrightarrow> v < 0) \<and> (is_int64 v \<longrightarrow> wei64 (Some v) = v)"
  by (auto simp: wei64_def is_int64_def split: option.splits)

text \<open>C27: The session knows who it is and where to go. On the request the middleware hands over, the
  module reads the gateway session id, the worker session id derived from the work id, and the work id
  that the daemon session was opened under; and it forwards the session to the backend that the
  configuration has for the offering the request named, the same that the registry entry
  names for the session's end (blanks around the URL trimmed, and the module's own URL when it is
  blank).\<close>

theorem streaming_session_identity:
  assumes "streamingMiddleware mx jd capability readErr r st = (Ret (resp, Some start), st')"
  shows "let env = serve_env ctx m (Some (ss_Request start)) ps in
     se_sessionID env = ss_GatewaySessionID start \<and>
     se_workerSessionID env = ''worker_'' @ ss_WorkID start \<and> se_workID env = ss_WorkID start \<and>
     (\<exists>offering route info.
        extractStreamingOffering jd (Some r) (take streamingMaxBodyBytes (rq_Body r)) = Inr offering \<and>
        Lookup (mx_cfg mx) capability offering = Some route \<and>
        backendURLForRequest (Some (ss_Request start)) (md_BackendURL m) =
          (if TrimSpace (or_BackendURL route) = '''' then md_BackendURL m else TrimSpace (or_BackendURL route)) \<and>
        registry_Get (ss_GatewaySessionID start) (sv_sessions st') = Some info \<and>
        si_BackendURL info = or_BackendURL route)"
proof -
  let ?rq = "ss_Request start"
  have acc: "stream_accepted mx jd capability r start st (st'\<lparr>sv_sem := sv_sem st\<rparr>)"
    using streamingMiddleware_cases [OF assms] by auto
  then have gid: "ss_GatewaySessionID start \<noteq> ''''" and wid: "ss_WorkID start \<noteq> ''''"
    by (auto simp: stream_accepted_def dest: extractGatewaySessionID_nonempty)
  from acc obtain offering route pp where route: "Lookup (mx_cfg mx) capability offering = Some route"
    and offer: "extractStreamingOffering jd (Some r) (take streamingMaxBodyBytes (rq_Body r)) = Inr offering"
    and reg: "sv_sessions (st'\<lparr>sv_sem := sv_sem st\<rparr>) = (sv_sessions st)(ss_GatewaySessionID start \<mapsto>
          \<lparr>si_GatewaySessionID = ss_GatewaySessionID start,
           si_WorkerSessionID = deriveWorkerSessionID (ss_WorkID start), si_WorkID = ss_WorkID start,
           si_BackendURL = or_BackendURL route, si_Sender = pp_Sender (pp :: ProcessPaymentResult)\<rparr>)"
    and rq: "?rq = set_headers [(''X-Vtuber-Session-Id'', ss_GatewaySessionID start),
          (''X-Vtuber-Offering'', offering), (''X-Vtuber-Backend-Url'', or_BackendURL route),
          (''X-Vtuber-Worker-Session-Id'', deriveWorkerSessionID (ss_WorkID start)),
          (''X-Vtuber-Work-Id'', ss_WorkID start)]
          (r\<lparr>rq_Body := take streamingMaxBodyBytes (rq_Body r)\<rparr>)"
    unfolding stream_accepted_def by blast
  note hs = stream_request_headers [OF gid wid rq]
  show ?thesis
    unfolding Let_def serve_env_def using route offer reg hs by (auto simp: registry_Get_def)
qed

text \<open>C29: A top-up is credited to the work id the session was opened under: it answers 202 exactly
  when the registry holds the session and the daemon accepts the payment for the work id the
  registry names, and it never changes the registry or the semaphore.\<close>

theorem streaming_topup_credits_session:
  assumes "streamingTopupHandler payee r st = (Ret resp, st')"
  shows "sv_sessions st' = sv_sessions st \<and> sv_sem st' = sv_sem st \<and>
     (rp_Status resp = 202 \<longleftrightarrow>
       (\<exists>info paymentBytes pp.
          TrimSpace (rq_PathValue r ''gateway_session_id'') \<noteq> '''' \<and>
          registry_Get (TrimSpace (rq_PathValue r ''gateway_session_id'')) (sv_sessions st) = Some info \<and>
          header_Get (rq_Header r) ''X-Livepeer-Payment'' \<noteq> '''' \<and>
          base64_DecodeString (header_Get (rq_Header r) ''X-Livepeer-Payment'') = Inr paymentBytes \<and>
          ProcessPayment payee paymentBytes (si_WorkID info) (sv_payee st) = (Inr pp, sv_payee st')))"
  using assms
  by (auto simp: streamingTopupHandler_def Let_def andThen_eq payee_call_eq split_sum_ex http_Error_def
      split: option.splits sum.splits if_splits)

text \<open>C28: The end handler tears down in order: it answers 200 exactly when the session is in the
  registry, the module's terminator stopped the backend (when the module has one) and the daemon closed the
  payment session of that entry; then the entry is gone and every other entry is as it was after the
  terminator ran. On every other answer the handler itself removes nothing.\<close>

theorem streaming_end_in_order:
  assumes "streamingEndHandler payee (Some t) r st = (Ret resp, st')"
    and "gid = TrimSpace (rq_PathValue r ''gateway_session_id'')"
  shows "rp_Status resp = 200 \<longleftrightarrow>
    (\<exists>info st1 d.
       gid \<noteq> '''' \<and> registry_Get gid (sv_sessions st) = Some info \<and>
       t gid (si_BackendURL info) st = (Ret None, st1) \<and>
       CloseSession payee (si_Sender info) (si_WorkID info) (sv_payee st1) = (Inr (), d) \<and>
       st' = st1\<lparr>sv_payee := d, sv_sessions := (sv_sessions st1)(gid := None)\<rparr>)"
  using assms
  by (auto simp: streamingEndHandler_def Let_def andThen_eq payee_call_eq sessions_update_eq split_sum_ex
      http_Error_def registry_Delete_def split: option.splits if_splits)

section \<open>Witnesses\<close>

definition sample_jd :: jsonDecoder where
  "sample_jd = \<lparr>jd_session = (\<lambda>b. Inl io_EOF), jd_offering = (\<lambda>b. Inl io_EOF)\<rparr>"

definition sample_mux :: "Fake Mux" where
  "sample_mux = NewMux (projectFromYAML sample_yaml) fakeClient"

definition sample_request :: Request where
  "sample_request =
     \<lparr>rq_Header = [''X-Livepeer-Payment'' \<mapsto> ''cA=='', ''X-Vtuber-Session-Id'' \<mapsto> ''g'',
                   ''X-Vtuber-Offering'' \<mapsto> ''hd''],
      rq_Body = ''{}'', rq_PathValue = (\<lambda>k. ''g'')\<rparr>"

definition sample_server :: "(Fake, unit) server" where
  "sample_server = \<lparr>sv_payee = NewFake, sv_rec = (), sv_sem = 0, sv_sessions = Map.empty\<rparr>"

lemma sample_semCap [simp]: "mx_semCap sample_mux = 1"
  by (simp add: sample_mux_def NewMux_def projectFromYAML_def config_New_def sample_yaml_def)

lemma sample_header:
  "header_Get (rq_Header sample_request) ''X-Livepeer-Payment'' = ''cA==''"
  "header_Get (rq_Header sample_request) ''X-Vtuber-Session-Id'' = ''g''"
  "header_Get (rq_Header sample_request) ''X-Vtuber-Offering'' = ''hd''"
  by (simp_all add: sample_request_def header_Get_def)

lemma sample_trim: "TrimSpace ''g'' = ''g''" "TrimSpace ''hd'' = ''hd''"
  by code_simp+

lemma sample_base64: "base64_DecodeString ''cA=='' = Inr ''p''"
  by code_simp

lemma sample_gid: "extractGatewaySessionID sample_jd (Some (sample_request\<lparr>rq_Body := b\<rparr>)) b' = Inr ''g''"
  by (simp add: extractGatewaySessionID_def sample_header sample_trim)

lemma sample_offering:
  "extractStreamingOffering sample_jd
     (Some (set_headers [(''X-Vtuber-Session-Id'', ''g'')] (sample_request\<lparr>rq_Body := b\<rparr>))) b' = Inr ''hd''"
  by (simp add: extractStreamingOffering_def set_headers_def sample_header sample_trim)

lemma sample_mux_cfg: "mx_cfg sample_mux = projectFromYAML sample_yaml" "mx_payee sample_mux = fakeClient"
  by (simp_all add: sample_mux_def NewMux_def Let_def)

lemma sample_payment:
  "\<exists>f1 pp f2. fake_OpenSession q NewFake = (Inr OpenSessionOutcomeOpened, f1) \<and>
     fake_ProcessPayment b (os_WorkID q) f1 = (Inr pp, f2)"
  by (simp add: fake_OpenSession_def fake_ProcessPayment_def NewFake_def Let_def)

lemma sample_stream:
  "\<exists>resp start st'. streamingMiddleware sample_mux sample_jd ''livepeer:vtuber-session'' None sample_request
     sample_server = (Ret (resp, Some start), st')"
proof -
  let ?w = "deriveWorkID ''p''"
  let ?q = "\<lparr>os_WorkID = ?w, os_Capability = ''livepeer:vtuber-session'', os_Offering = ''hd'',
             os_PricePerWorkUnitWei = Some 6250, os_WorkUnit = ''second''\<rparr>"
  obtain f1 pp f2 where "fake_OpenSession ?q NewFake = (Inr OpenSessionOutcomeOpened, f1)"
    and "fake_ProcessPayment ''p'' ?w f1 = (Inr pp, f2)"
    using sample_payment [of ?q "''p''"] by auto
  then show ?thesis
    by (simp add: streamingMiddleware_def andThen_def sem_acquire_def sample_server_def streaming_open_def
        Let_def sample_header sample_base64 sample_gid sample_offering sample_mux_cfg sample_Lookup
        sample_SetString payee_call_def fakeClient_def ret_def sessions_update_def modify_def)
qed

theorem streaming_slot_accounting_witness:
  "\<exists>resp start st'. streamingMiddleware sample_mux sample_jd ''livepeer:vtuber-session'' None sample_request
     sample_server = (Ret (resp, start), st') \<and> (rp_Status resp = 202 \<longleftrightarrow> start \<noteq> None) \<and> sv_sem st' = 1"
proof -
  obtain resp start st' where s: "streamingMiddleware sample_mux sample_jd ''livepeer:vtuber-session'' None
      sample_request sample_server = (Ret (resp, Some start), st')"
    using sample_stream by blast
  from s streaming_slot_accounting [OF s] show ?thesis by (auto simp: sample_server_def)
qed

theorem streaming_starts_paid_witness:
  "\<exists>resp start st' paymentBytes d pp. streamingMiddleware sample_mux sample_jd ''livepeer:vtuber-session'' None
     sample_request sample_server = (Ret (resp, Some start), st') \<and>
     ProcessPayment fakeClient paymentBytes (ss_WorkID start) d = (Inr pp, sv_payee st') \<and>
     ss_Sender start = pp_Sender pp"
proof -
  obtain resp start st' where s: "streamingMiddleware sample_mux sample_jd ''livepeer:vtuber-session'' None
      sample_request sample_server = (Ret (resp, Some start), st')"
    using sample_stream by blast
  from s streaming_starts_paid [OF s] show ?thesis unfolding sample_mux_cfg by blast
qed

theorem streaming_session_identity_witness:
  "\<exists>resp start st'. streamingMiddleware sample_mux sample_jd ''livepeer:vtuber-session'' None sample_request
     sample_server = (Ret (resp, Some start), st') \<and>
     se_sessionID (serve_env sample_ctx sample_module (Some (ss_Request start)) sample_ps) = ss_GatewaySessionID start \<and>
     (\<exists>route info. Lookup (mx_cfg sample_mux) ''livepeer:vtuber-session'' ''hd'' = Some route \<and>
        registry_Get (ss_GatewaySessionID start) (sv_sessions st') = Some info \<and> si_BackendURL info = or_BackendURL route)"
proof -
  obtain resp start st' where s: "streamingMiddleware sample_mux sample_jd ''livepeer:vtuber-session'' None
      sample_request sample_server = (Ret (resp, Some start), st')"
    using sample_stream by blast
  have "extractStreamingOffering sample_jd (Some sample_request) b = Inr ''hd''" for b
    by (simp add: extractStreamingOffering_def sample_header sample_trim Let_def)
  with s streaming_session_identity [OF s, of sample_ctx sample_module sample_ps] show ?thesis
    by (auto simp: Let_def)
qed

definition sample_info :: streamingSessionInfo where
  "sample_info = \<lparr>si_GatewaySessionID = ''g'', si_WorkerSessionID = ''worker_w'', si_WorkID = ''w'',
                  si_BackendURL = ''http://r/s'', si_Sender = ''s''\<rparr>"

definition sample_running :: "(Fake, unit) server" where
  "sample_running = \<lparr>sv_payee = sample_fake, sv_rec = (), sv_sem = 1, sv_sessions = [''g'' \<mapsto> sample_info]\<rparr>"

theorem streaming_topup_credits_session_witness:
  "\<exists>resp st'. streamingTopupHandler fakeClient sample_request sample_running = (Ret resp, st') \<and>
     sv_sessions st' = [''g'' \<mapsto> sample_info]"
proof -
  obtain resp st' where h: "streamingTopupHandler fakeClient sample_request sample_running = (Ret resp, st')"
    by (cases "fst (streamingTopupHandler fakeClient sample_request sample_running)")
       (auto simp: prod_eq_iff streamingTopupHandler_def Let_def sample_request_def sample_trim andThen_def
          gets_def ret_def payee_call_def split: option.splits prod.splits sum.splits if_splits)
  from h streaming_topup_credits_session [OF h] show ?thesis by (auto simp: sample_running_def)
qed

lemma sample_close: "\<exists>d. fake_CloseSession ''s'' ''w'' sample_fake = (Inr (), d)"
  by (simp add: fake_CloseSession_def sample_fake_def NewFake_def Let_def)

theorem streaming_end_in_order_witness:
  "\<exists>resp st'. streamingEndHandler fakeClient (Some (\<lambda>g u. ret None)) sample_request sample_running = (Ret resp, st') \<and>
     rp_Status resp = 200 \<and> sv_sessions st' ''g'' = None"
proof -
  obtain d where d: "fake_CloseSession ''s'' ''w'' sample_fake = (Inr (), d)" using sample_close by blast
  let ?st = "sample_running\<lparr>sv_payee := d, sv_sessions := (sv_sessions sample_running)(''g'' := None)\<rparr>"
  have "\<exists>resp. streamingEndHandler fakeClient (Some (\<lambda>g u. ret None)) sample_request sample_running = (Ret resp, ?st)"
    using d
    by (simp add: streamingEndHandler_def Let_def sample_request_def sample_trim andThen_def gets_def ret_def
        payee_call_def fakeClient_def sample_running_def sample_info_def registry_Get_def registry_Delete_def
        sessions_update_def modify_def)
  then obtain resp where h: "streamingEndHandler fakeClient (Some (\<lambda>g u. ret None)) sample_request sample_running
      = (Ret resp, ?st)" by blast
  have "TrimSpace (rq_PathValue sample_request ''gateway_session_id'') = ''g''"
    by (simp add: sample_request_def sample_trim)
  from streaming_end_in_order [OF h this [symmetric]] d have "rp_Status resp = 200"
    by (auto simp: sample_running_def registry_Get_def sample_info_def ret_def fakeClient_def)
  with h show ?thesis by auto
qed

end
