(* ===== verification/Paid_Route.thy ===== *)
theory Paid_Route
  imports Streaming
begin

text \<open>
  \<^verbatim>\<open>runtime/http/middleware.go\<close>: \<open>paymentMiddleware\<close>, the pipeline of one-shot paid requests, and
  the \<open>Module\<close> interface of \<^verbatim>\<open>service/modules/module.go\<close> it serves. A request runs on the shared
  server state, its own status writer, the model label of its metrics and the module's state; the
  two \<open>defer\<close>s of the handler are \<open>with_defer\<close>, which runs its cleanup also when the body
  panics and then goes on panicking. A module sees of the request what the interface hands it: its
  \<open>Serve\<close> yields the response operations it made and how it ended. Log lines are left out.
\<close>

section \<open>The Module interface\<close>

record 'm CapabilityModule =
  cm_Capability :: string
  cm_HTTPMethod :: string
  cm_HTTPPath :: string
  cm_Unit :: string
  cm_ExtractModel :: "bytes \<Rightarrow> ('m, goerr + string) proc"
  cm_EstimateWorkUnits :: "bytes \<Rightarrow> string \<Rightarrow> ('m, goerr + int) proc"
  cm_Serve :: "Request \<Rightarrow> bytes \<Rightarrow> string \<Rightarrow> string \<Rightarrow> 'm \<Rightarrow> (writer_op list \<times> (goerr + int) outcome) \<times> 'm"

section \<open>State of a request\<close>

record ('d, 'r, 'm) paidRouteDeps =
  pd_module :: "'m CapabilityModule"
  pd_cfg :: Config
  pd_payee :: "'d Client"
  pd_sem :: "nat option"
  pd_recorder :: "'r recorder option"

record ('d, 'r, 'm) paid_request =
  pq_server :: "('d, 'r) server"
  pq_sw :: statusWriter
  pq_modelLabel :: string
  pq_module :: 'm

type_synonym ('d, 'r, 'm, 'a) paid = "(('d, 'r, 'm) paid_request, 'a) proc"

definition on_server :: "('d, 'r, 'a) handler \<Rightarrow> ('d, 'r, 'm, 'a) paid" where
  "on_server h s = (case h (pq_server s) of (x, st) \<Rightarrow> (x, s\<lparr>pq_server := st\<rparr>))"

definition on_module :: "('m, 'a) proc \<Rightarrow> ('d, 'r, 'm, 'a) paid" where
  "on_module h s = (case h (pq_module s) of (x, m) \<Rightarrow> (x, s\<lparr>pq_module := m\<rparr>))"

definition rec_of :: "('d, 'r, 'm) paidRouteDeps \<Rightarrow> 'r recorder" where
  "rec_of deps = (case pd_recorder deps of None \<Rightarrow> (\<lambda>m r. r) | Some rec \<Rightarrow> rec)"

definition emit_metric :: "('d, 'r, 'm) paidRouteDeps \<Rightarrow> metric_call \<Rightarrow> ('d, 'r, 'm, unit) paid" where
  "emit_metric deps m = on_server (record_metric (rec_of deps) m)"

definition write_ops :: "writer_op list \<Rightarrow> ('d, 'r, 'm, unit) paid" where
  "write_ops ops = modify (\<lambda>s. s\<lparr>pq_sw := fold statusWriter_op ops (pq_sw s)\<rparr>)"

definition reply_error :: "int \<Rightarrow> string \<Rightarrow> string \<Rightarrow> ('d, 'r, 'm, unit) paid" where
  "reply_error status code detail =
     (let resp = writeJSONError status code detail
      in write_ops [WriteHeader (rp_Status resp), Write (rp_Body resp)])"

definition nil_dereference :: string where
  "nil_dereference = ''invalid memory address or nil pointer dereference''"

definition em_dash :: string where "em_dash = [CHR 0xE2, CHR 0x80, CHR 0x94]"

definition with_defer :: "('s, 'a) proc \<Rightarrow> ('s, unit) proc \<Rightarrow> ('s, 'a) proc" where
  "with_defer body fin = deferred body (\<lambda>r. andThen fin (\<lambda>_ s. (r, s)))"

section \<open>The pipeline\<close>

definition PaymentHeaderName :: string where "PaymentHeaderName = ''livepeer-payment''"

definition maxPaidRequestBodyBytes :: nat where "maxPaidRequestBodyBytes = 16 * 2 ^ 20"

text \<open>\<open>readErr\<close> is the error of the request body's reader within the limit, if it has one.\<close>

definition read_body :: "goerr option \<Rightarrow> Request \<Rightarrow> goerr + bytes" where
  "read_body readErr r =
     (case readErr of
        Some err \<Rightarrow> Inl err
      | None \<Rightarrow> if length (rq_Body r) > maxPaidRequestBodyBytes
                then Inl (ErrorText ''http: request body too large'') else Inr (rq_Body r))"

text \<open>Steps 8 and 9: serve, count, and debit what the estimate did not cover.\<close>

definition paid_serve ::
  "('d, 'r, 'm) paidRouteDeps \<Rightarrow> Request \<Rightarrow> bytes \<Rightarrow> string \<Rightarrow> string \<Rightarrow> bytes \<Rightarrow> string \<Rightarrow> int \<Rightarrow>
   ('d, 'r, 'm, unit) paid"
where
  "paid_serve deps r body model backendURL sender workID estimate =
     andThen (on_module (\<lambda>m. case cm_Serve (pd_module deps) r body model backendURL m of
                               (x, m') \<Rightarrow> (Ret x, m'))) (\<lambda>(ops, served).
     andThen (write_ops ops) (\<lambda>_.
     andThen (\<lambda>s. (served, s)) (\<lambda>res.
     case res of
       Inl err \<Rightarrow> ret ()
     | Inr actual \<Rightarrow>
         andThen (if actual > 0
                  then emit_metric deps (AddWorkUnits (cm_Capability (pd_module deps)) model
                         (cm_Unit (pd_module deps)) actual)
                  else ret ()) (\<lambda>_.
         if actual > estimate
         then andThen (on_server (payee_call (DebitBalance (pd_payee deps) sender workID
                         (wrap64 (actual - estimate)) 2))) (\<lambda>_. ret ())
         else ret ()))))"

text \<open>Steps 5 to 7: open the daemon session, process the payment, estimate, debit the estimate.\<close>

definition paid_charge ::
  "('d, 'r, 'm) paidRouteDeps \<Rightarrow> Request \<Rightarrow> bytes \<Rightarrow> string \<Rightarrow> OfferingRoute \<Rightarrow> int \<Rightarrow> bytes \<Rightarrow> string \<Rightarrow>
   ('d, 'r, 'm, unit) paid"
where
  "paid_charge deps r body model route pricePerUnit paymentBytes workID =
     andThen (on_server (payee_call (OpenSession (pd_payee deps)
                \<lparr>os_WorkID = workID, os_Capability = cm_Capability (pd_module deps),
                 os_Offering = or_Offering route, os_PricePerWorkUnitWei = Some pricePerUnit,
                 os_WorkUnit = or_WorkUnit route\<rparr>))) (\<lambda>opened.
     case opened of
       Inl err \<Rightarrow>
         andThen (emit_metric deps (IncPaymentRejection PaymentRejectProcessPayment)) (\<lambda>_.
         reply_error 402 ''payment_rejected'' (''OpenSession: '' @ error_text err))
     | Inr _ \<Rightarrow>
     andThen (on_server (payee_call (ProcessPayment (pd_payee deps) paymentBytes workID))) (\<lambda>pp.
     case pp of
       Inl err \<Rightarrow>
         andThen (emit_metric deps (IncPaymentRejection PaymentRejectProcessPayment)) (\<lambda>_.
         reply_error 402 ''payment_rejected'' (error_text err))
     | Inr ppRes \<Rightarrow>
     andThen (on_module (cm_EstimateWorkUnits (pd_module deps) body model)) (\<lambda>est.
     case est of
       Inl err \<Rightarrow> reply_error 400 ''invalid_request'' (''could not estimate work units: '' @ error_text err)
     | Inr est0 \<Rightarrow>
     let estimate = (if est0 < 0 then 0 else est0) in
     andThen (on_server (payee_call (DebitBalance (pd_payee deps) (pp_Sender ppRes) workID estimate 1))) (\<lambda>db.
     case db of
       Inl err \<Rightarrow>
         andThen (emit_metric deps (IncPaymentRejection PaymentRejectDebitError)) (\<lambda>_.
         reply_error 502 ''backend_unavailable'' (''DebitBalance: '' @ error_text err))
     | Inr None \<Rightarrow> (\<lambda>s. (Panic nil_dereference, s))
     | Inr (Some balance) \<Rightarrow>
         if balance < 0
         then andThen (emit_metric deps (IncPaymentRejection PaymentRejectInsufficientBalance)) (\<lambda>_.
              reply_error 402 ''insufficient_balance'' ''balance after estimate debit is negative'')
         else paid_serve deps r body model (or_BackendURL route) (pp_Sender ppRes) workID estimate))))"

text \<open>Steps 1 to 4: body, payment header, work id, model and route.\<close>

definition paid_admit ::
  "('d, 'r, 'm) paidRouteDeps \<Rightarrow> goerr option \<Rightarrow> Request \<Rightarrow> ('d, 'r, 'm, unit) paid"
where
  "paid_admit deps readErr r =
     (case read_body readErr r of
        Inl err \<Rightarrow> reply_error 400 ''invalid_request'' (''failed to read request body: '' @ error_text err)
      | Inr body \<Rightarrow>
     let hdr = header_Get (rq_Header r) (CanonicalHeaderKey PaymentHeaderName) in
     if hdr = ''''
     then andThen (emit_metric deps (IncPaymentRejection PaymentRejectHeaderMissing)) (\<lambda>_.
          reply_error 402 ''missing_or_invalid_payment'' (''missing '' @ PaymentHeaderName @ '' header''))
     else case base64_DecodeString hdr of
        Inl _ \<Rightarrow>
          andThen (emit_metric deps (IncPaymentRejection PaymentRejectHeaderInvalid)) (\<lambda>_.
          reply_error 402 ''missing_or_invalid_payment'' ''header is not valid base64'')
      | Inr paymentBytes \<Rightarrow>
     let workID = deriveWorkID paymentBytes in
     andThen (on_module (cm_ExtractModel (pd_module deps) body)) (\<lambda>extracted.
     case extracted of
       Inl err \<Rightarrow>
         reply_error 400 ''invalid_request'' (''could not extract model from request body: '' @ error_text err)
     | Inr model \<Rightarrow>
     andThen (modify (\<lambda>s. s\<lparr>pq_modelLabel := model\<rparr>)) (\<lambda>_.
     case Lookup (pd_cfg deps) (cm_Capability (pd_module deps)) model of
       None \<Rightarrow> reply_error 404 ''capability_not_found''
                 (''no backend configured for capability='' @ cm_Capability (pd_module deps)
                  @ '' model='' @ model)
     | Some route \<Rightarrow>
         (case big_SetString (or_PricePerWorkUnitWei route) of
            None \<Rightarrow> reply_error 500 ''internal_error'' ''invalid route price_per_work_unit_wei''
          | Some pricePerUnit \<Rightarrow>
              paid_charge deps r body model route pricePerUnit paymentBytes workID))))"

text \<open>The deferred accounting of a request: \<open>ctxErr\<close> is \<open>ctx.Err()\<close> at that time.\<close>

definition count_request :: "('d, 'r, 'm) paidRouteDeps \<Rightarrow> goerr option \<Rightarrow> ('d, 'r, 'm, unit) paid" where
  "count_request deps ctxErr s =
     (let capLabel = cm_Capability (pd_module deps);
          outcome = classifyOutcome ctxErr (sw_status (pq_sw s))
      in andThen (emit_metric deps (IncRequest capLabel (pq_modelLabel s) outcome)) (\<lambda>_.
         emit_metric deps (ObserveRequest capLabel (pq_modelLabel s) outcome)) s)"

definition set_inflight :: "('d, 'r, 'm) paidRouteDeps \<Rightarrow> ('d, 'r, 'm, unit) paid" where
  "set_inflight deps =
     andThen (gets (\<lambda>s. sv_sem (pq_server s))) (\<lambda>n. emit_metric deps (SetInflightRequests (int n)))"

definition paid_counted ::
  "('d, 'r, 'm) paidRouteDeps \<Rightarrow> goerr option \<Rightarrow> goerr option \<Rightarrow> Request \<Rightarrow> ('d, 'r, 'm, unit) paid"
where
  "paid_counted deps ctxErr readErr r = with_defer (paid_admit deps readErr r) (count_request deps ctxErr)"

definition paid_gate ::
  "('d, 'r, 'm) paidRouteDeps \<Rightarrow> goerr option \<Rightarrow> goerr option \<Rightarrow> Request \<Rightarrow> ('d, 'r, 'm, unit) paid"
where
  "paid_gate deps ctxErr readErr r =
     (case pd_sem deps of
        None \<Rightarrow> paid_counted deps ctxErr readErr r
      | Some capacity \<Rightarrow>
          let capLabel = cm_Capability (pd_module deps) in
          andThen (on_server (sem_acquire capacity)) (\<lambda>got.
          if got
          then andThen (set_inflight deps) (\<lambda>_.
               with_defer (paid_counted deps ctxErr readErr r)
                 (andThen (on_server sem_release) (\<lambda>_. set_inflight deps)))
          else andThen (emit_metric deps (IncCapacityRejection capLabel)) (\<lambda>_.
               andThen (reply_error 503 ''capacity_exhausted''
                 (''worker at max_concurrent_requests '' @ em_dash @ '' retry after in-flight requests drain'')) (\<lambda>_.
               andThen (emit_metric deps (IncRequest capLabel LabelUnset OutcomeRequest5xx)) (\<lambda>_.
               emit_metric deps (ObserveRequest capLabel LabelUnset OutcomeRequest5xx))))))"

definition paymentMiddleware ::
  "('d, 'r, 'm) paidRouteDeps \<Rightarrow> goerr option \<Rightarrow> goerr option \<Rightarrow> Request \<Rightarrow> 'm \<Rightarrow> ('d, 'r) server \<Rightarrow>
   unit outcome \<times> ('d, 'r, 'm) paid_request"
where
  "paymentMiddleware deps ctxErr readErr r m st =
     paid_gate deps ctxErr readErr r
       \<lparr>pq_server = st, pq_sw = new_statusWriter, pq_modelLabel = LabelUnset, pq_module = m\<rparr>"

section \<open>Lemmas: equations\<close>

lemma on_server_eq:
  "on_server h s = (r, s') \<longleftrightarrow> (\<exists>st. h (pq_server s) = (r, st) \<and> s' = s\<lparr>pq_server := st\<rparr>)"
  by (auto simp: on_server_def split: prod.splits)

lemma on_module_eq:
  "on_module h s = (r, s') \<longleftrightarrow> (\<exists>m. h (pq_module s) = (r, m) \<and> s' = s\<lparr>pq_module := m\<rparr>)"
  by (auto simp: on_module_def split: prod.splits)

lemma emit_metric_eq:
  "emit_metric deps m s = (r, s') \<longleftrightarrow>
     r = Ret () \<and> s' = s\<lparr>pq_server := pq_server s\<lparr>sv_rec := rec_of deps m (sv_rec (pq_server s))\<rparr>\<rparr>"
  by (auto simp: emit_metric_def on_server_eq record_metric_def)

lemma write_ops_eq:
  "write_ops ops s = (r, s') \<longleftrightarrow> r = Ret () \<and> s' = s\<lparr>pq_sw := fold statusWriter_op ops (pq_sw s)\<rparr>"
  by (auto simp: write_ops_def)

lemma with_defer_eq:
  assumes "\<And>s. fst (fin s) = Ret ()"
  shows "with_defer body fin s = (r, s') \<longleftrightarrow> (\<exists>t. body s = (r, t) \<and> fin t = (Ret (), s'))"
proof -
  have "andThen fin (\<lambda>_ s. (r, s)) t = (r', s') \<longleftrightarrow> fin t = (Ret (), s') \<and> r' = r" for r r' t s'
    using assms [of t] by (cases "fin t") (auto simp: andThen_def)
  then show ?thesis by (auto simp: with_defer_def deferred_def split: prod.splits)
qed

lemmas paid_eqs = andThen_eq on_server_eq on_module_eq emit_metric_eq write_ops_eq payee_call_eq

section \<open>Lemmas: what the pipeline leaves alone\<close>

fun request_metric :: "metric_call \<Rightarrow> bool" where
  "request_metric (IncRequest c m oc) = True"
| "request_metric (ObserveRequest c m oc) = True"
| "request_metric m = False"

definition paid_frame :: "'r recorder \<Rightarrow> ('d, 'r, 'm) paid_request \<Rightarrow> ('d, 'r, 'm) paid_request \<Rightarrow> bool" where
  "paid_frame rec s s' \<longleftrightarrow>
     sv_sem (pq_server s') = sv_sem (pq_server s) \<and> sv_sessions (pq_server s') = sv_sessions (pq_server s) \<and>
     (\<exists>ms. sv_rec (pq_server s') = fold rec ms (sv_rec (pq_server s)) \<and> filter request_metric ms = [])"

interpretation paid_frame: step_relation "paid_frame rec" for rec :: "'r recorder"
proof
  fix s :: "('d, 'r, 'm) paid_request"
  show "paid_frame rec s s" unfolding paid_frame_def by (intro conjI exI [of _ "[]"]) simp_all
next
  fix s t u :: "('d, 'r, 'm) paid_request"
  assume "paid_frame rec s t" and "paid_frame rec t u"
  then obtain ms ns where "sv_rec (pq_server u) = fold rec (ms @ ns) (sv_rec (pq_server s))"
      "filter request_metric (ms @ ns) = []"
    and "sv_sem (pq_server u) = sv_sem (pq_server s)" "sv_sessions (pq_server u) = sv_sessions (pq_server s)"
    unfolding paid_frame_def by auto
  then show "paid_frame rec s u" unfolding paid_frame_def by blast
qed

lemma frame_emit [keeps_rules]: "\<not> request_metric m \<Longrightarrow> keeps (paid_frame (rec_of deps)) (emit_metric deps m)"
  unfolding keeps_def paid_frame_def
  by (auto simp: emit_metric_eq intro: exI [of _ "[m]"])

lemma frame_write [keeps_rules]: "keeps (paid_frame rec) (write_ops ops)"
  unfolding keeps_def paid_frame_def by (auto simp: write_ops_eq intro: exI [of _ "[]"])

lemma frame_payee [keeps_rules]: "keeps (paid_frame rec) (on_server (payee_call f))"
  unfolding keeps_def paid_frame_def by (auto simp: on_server_eq payee_call_eq intro: exI [of _ "[]"])

lemma frame_module [keeps_rules]: "keeps (paid_frame rec) (on_module f)"
  unfolding keeps_def paid_frame_def by (auto simp: on_module_eq intro: exI [of _ "[]"])

lemma frame_same [keeps_rules]: "keeps (paid_frame rec) (\<lambda>s. (x, s))"
  by (simp add: keeps_def paid_frame.refl)

lemma frame_label [keeps_rules]: "keeps (paid_frame rec) (modify (\<lambda>s. s\<lparr>pq_modelLabel := x\<rparr>))"
  unfolding keeps_def paid_frame_def by (auto intro: exI [of _ "[]"])

lemma frame_error [keeps_rules]: "keeps (paid_frame rec) (reply_error a b c)"
  by (simp add: reply_error_def Let_def frame_write)

lemma frame_serve [keeps_rules]: "keeps (paid_frame (rec_of deps)) (paid_serve deps r body model url sender workID est)"
  unfolding paid_serve_def split_beta
  by (intro paid_frame.keeps_core keeps_rules) simp_all

lemma frame_charge [keeps_rules]:
  "keeps (paid_frame (rec_of deps)) (paid_charge deps r body model route price paymentBytes workID)"
  unfolding paid_charge_def Let_def
  by (intro paid_frame.keeps_core keeps_rules) simp_all

lemma frame_admit [keeps_rules]: "keeps (paid_frame (rec_of deps)) (paid_admit deps readErr r)"
  unfolding paid_admit_def Let_def
  by (intro paid_frame.keeps_core keeps_rules) simp_all

section \<open>Lemmas: the accounting around the pipeline\<close>

definition counted_as :: "('d, 'r, 'm) paidRouteDeps \<Rightarrow> string \<Rightarrow> string \<Rightarrow> metric_call list" where
  "counted_as deps model outcome =
     [IncRequest (cm_Capability (pd_module deps)) model outcome,
      ObserveRequest (cm_Capability (pd_module deps)) model outcome]"

lemma count_request_eq:
  "count_request deps ctxErr s = (r, s') \<longleftrightarrow>
     r = Ret () \<and> s' = s\<lparr>pq_server := pq_server s\<lparr>sv_rec :=
       fold (rec_of deps) (counted_as deps (pq_modelLabel s) (classifyOutcome ctxErr (sw_status (pq_sw s))))
         (sv_rec (pq_server s))\<rparr>\<rparr>"
  by (auto simp: count_request_def Let_def paid_eqs counted_as_def)

lemma set_inflight_eq:
  "set_inflight deps s = (r, s') \<longleftrightarrow>
     r = Ret () \<and> s' = s\<lparr>pq_server := pq_server s\<lparr>sv_rec :=
       rec_of deps (SetInflightRequests (int (sv_sem (pq_server s)))) (sv_rec (pq_server s))\<rparr>\<rparr>"
  by (auto simp: set_inflight_def paid_eqs)

lemma set_inflight_run:
  "set_inflight deps s = (Ret (), s\<lparr>pq_server := pq_server s\<lparr>sv_rec :=
     rec_of deps (SetInflightRequests (int (sv_sem (pq_server s)))) (sv_rec (pq_server s))\<rparr>\<rparr>)"
  using set_inflight_eq [of deps s] by blast

lemma paid_counted_eq:
  "paid_counted deps ctxErr readErr r s = (out, s') \<longleftrightarrow>
     (\<exists>t. paid_admit deps readErr r s = (out, t) \<and> count_request deps ctxErr t = (Ret (), s'))"
  unfolding paid_counted_def
  by (rule with_defer_eq) (auto simp: fst_def count_request_eq split: prod.split)

lemma paid_counted_effect:
  assumes "paid_counted deps ctxErr readErr r s = (out, s')"
  shows "sv_sem (pq_server s') = sv_sem (pq_server s) \<and> sv_sessions (pq_server s') = sv_sessions (pq_server s) \<and>
    (\<exists>ms. sv_rec (pq_server s') = fold (rec_of deps) ms (sv_rec (pq_server s)) \<and>
       filter request_metric ms =
         counted_as deps (pq_modelLabel s') (classifyOutcome ctxErr (sw_status (pq_sw s'))))"
proof -
  obtain t where t: "paid_admit deps readErr r s = (out, t)" "count_request deps ctxErr t = (Ret (), s')"
    using assms by (auto simp: paid_counted_eq)
  from keepsD [OF frame_admit t(1)] obtain ms where
    "sv_rec (pq_server t) = fold (rec_of deps) ms (sv_rec (pq_server s))" "filter request_metric ms = []"
    "sv_sem (pq_server t) = sv_sem (pq_server s)" "sv_sessions (pq_server t) = sv_sessions (pq_server s)"
    by (auto simp: paid_frame_def)
  with t(2) show ?thesis
    by (auto simp: count_request_eq counted_as_def
        intro!: exI [of _ "ms @ counted_as deps (pq_modelLabel t) (classifyOutcome ctxErr (sw_status (pq_sw t)))"])
qed

definition at_capacity :: "('d, 'r, 'm) paidRouteDeps \<Rightarrow> ('d, 'r) server \<Rightarrow> bool" where
  "at_capacity deps st = (case pd_sem deps of None \<Rightarrow> False | Some capacity \<Rightarrow> capacity \<le> sv_sem st)"

lemma release_eq:
  "andThen (on_server sem_release) (\<lambda>_. set_inflight deps) s = (r, s') \<longleftrightarrow>
     r = Ret () \<and> s' = s\<lparr>pq_server := (pq_server s)\<lparr>sv_sem := sv_sem (pq_server s) - 1, sv_rec :=
       rec_of deps (SetInflightRequests (int (sv_sem (pq_server s) - 1))) (sv_rec (pq_server s))\<rparr>\<rparr>"
  by (auto simp: paid_eqs set_inflight_eq sem_release_def)

lemma release_returns: "fst (andThen (on_server sem_release) (\<lambda>_. set_inflight deps) s) = Ret ()"
  using release_eq [of deps s] by (metis prod.collapse)

lemma paid_gate_unlimited:
  "pd_sem deps = None \<Longrightarrow> paid_gate deps ctxErr readErr r = paid_counted deps ctxErr readErr r"
  by (simp add: paid_gate_def)

definition enter :: "('d, 'r, 'm) paidRouteDeps \<Rightarrow> ('d, 'r, 'm) paid_request \<Rightarrow> ('d, 'r, 'm) paid_request" where
  "enter deps s =
     s\<lparr>pq_server := (pq_server s)\<lparr>sv_sem := sv_sem (pq_server s) + 1, sv_rec :=
       rec_of deps (SetInflightRequests (int (sv_sem (pq_server s) + 1))) (sv_rec (pq_server s))\<rparr>\<rparr>"

definition leave :: "('d, 'r, 'm) paidRouteDeps \<Rightarrow> ('d, 'r, 'm) paid_request \<Rightarrow> ('d, 'r, 'm) paid_request" where
  "leave deps s =
     s\<lparr>pq_server := (pq_server s)\<lparr>sv_sem := sv_sem (pq_server s) - 1, sv_rec :=
       rec_of deps (SetInflightRequests (int (sv_sem (pq_server s) - 1))) (sv_rec (pq_server s))\<rparr>\<rparr>"

lemma paid_gate_admitted:
  assumes "pd_sem deps = Some capacity" and "sv_sem (pq_server s) < capacity"
  shows "paid_gate deps ctxErr readErr r s = (out, s') \<longleftrightarrow>
    (\<exists>t. paid_counted deps ctxErr readErr r (enter deps s) = (out, t) \<and> s' = leave deps t)"
proof -
  have "paid_gate deps ctxErr readErr r s =
      with_defer (paid_counted deps ctxErr readErr r) (andThen (on_server sem_release) (\<lambda>_. set_inflight deps))
        (enter deps s)"
    using assms
    by (simp add: paid_gate_def Let_def andThen_def on_server_def sem_acquire_def set_inflight_run enter_def)
  then show ?thesis
    by (simp add: with_defer_eq [OF release_returns] release_eq leave_def)
qed

lemma paid_gate_full:
  assumes "pd_sem deps = Some capacity" and "\<not> sv_sem (pq_server s) < capacity"
  shows "\<exists>detail. paid_gate deps ctxErr readErr r s =
    (Ret (), s\<lparr>pq_server := (pq_server s)\<lparr>sv_rec :=
                fold (rec_of deps) (IncCapacityRejection (cm_Capability (pd_module deps)) #
                  counted_as deps LabelUnset OutcomeRequest5xx) (sv_rec (pq_server s))\<rparr>,
              pq_sw := fold statusWriter_op [WriteHeader 503,
                Write (rp_Body (writeJSONError 503 ''capacity_exhausted'' detail))] (pq_sw s)\<rparr>)"
  using assms
  by (intro exI [of _ "''worker at max_concurrent_requests '' @ em_dash @ '' retry after in-flight requests drain''"])
     (simp add: paid_gate_def andThen_def on_server_def sem_acquire_def emit_metric_def record_metric_def
      modify_def reply_error_def write_ops_def writeJSONError_def Let_def counted_as_def)

lemma paid_gate_effect:
  assumes "paid_gate deps ctxErr readErr r s = (out, s')" and "pq_modelLabel s = LabelUnset"
  shows "sv_sem (pq_server s') = sv_sem (pq_server s) \<and> sv_sessions (pq_server s') = sv_sessions (pq_server s) \<and>
    (\<exists>ms. sv_rec (pq_server s') = fold (rec_of deps) ms (sv_rec (pq_server s)) \<and>
       filter request_metric ms =
         counted_as deps (pq_modelLabel s')
           (if at_capacity deps (pq_server s) then OutcomeRequest5xx
            else classifyOutcome ctxErr (sw_status (pq_sw s'))))"
proof (cases "pd_sem deps")
  case None
  with assms paid_counted_effect [of deps ctxErr readErr r s out s'] show ?thesis
    by (simp add: paid_gate_unlimited at_capacity_def)
next
  case (Some capacity)
  show ?thesis
  proof (cases "sv_sem (pq_server s) < capacity")
    case False
    with paid_gate_full [OF Some False, of ctxErr readErr r] assms Some show ?thesis
      by (auto simp: at_capacity_def counted_as_def
          intro!: exI [of _ "IncCapacityRejection c # counted_as d l u" for c d l u])
  next
    case True
    with assms obtain t where t: "paid_counted deps ctxErr readErr r (enter deps s) = (out, t)"
      and s': "s' = leave deps t"
      by (auto simp: paid_gate_admitted [OF Some True])
    from paid_counted_effect [OF t] obtain ms where
      "sv_rec (pq_server t) = fold (rec_of deps) ms (sv_rec (pq_server (enter deps s)))"
      "filter request_metric ms = counted_as deps (pq_modelLabel t) (classifyOutcome ctxErr (sw_status (pq_sw t)))"
      "sv_sem (pq_server t) = sv_sem (pq_server (enter deps s))"
      "sv_sessions (pq_server t) = sv_sessions (pq_server (enter deps s))" by auto
    with s' True Some show ?thesis
      by (auto simp: enter_def leave_def at_capacity_def
          intro!: exI [of _ "SetInflightRequests (int (sv_sem (pq_server s) + 1)) # ms @
                      [SetInflightRequests (int (sv_sem (pq_server s)))]"])
  qed
qed

section \<open>Lemmas: what is answered\<close>

text \<open>A refusal: one JSON error and nothing else, or a panic before anything was written.\<close>

definition paid_refused :: "unit outcome \<Rightarrow> statusWriter \<Rightarrow> bool" where
  "paid_refused out sw \<longleftrightarrow>
     (\<exists>p. out = Panic p \<and> sw_inner sw = []) \<or>
     (\<exists>status code detail. out = Ret () \<and> status \<in> {400, 402, 404, 500, 502, 503} \<and> sw_status sw = status \<and>
        sw_inner sw = [WriteHeader status, Write (rp_Body (writeJSONError status code detail))])"

text \<open>
  What has happened before the module serves, from the daemon state \<open>d\<close> and the module state
  \<open>m\<close>: \<open>d2\<close> is the daemon's state after the payment, \<open>d3\<close> after the debit of the estimate.
\<close>

definition paid_for ::
  "('d, 'r, 'm) paidRouteDeps \<Rightarrow> Request \<Rightarrow> 'd \<Rightarrow> 'm \<Rightarrow> string \<Rightarrow> OfferingRoute \<Rightarrow> int \<Rightarrow>
   string \<Rightarrow> bytes \<Rightarrow> int \<Rightarrow> int \<Rightarrow> 'd \<Rightarrow> 'd \<Rightarrow> 'm \<Rightarrow> bool"
where
  "paid_for deps r d m model route price workID sender credited estimate d2 d3 m2 \<longleftrightarrow>
     (\<exists>paymentBytes opened d1 pp est m1 balance.
        base64_DecodeString (header_Get (rq_Header r) (CanonicalHeaderKey PaymentHeaderName)) = Inr paymentBytes \<and>
        workID = deriveWorkID paymentBytes \<and>
        cm_ExtractModel (pd_module deps) (rq_Body r) m = (Ret (Inr model), m1) \<and>
        Lookup (pd_cfg deps) (cm_Capability (pd_module deps)) model = Some route \<and>
        big_SetString (or_PricePerWorkUnitWei route) = Some price \<and>
        OpenSession (pd_payee deps)
          \<lparr>os_WorkID = workID, os_Capability = cm_Capability (pd_module deps), os_Offering = or_Offering route,
           os_PricePerWorkUnitWei = Some price, os_WorkUnit = or_WorkUnit route\<rparr> d = (Inr opened, d1) \<and>
        ProcessPayment (pd_payee deps) paymentBytes workID d1 = (Inr pp, d2) \<and>
        sender = pp_Sender pp \<and> credited = pp_CreditedEVWei pp \<and>
        cm_EstimateWorkUnits (pd_module deps) (rq_Body r) model m1 = (Ret (Inr est), m2) \<and>
        estimate = max 0 est \<and>
        DebitBalance (pd_payee deps) sender workID estimate 1 d2 = (Inr (Some balance), d3) \<and> 0 \<le> balance)"

text \<open>What the module's answer leads to: the response is the module's, and the part of the actual units that the
  estimate did not cover is debited under sequence number 2.\<close>

definition paid_settled ::
  "('d, 'r, 'm) paidRouteDeps \<Rightarrow> string \<Rightarrow> bytes \<Rightarrow> int \<Rightarrow> (goerr + int) outcome \<Rightarrow> 'd \<Rightarrow> 'd \<Rightarrow> bool"
where
  "paid_settled deps workID sender estimate served d3 d4 \<longleftrightarrow>
     (case served of
        Ret (Inr actual) \<Rightarrow>
          if actual > estimate
          then \<exists>x. DebitBalance (pd_payee deps) sender workID (wrap64 (actual - estimate)) 2 d3 = (x, d4)
          else d4 = d3
      | _ \<Rightarrow> d4 = d3)"

definition paid_served ::
  "('d, 'r, 'm) paidRouteDeps \<Rightarrow> Request \<Rightarrow> 'd \<Rightarrow> 'm \<Rightarrow> ('d, 'r, 'm) paid_request \<Rightarrow> bool"
where
  "paid_served deps r d m s' \<longleftrightarrow>
     (\<exists>model route price workID sender credited estimate d2 d3 m2 ops served.
        paid_for deps r d m model route price workID sender credited estimate d2 d3 m2 \<and>
        cm_Serve (pd_module deps) r (rq_Body r) model (or_BackendURL route) m2 = ((ops, served), pq_module s') \<and>
        sw_inner (pq_sw s') = ops \<and> pq_modelLabel s' = model \<and>
        paid_settled deps workID sender estimate served d3 (sv_payee (pq_server s')))"

definition error_sw :: "int \<Rightarrow> string \<Rightarrow> string \<Rightarrow> statusWriter \<Rightarrow> statusWriter" where
  "error_sw status code detail sw =
     fold statusWriter_op [WriteHeader status, Write (rp_Body (writeJSONError status code detail))] sw"

lemma reply_error_eq:
  "reply_error status code detail s = (out, s') \<longleftrightarrow>
     out = Ret () \<and> s' = s\<lparr>pq_sw := error_sw status code detail (pq_sw s)\<rparr>"
  by (auto simp: reply_error_def error_sw_def Let_def write_ops_eq writeJSONError_def)

lemma refused_error:
  "sw_inner sw = [] \<Longrightarrow> \<not> sw_wrote sw \<Longrightarrow> status \<in> {400, 402, 404, 500, 502, 503} \<Longrightarrow>
   paid_refused (Ret ()) (error_sw status code detail sw)"
  by (auto simp: error_sw_def paid_refused_def)

lemma refused_panic: "sw_inner sw = [] \<and> \<not> sw_wrote sw \<Longrightarrow> paid_refused (Panic p) sw"
  by (simp add: paid_refused_def)

lemma paid_serve_cases:
  assumes "paid_serve deps r body model url sender workID est s = (out, s')" and "sw_inner (pq_sw s) = []"
  shows "\<exists>ops served. cm_Serve (pd_module deps) r body model url (pq_module s) = ((ops, served), pq_module s') \<and>
    sw_inner (pq_sw s') = ops \<and> pq_modelLabel s' = pq_modelLabel s \<and>
    paid_settled deps workID sender est served (sv_payee (pq_server s)) (sv_payee (pq_server s'))"
proof -
  obtain ops served m' where sv: "cm_Serve (pd_module deps) r body model url (pq_module s) = ((ops, served), m')"
    by (metis surj_pair)
  have inner: "sw_inner (fold statusWriter_op ops (pq_sw s)) = ops"
    using statusWriter_ops [of ops "pq_sw s"] assms(2) by simp
  show ?thesis
  proof (cases served)
    case (Panic p)
    with assms(1) sv inner show ?thesis
      by (auto simp: paid_serve_def paid_eqs paid_settled_def)
  next
    case (Ret x)
    with assms(1) sv inner show ?thesis
      by (cases x) (auto simp: paid_serve_def paid_eqs paid_settled_def split: if_split_asm)
  qed
qed

lemma paid_charge_cases:
  assumes "paid_charge deps r body model route price paymentBytes workID s = (out, s')"
    and fresh: "sw_inner (pq_sw s) = [] \<and> \<not> sw_wrote (pq_sw s)"
  shows "paid_refused out (pq_sw s') \<or>
    (\<exists>opened d1 pp d2 est m2 balance d3 t.
       OpenSession (pd_payee deps)
          \<lparr>os_WorkID = workID, os_Capability = cm_Capability (pd_module deps), os_Offering = or_Offering route,
           os_PricePerWorkUnitWei = Some price, os_WorkUnit = or_WorkUnit route\<rparr> (sv_payee (pq_server s)) = (Inr opened, d1) \<and>
       ProcessPayment (pd_payee deps) paymentBytes workID d1 = (Inr pp, d2) \<and>
       cm_EstimateWorkUnits (pd_module deps) body model (pq_module s) = (Ret (Inr est), m2) \<and>
       DebitBalance (pd_payee deps) (pp_Sender pp) workID (max 0 est) 1 d2 = (Inr (Some balance), d3) \<and> 0 \<le> balance \<and>
       sv_payee (pq_server t) = d3 \<and> pq_module t = m2 \<and> pq_sw t = pq_sw s \<and> pq_modelLabel t = pq_modelLabel s \<and>
       paid_serve deps r body model (or_BackendURL route) (pp_Sender pp) workID (max 0 est) t = (out, s'))"
proof -
  let ?q = "\<lparr>os_WorkID = workID, os_Capability = cm_Capability (pd_module deps), os_Offering = or_Offering route,
             os_PricePerWorkUnitWei = Some price, os_WorkUnit = or_WorkUnit route\<rparr>"
  note run = assms(1) [unfolded paid_charge_def Let_def]
  obtain x1 d1 where op: "OpenSession (pd_payee deps) ?q (sv_payee (pq_server s)) = (x1, d1)" by fastforce
  obtain x2 d2 where pp: "ProcessPayment (pd_payee deps) paymentBytes workID d1 = (x2, d2)" by fastforce
  obtain x3 m2 where est: "cm_EstimateWorkUnits (pd_module deps) body model (pq_module s) = (x3, m2)" by fastforce
  show ?thesis
  proof (cases "(\<exists>e. x1 = Inl e) \<or> (\<exists>e. x2 = Inl e) \<or> (\<exists>e. x3 = Ret (Inl e)) \<or> (\<exists>p. x3 = Panic p)")
    case True
    then show ?thesis
      using run fresh op pp est by (cases x1; cases x2) (auto simp: paid_eqs reply_error_eq refused_error refused_panic)
  next
    case False
    then obtain opened pr e where x: "x1 = Inr opened" "x2 = Inr pr" "x3 = Ret (Inr e)"
      by (cases x1; cases x2; cases x3) (auto, metis sumE)
    obtain x4 d3 where db: "DebitBalance (pd_payee deps) (pp_Sender pr) workID (max 0 e) 1 d2 = (x4, d3)"
      by fastforce
    have clamp: "(if e < 0 then 0 else e) = max 0 e" for e :: int by simp
    show ?thesis
    proof (cases "\<exists>b. x4 = Inr (Some b) \<and> 0 \<le> b")
      case True
      then obtain b where "x4 = Inr (Some b)" "0 \<le> b" by blast
      with run fresh op pp est x db show ?thesis by (auto simp: paid_eqs clamp)
    next
      case False
      with run fresh op pp est x db show ?thesis
        by (cases x4)
           (auto simp: paid_eqs clamp reply_error_eq refused_error refused_panic split: option.split_asm if_split_asm)
    qed
  qed
qed

lemma paid_admit_cases:
  assumes "paid_admit deps readErr r s = (out, s')"
    and fresh: "sw_inner (pq_sw s) = [] \<and> \<not> sw_wrote (pq_sw s)"
  shows "paid_refused out (pq_sw s') \<or> paid_served deps r (sv_payee (pq_server s)) (pq_module s) s'"
proof -
  note run = assms(1) [unfolded paid_admit_def Let_def]
  obtain x1 m1 where ex: "cm_ExtractModel (pd_module deps) (rq_Body r) (pq_module s) = (x1, m1)" by fastforce
  show ?thesis
  proof (cases "paid_refused out (pq_sw s')")
    case False
    let ?hdr = "header_Get (rq_Header r) (CanonicalHeaderKey PaymentHeaderName)"
    from run fresh ex False obtain body paymentBytes model route price where
        body: "read_body readErr r = Inr body" and pay: "base64_DecodeString ?hdr = Inr paymentBytes"
      and model: "x1 = Ret (Inr model)" and route: "Lookup (pd_cfg deps) (cm_Capability (pd_module deps)) model = Some route"
      and price: "big_SetString (or_PricePerWorkUnitWei route) = Some price"
      and charge: "paid_charge deps r body model route price paymentBytes (deriveWorkID paymentBytes)
          (s\<lparr>pq_module := m1, pq_modelLabel := model\<rparr>) = (out, s')"
      by (cases x1)
         (auto simp: paid_eqs read_body_def reply_error_eq refused_error refused_panic
            split: option.split_asm sum.split_asm if_split_asm)
    from body have [simp]: "body = rq_Body r" by (auto simp: read_body_def split: option.split_asm if_split_asm)
    from paid_charge_cases [OF charge] fresh False obtain opened d1 pp d2 est m2 balance d3 t where
        st: "OpenSession (pd_payee deps)
            \<lparr>os_WorkID = deriveWorkID paymentBytes, os_Capability = cm_Capability (pd_module deps),
             os_Offering = or_Offering route, os_PricePerWorkUnitWei = Some price,
             os_WorkUnit = or_WorkUnit route\<rparr> (sv_payee (pq_server s)) = (Inr opened, d1)"
          "ProcessPayment (pd_payee deps) paymentBytes (deriveWorkID paymentBytes) d1 = (Inr pp, d2)"
          "cm_EstimateWorkUnits (pd_module deps) (rq_Body r) model m1 = (Ret (Inr est), m2)"
          "DebitBalance (pd_payee deps) (pp_Sender pp) (deriveWorkID paymentBytes) (max 0 est) 1 d2
             = (Inr (Some balance), d3)" "0 \<le> balance"
      and t: "sv_payee (pq_server t) = d3" "pq_module t = m2" "pq_sw t = pq_sw s" "pq_modelLabel t = model"
      and serve: "paid_serve deps r (rq_Body r) model (or_BackendURL route) (pp_Sender pp)
          (deriveWorkID paymentBytes) (max 0 est) t = (out, s')"
      by auto
    have "paid_for deps r (sv_payee (pq_server s)) (pq_module s) model route price (deriveWorkID paymentBytes)
        (pp_Sender pp) (pp_CreditedEVWei pp) (max 0 est) d2 d3 m2"
      unfolding paid_for_def using pay ex model route price st by blast
    with paid_serve_cases [OF serve] t fresh show ?thesis
      unfolding paid_served_def by (metis (no_types))
  qed blast
qed

lemma count_request_frame:
  assumes "count_request deps ctxErr t = (x, s')"
  shows "pq_sw s' = pq_sw t" "pq_module s' = pq_module t" "pq_modelLabel s' = pq_modelLabel t"
    "sv_payee (pq_server s') = sv_payee (pq_server t)"
  using assms by (auto simp: count_request_eq)

lemma paid_counted_cases:
  assumes "paid_counted deps ctxErr readErr r s = (out, s')"
    and fresh: "sw_inner (pq_sw s) = [] \<and> \<not> sw_wrote (pq_sw s)"
  shows "paid_refused out (pq_sw s') \<or> paid_served deps r (sv_payee (pq_server s)) (pq_module s) s'"
proof -
  from assms(1) obtain t where "paid_admit deps readErr r s = (out, t)" and t: "count_request deps ctxErr t = (Ret (), s')"
    by (auto simp: paid_counted_eq)
  from paid_admit_cases [OF this(1) fresh] count_request_frame [OF t] show ?thesis
    by (simp add: paid_served_def)
qed

lemma paymentMiddleware_cases:
  assumes "paymentMiddleware deps ctxErr readErr r m st = (out, s')"
  shows "paid_refused out (pq_sw s') \<or> (\<not> at_capacity deps st \<and> paid_served deps r (sv_payee st) m s')"
proof -
  let ?s = "\<lparr>pq_server = st, pq_sw = new_statusWriter, pq_modelLabel = LabelUnset, pq_module = m\<rparr>"
  have run: "paid_gate deps ctxErr readErr r ?s = (out, s')" using assms by (simp add: paymentMiddleware_def)
  have fresh: "sw_inner new_statusWriter = [] \<and> \<not> sw_wrote new_statusWriter" by (simp add: new_statusWriter_def)
  show ?thesis
  proof (cases "pd_sem deps")
    case None
    with run fresh paid_counted_cases [of deps ctxErr readErr r ?s out s'] show ?thesis
      by (simp add: paid_gate_unlimited at_capacity_def)
  next
    case (Some capacity)
    show ?thesis
    proof (cases "sv_sem st < capacity")
      case True
      then have "\<exists>t. paid_counted deps ctxErr readErr r (enter deps ?s) = (out, t) \<and> s' = leave deps t"
        using run paid_gate_admitted [OF Some, of ?s ctxErr readErr r out s'] by simp
      then obtain t where t: "paid_counted deps ctxErr readErr r (enter deps ?s) = (out, t)" and s': "s' = leave deps t"
        by blast
      have "paid_refused out (pq_sw t) \<or> paid_served deps r (sv_payee st) m t"
        using paid_counted_cases [OF t] fresh by (simp add: enter_def)
      with s' True Some show ?thesis by (simp add: leave_def paid_served_def at_capacity_def)
    next
      case False
      with paid_gate_full [OF Some, of ?s ctxErr readErr r] run show ?thesis
        by (auto simp: paid_refused_def new_statusWriter_def writeJSONError_def)
    qed
  qed
qed

section \<open>The daemon's accounts\<close>

text \<open>
  What the pipeline relies on beyond the ledger contract: a session opened with a price is bound to
  that price, and a processed payment adds its expected value to the balance of its sender under
  the work id; neither touches the record of the debits.
\<close>

definition units_owed :: "int \<Rightarrow> (goerr + int) outcome \<Rightarrow> int" where
  "units_owed estimate served = (case served of Ret (Inr actual) \<Rightarrow> max estimate actual | _ \<Rightarrow> estimate)"

text \<open>\<open>Serve\<close> returns an \<open>int64\<close>.\<close>

definition serves_int64 :: "'m CapabilityModule \<Rightarrow> bool" where
  "serves_int64 M \<longleftrightarrow>
     (\<forall>r b x u m ops a m'. cm_Serve M r b x u m = ((ops, Ret (Inr a)), m') \<longrightarrow> is_int64 a)"

locale payee_account =
  fixes c :: "'d Client"
    and balance :: "'d \<Rightarrow> bytes \<Rightarrow> string \<Rightarrow> int"
    and charged :: "bytes \<Rightarrow> 'd \<Rightarrow> string \<Rightarrow> u64 \<rightharpoonup> int"
    and price :: "'d \<Rightarrow> string \<Rightarrow> int"
  assumes ledger: "payee_ledger c sender (\<lambda>d w. balance d sender w) (charged sender) price"
    and open_binds:
      "OpenSession c q d = (Inr opened, d') \<Longrightarrow> os_PricePerWorkUnitWei q = Some p \<Longrightarrow>
         price d' (os_WorkID q) = p \<and> balance d' = balance d \<and>
         (\<forall>sender. charged sender d' = charged sender d)"
    and payment_credits:
      "ProcessPayment c b w d = (Inr pp, d') \<Longrightarrow>
         price d' w = price d w \<and> (\<forall>sender. charged sender d' = charged sender d) \<and>
         balance d' (pp_Sender pp) w = balance d (pp_Sender pp) w + pp_CreditedEVWei pp"
begin

lemma debit_first:
  assumes "DebitBalance c sender w u q d = (Inr b, d')" and "charged sender d w q = None"
  shows "balance d' sender w = balance d sender w - price d w * u" and "price d' w = price d w"
    and "q' \<noteq> q \<Longrightarrow> charged sender d' w q' = charged sender d w q'"
  using payee_ledger.debit_new [OF ledger assms] by (auto simp: ledger_took_def dest: fun_cong)

lemma debit_maybe:
  assumes "DebitBalance c sender w u q d = (x, d')"
  shows "balance d' sender w = balance d sender w \<or> balance d' sender w = balance d sender w - price d w * u"
  using payee_ledger.debit_cases [OF ledger assms] by (auto simp: ledger_same_def ledger_took_def dest: fun_cong)

text \<open>The balance of the payer after a served request.\<close>

lemma request_charge:
  assumes paid: "paid_for deps r d m model route p workID sender credited estimate d2 d3 m2"
    and payee: "pd_payee deps = c"
    and settled: "paid_settled deps workID sender estimate served d3 d4"
    and fresh: "charged sender d workID 1 = None" "charged sender d workID 2 = None"
    and range: "\<And>a. served = Ret (Inr a) \<Longrightarrow> is_int64 a"
  shows "balance d4 sender workID = balance d sender workID + credited - p * units_owed estimate served \<or>
         ((\<exists>a e. served = Ret (Inr a) \<and> estimate < a \<and> DebitBalance c sender workID (a - estimate) 2 d3 = (Inl e, d4)) \<and>
          balance d4 sender workID = balance d sender workID + credited - p * estimate)"
proof -
  from paid payee obtain paymentBytes opened d1 pp est bal q where
      op: "OpenSession c q d = (Inr opened, d1)" "os_WorkID q = workID" "os_PricePerWorkUnitWei q = Some p"
    and pp: "ProcessPayment c paymentBytes workID d1 = (Inr pp, d2)" "sender = pp_Sender pp" "credited = pp_CreditedEVWei pp"
    and est: "0 \<le> estimate" and db: "DebitBalance c sender workID estimate 1 d2 = (Inr (Some bal), d3)"
    unfolding paid_for_def by auto
  have st2: "price d2 workID = p" "charged sender d2 = charged sender d"
      "balance d2 sender workID = balance d sender workID + credited"
    using open_binds [OF op(1,3)] payment_credits [OF pp(1)] op(2) pp(2,3) by auto
  then have "charged sender d2 workID 1 = None" using fresh(1) by simp
  note first = debit_first [OF db this]
  have st3: "balance d3 sender workID = balance d sender workID + credited - p * estimate" "price d3 workID = p"
      "charged sender d3 workID 2 = None"
    using first st2 fresh(2) by auto
  show ?thesis
  proof (cases "\<exists>a. served = Ret (Inr a) \<and> a > estimate")
    case False
    then have "d4 = d3" and "units_owed estimate served = estimate"
      using settled by (auto simp: paid_settled_def units_owed_def split: outcome.split_asm outcome.split sum.split_asm sum.split)
    with st3 show ?thesis by simp
  next
    case True
    then obtain a where a: "served = Ret (Inr a)" "estimate < a" by blast
    have "is_int64 (a - estimate)" using a est range [OF a(1)] by (auto simp: is_int64_def)
    then obtain x where x: "DebitBalance c sender workID (a - estimate) 2 d3 = (x, d4)"
      using settled a payee by (auto simp: paid_settled_def)
    show ?thesis
    proof (cases x)
      case (Inr y)
      with debit_first [OF _ st3(3)] x st3 have "balance d4 sender workID
          = balance d sender workID + credited - p * estimate - p * (a - estimate)" by simp
      with a show ?thesis by (simp add: algebra_simps units_owed_def)
    next
      case (Inl e)
      with debit_maybe [OF x] x st3 a show ?thesis by (auto simp: algebra_simps units_owed_def)
    qed
  qed
qed

end

lemma fake_open_binds:
  assumes "fake_OpenSession q d = (Inr opened, d')" and "os_PricePerWorkUnitWei q = Some p"
  shows "fake_price d' (os_WorkID q) = p \<and> BalanceFor d' = BalanceFor d \<and> fake_charged s d' = fake_charged s d"
  using assms
  by (auto simp: fake_OpenSession_def Let_def fake_price_def bound_price_def sameSessionBinding_def BalanceFor_def
      fake_charged_def fun_eq_iff split: option.split_asm if_split_asm)

lemma fake_payment_credits:
  assumes "fake_ProcessPayment b w d = (Inr pp, d')"
  shows "fake_price d' w = fake_price d w \<and> fake_charged s d' = fake_charged s d \<and>
    BalanceFor d' (pp_Sender pp) w = BalanceFor d (pp_Sender pp) w + pp_CreditedEVWei pp"
  using assms
  by (auto simp: fake_ProcessPayment_def Let_def fake_price_def bound_price_def BalanceFor_def
      fake_charged_def fun_eq_iff split: option.splits if_splits)

interpretation fake_account: payee_account fakeClient BalanceFor fake_charged fake_price
  by unfold_locales (auto simp: fakeClient_def dest: fake_open_binds fake_payment_credits)

section \<open>Properties\<close>

text \<open>C19: A paid request holds its semaphore slot for exactly as long as it runs: whatever the
  daemon, the module and the client do, panics included, the slots and the session registry are
  afterwards as before; and a request is served only when a slot was free.\<close>

theorem paid_slot_released:
  assumes "paymentMiddleware deps ctxErr readErr r m st = (out, s')"
  shows "sv_sem (pq_server s') = sv_sem st \<and> sv_sessions (pq_server s') = sv_sessions st \<and>
    (pd_sem deps = Some capacity \<and> capacity \<le> sv_sem st \<longrightarrow>
       out = Ret () \<and> sw_status (pq_sw s') = 503 \<and> pq_module s' = m \<and> sv_payee (pq_server s') = sv_payee st)"
proof -
  let ?s = "\<lparr>pq_server = st, pq_sw = new_statusWriter, pq_modelLabel = LabelUnset, pq_module = m\<rparr>"
  have run: "paid_gate deps ctxErr readErr r ?s = (out, s')" using assms by (simp add: paymentMiddleware_def)
  have "sv_sem (pq_server s') = sv_sem st \<and> sv_sessions (pq_server s') = sv_sessions st"
    using paid_gate_effect [OF run] by simp
  moreover have "out = Ret () \<and> sw_status (pq_sw s') = 503 \<and> pq_module s' = m \<and> sv_payee (pq_server s') = sv_payee st"
    if "pd_sem deps = Some capacity \<and> capacity \<le> sv_sem st"
    using that paid_gate_full [of deps capacity ?s ctxErr readErr r] run by (auto simp: new_statusWriter_def)
  ultimately show ?thesis by blast
qed

text \<open>C25: Every paid request is counted exactly once, on every path and also when the module or the
  middleware panics: among the metrics it records there is one request count and one latency
  observation, in this order, under the model it ended with and the outcome class of the status that
  was sent (a rejection for capacity is always counted as 5xx).\<close>

theorem paid_request_counted_once:
  assumes "paymentMiddleware deps ctxErr readErr r m st = (out, s')"
  shows "\<exists>ms. sv_rec (pq_server s') = fold (rec_of deps) ms (sv_rec st) \<and>
    filter request_metric ms =
      counted_as deps (pq_modelLabel s')
        (if at_capacity deps st then OutcomeRequest5xx else classifyOutcome ctxErr (sw_status (pq_sw s')))"
  using paid_gate_effect [of deps ctxErr readErr r
      "\<lparr>pq_server = st, pq_sw = new_statusWriter, pq_modelLabel = LabelUnset, pq_module = m\<rparr>" out s'] assms
  by (simp add: paymentMiddleware_def)

text \<open>C7: Nothing is served unpaid. The client gets anything other than a single JSON error only when
  the payment header decoded, the model had a route with a price, the daemon opened a session for the
  hash of the payment at that price, accepted the payment, and debited the estimate of the module
  leaving a balance that is not negative; then the response is exactly what the module wrote, and the units
  beyond the estimate are debited under the next sequence number.\<close>

theorem paid_serves_only_paid:
  assumes "paymentMiddleware deps ctxErr readErr r m st = (out, s')" and "\<not> paid_refused out (pq_sw s')"
  shows "\<exists>model route price workID sender credited estimate d2 d3 m2 served.
    paid_for deps r (sv_payee st) m model route price workID sender credited estimate d2 d3 m2 \<and>
    cm_Serve (pd_module deps) r (rq_Body r) model (or_BackendURL route) m2
      = ((sw_inner (pq_sw s'), served), pq_module s') \<and>
    paid_settled deps workID sender estimate served d3 (sv_payee (pq_server s'))"
  using paymentMiddleware_cases [OF assms(1)] assms(2) unfolding paid_served_def by blast

text \<open>C10: What a served request costs. Take a daemon client that keeps the ledger contract for every payer (which says
  nothing of the balances that debits answer nor of \<open>CloseSession\<close>), that binds a work id it opens to the price asked for
  and credits a payment's expected value to its sender; a module that reports its units as an \<open>int64\<close>; and a payment
  under whose work id, the hash of the payment, the ledger has no debit number 1 or 2 yet. If the
  request is served, the balance of the payer under that work id moves by the payment's expected value less the
  configured price times the units owed: the larger of the estimate and the units the module reports, or the
  estimate when the module fails. Only when the module reports more than the estimate and the debit of the
  difference fails may the payer be charged for the estimate alone.\<close>

theorem paid_request_charge:
  assumes account: "payee_account (pd_payee deps) balance charged price"
    and int64: "serves_int64 (pd_module deps)"
    and payment: "base64_DecodeString (header_Get (rq_Header r) (CanonicalHeaderKey PaymentHeaderName)) = Inr paymentBytes"
    and workID: "workID = deriveWorkID paymentBytes"
    and fresh: "\<forall>sender. charged sender (sv_payee st) workID 1 = None \<and> charged sender (sv_payee st) workID 2 = None"
    and run: "paymentMiddleware deps ctxErr readErr r m st = (out, s')" and served: "\<not> paid_refused out (pq_sw s')"
  shows "\<exists>model route p sender credited estimate d2 d3 m2 served.
    paid_for deps r (sv_payee st) m model route p workID sender credited estimate d2 d3 m2 \<and>
    cm_Serve (pd_module deps) r (rq_Body r) model (or_BackendURL route) m2
      = ((sw_inner (pq_sw s'), served), pq_module s') \<and>
    (balance (sv_payee (pq_server s')) sender workID
       = balance (sv_payee st) sender workID + credited - p * units_owed estimate served \<or>
     (\<exists>a e. served = Ret (Inr a) \<and> estimate < a \<and>
        DebitBalance (pd_payee deps) sender workID (a - estimate) 2 d3 = (Inl e, sv_payee (pq_server s'))) \<and>
     balance (sv_payee (pq_server s')) sender workID = balance (sv_payee st) sender workID + credited - p * estimate)"
proof -
  from paymentMiddleware_cases [OF run] served
  obtain model route p w sender credited estimate d2 d3 m2 served where
      paid: "paid_for deps r (sv_payee st) m model route p w sender credited estimate d2 d3 m2"
    and serve: "cm_Serve (pd_module deps) r (rq_Body r) model (or_BackendURL route) m2
      = ((sw_inner (pq_sw s'), served), pq_module s')"
    and settled: "paid_settled deps w sender estimate served d3 (sv_payee (pq_server s'))"
    unfolding paid_served_def by blast
  have w: "w = workID" using paid payment unfolding paid_for_def workID by auto
  have range: "is_int64 a" if "served = Ret (Inr a)" for a
    using int64 serve that unfolding serves_int64_def by blast
  have "charged sender (sv_payee st) w 1 = None" "charged sender (sv_payee st) w 2 = None" using fresh w by simp_all
  note charge = payee_account.request_charge [OF account paid refl settled this range, unfolded w]
  show ?thesis by (intro exI conjI, rule paid [unfolded w], rule serve, rule charge)
qed

section \<open>Witnesses\<close>

definition sample_capability :: "unit CapabilityModule" where
  "sample_capability =
     \<lparr>cm_Capability = ''livepeer:vtuber-session'', cm_HTTPMethod = ''POST'', cm_HTTPPath = ''/v1/x'', cm_Unit = ''second'',
      cm_ExtractModel = (\<lambda>b. ret (Inr ''hd'')), cm_EstimateWorkUnits = (\<lambda>b x. ret (Inr 2)),
      cm_Serve = (\<lambda>r b x u m. (([WriteHeader 200], Ret (Inr 3)), m))\<rparr>"

definition sample_deps :: "(Fake, counter, unit) paidRouteDeps" where
  "sample_deps = \<lparr>pd_module = sample_capability, pd_cfg = projectFromYAML sample_yaml, pd_payee = fakeClient,
                  pd_sem = Some 1, pd_recorder = Some Counter\<rparr>"

definition sample_paid_server :: "(Fake, counter) server" where
  "sample_paid_server = \<lparr>sv_payee = NewFake, sv_rec = NewCounter, sv_sem = 0, sv_sessions = Map.empty\<rparr>"

definition sample_paid_request :: Request where
  "sample_paid_request =
     \<lparr>rq_Header = [''Livepeer-Payment'' \<mapsto> ''cA==''], rq_Body = ''{}'', rq_PathValue = (\<lambda>k. [])\<rparr>"

lemma sample_paid_header:
  "header_Get (rq_Header sample_paid_request) (CanonicalHeaderKey PaymentHeaderName) = ''cA==''"
  by code_simp

lemma sample_fake_session:
  fixes w :: string
  defines "a \<equiv> fk_SenderAddress NewFake"
  shows "\<exists>f1 pp f2 f3 f4.
    fake_OpenSession \<lparr>os_WorkID = w, os_Capability = c, os_Offering = ofr, os_PricePerWorkUnitWei = Some 6250,
      os_WorkUnit = u\<rparr> NewFake = (Inr OpenSessionOutcomeOpened, f1) \<and>
    fake_ProcessPayment b w f1 = (Inr pp, f2) \<and> pp_Sender pp = a \<and> pp_CreditedEVWei pp = 1000000000 \<and>
    fake_DebitBalance a w 2 1 f2 = (Inr (Some 999987500), f3) \<and>
    fake_DebitBalance a w 1 2 f3 = (Inr (Some 999981250), f4)"
proof -
  have seqs: "debitReplayKey s w 2 \<noteq> debitReplayKey s w 1" for s by (simp add: debitReplayKey_def)
  show ?thesis unfolding a_def
    by (simp add: fake_OpenSession_def fake_ProcessPayment_def fake_DebitBalance_def NewFake_def Let_def
        bound_price_def seqs)
qed

lemma sample_paid_run:
  "\<exists>s'. paymentMiddleware sample_deps None None sample_paid_request () sample_paid_server = (Ret (), s') \<and>
     sw_inner (pq_sw s') = [WriteHeader 200]"
proof -
  let ?w = "deriveWorkID ''p''"
  obtain f1 pp f2 f3 f4 where
    fk: "fake_OpenSession \<lparr>os_WorkID = ?w, os_Capability = ''livepeer:vtuber-session'', os_Offering = ''hd'',
          os_PricePerWorkUnitWei = Some 6250, os_WorkUnit = ''second''\<rparr> NewFake = (Inr OpenSessionOutcomeOpened, f1)"
      "fake_ProcessPayment ''p'' ?w f1 = (Inr pp, f2)"
      "fake_DebitBalance (pp_Sender pp) ?w 2 1 f2 = (Inr (Some 999987500), f3)"
      "fake_DebitBalance (pp_Sender pp) ?w 1 2 f3 = (Inr (Some 999981250), f4)"
    using sample_fake_session by metis
  have body: "read_body None sample_paid_request = Inr ''{}''"
    by (simp add: read_body_def sample_paid_request_def maxPaidRequestBodyBytes_def)
  have wrap: "wrap64 1 = 1" by (simp add: is_int64_def)
  let ?s = "\<lparr>pq_server = sample_paid_server, pq_sw = new_statusWriter, pq_modelLabel = LabelUnset, pq_module = ()\<rparr>"
  have "\<exists>t. paid_admit sample_deps None sample_paid_request (enter sample_deps ?s) = (Ret (), t) \<and>
      sw_inner (pq_sw t) = [WriteHeader 200]"
    using fk
    by (simp add: paid_admit_def body sample_paid_header sample_base64 Let_def sample_deps_def andThen_def on_module_def
        on_server_def sample_capability_def ret_def modify_def sample_Lookup sample_SetString paid_charge_def
        payee_call_def fakeClient_def paid_serve_def write_ops_def emit_metric_def record_metric_def enter_def
        sample_paid_server_def new_statusWriter_def wrap)
  then obtain t where t: "paid_admit sample_deps None sample_paid_request (enter sample_deps ?s) = (Ret (), t)"
    and "sw_inner (pq_sw t) = [WriteHeader 200]" by blast
  moreover obtain s' where s': "count_request sample_deps None t = (Ret (), s')"
    using count_request_eq by blast
  ultimately have "paid_counted sample_deps None None sample_paid_request (enter sample_deps ?s) = (Ret (), s')"
    and "sw_inner (pq_sw s') = [WriteHeader 200]"
    using count_request_frame [OF s'] by (auto simp: paid_counted_eq)
  moreover have "pd_sem sample_deps = Some 1" "sv_sem (pq_server ?s) < 1"
    by (simp_all add: sample_deps_def sample_paid_server_def)
  ultimately show ?thesis
    unfolding paymentMiddleware_def using paid_gate_admitted [of sample_deps 1 ?s None None sample_paid_request]
    by (auto simp: leave_def)
qed

lemma sample_paid_payee: "sv_payee sample_paid_server = NewFake"
  by (simp add: sample_paid_server_def)

lemma sample_not_refused: "sw_inner sw = [WriteHeader 200] \<Longrightarrow> \<not> paid_refused (Ret ()) sw"
  by (simp add: paid_refused_def)

theorem paid_slot_released_witness:
  "\<exists>out s'. paymentMiddleware sample_deps None None sample_paid_request () sample_paid_server = (out, s') \<and>
     sv_sem (pq_server s') = 0"
proof -
  obtain s' where "paymentMiddleware sample_deps None None sample_paid_request () sample_paid_server = (Ret (), s')"
    using sample_paid_run by blast
  with paid_slot_released [OF this] show ?thesis by (auto simp: sample_paid_server_def)
qed

theorem paid_request_counted_once_witness:
  "\<exists>s' ms. paymentMiddleware sample_deps None None sample_paid_request () sample_paid_server = (Ret (), s') \<and>
     sv_rec (pq_server s') = fold Counter ms NewCounter \<and> length (filter request_metric ms) = 2"
proof -
  obtain s' where s: "paymentMiddleware sample_deps None None sample_paid_request () sample_paid_server = (Ret (), s')"
    using sample_paid_run by blast
  have "rec_of sample_deps = Counter" by (simp add: rec_of_def sample_deps_def)
  with s paid_request_counted_once [OF s] show ?thesis
    by (auto simp: sample_paid_server_def counted_as_def)
qed

theorem paid_serves_only_paid_witness:
  "\<exists>s' model route price workID sender credited estimate d2 d3 m2.
     paymentMiddleware sample_deps None None sample_paid_request () sample_paid_server = (Ret (), s') \<and>
     paid_for sample_deps sample_paid_request NewFake () model route price workID sender credited estimate d2 d3 m2"
proof -
  obtain s' where s: "paymentMiddleware sample_deps None None sample_paid_request () sample_paid_server = (Ret (), s')"
    and "sw_inner (pq_sw s') = [WriteHeader 200]" using sample_paid_run by blast
  from paid_serves_only_paid [OF s sample_not_refused [OF this(2)]] s show ?thesis
    unfolding sample_paid_payee by blast
qed

text \<open>The sample payment is of 1000000000 wei, the price 6250 wei, the estimate 2 units; the module reports 3.\<close>

lemma sample_paid_for:
  assumes "paid_for sample_deps sample_paid_request NewFake () model route p (deriveWorkID ''p'') sender credited estimate d2 d3 m2"
  shows "p = 6250" and "sender = fk_SenderAddress NewFake" and "credited = 1000000000" and "estimate = 2"
    and "fst (fake_DebitBalance sender (deriveWorkID ''p'') 1 2 d3) = Inr (Some 999981250)"
proof -
  let ?w = "deriveWorkID ''p''" and ?q = "\<lambda>ofr u. \<lparr>os_WorkID = deriveWorkID ''p'', os_Capability = ''livepeer:vtuber-session'', os_Offering = ofr,
    os_PricePerWorkUnitWei = Some 6250, os_WorkUnit = u\<rparr>"
  from assms obtain opened d1 pp bal where
      "p = 6250" and est: "estimate = 2" "sender = pp_Sender pp" "credited = pp_CreditedEVWei pp"
    and op: "fake_OpenSession (?q (or_Offering route) (or_WorkUnit route)) NewFake = (Inr opened, d1)"
    and pp: "fake_ProcessPayment ''p'' ?w d1 = (Inr pp, d2)"
    and db: "fake_DebitBalance sender ?w 2 1 d2 = (Inr (Some bal), d3)"
    unfolding paid_for_def sample_paid_header sample_base64
    by (auto simp: sample_deps_def sample_capability_def ret_def fakeClient_def sample_Lookup sample_SetString)
  then show "p = 6250" "estimate = 2" by simp_all
  obtain f1 pp' f2 f3 f4 where fk: "fake_OpenSession (?q (or_Offering route) (or_WorkUnit route)) NewFake = (Inr OpenSessionOutcomeOpened, f1)"
      "fake_ProcessPayment ''p'' ?w f1 = (Inr pp', f2)" "pp_Sender pp' = fk_SenderAddress NewFake" "pp_CreditedEVWei pp' = 1000000000"
      "fake_DebitBalance (fk_SenderAddress NewFake) ?w 2 1 f2 = (Inr (Some 999987500), f3)"
      "fake_DebitBalance (fk_SenderAddress NewFake) ?w 1 2 f3 = (Inr (Some 999981250), f4)"
    using sample_fake_session by metis
  with op pp db est show "sender = fk_SenderAddress NewFake" "credited = 1000000000"
      "fst (fake_DebitBalance sender ?w 1 2 d3) = Inr (Some 999981250)" by auto
qed

theorem paid_request_charge_witness:
  "BalanceFor (sv_payee (pq_server (snd (paymentMiddleware sample_deps None None sample_paid_request () sample_paid_server))))
     (fk_SenderAddress NewFake) (deriveWorkID ''p'') = 1000000000 - 6250 * 3"
proof -
  obtain s' where s: "paymentMiddleware sample_deps None None sample_paid_request () sample_paid_server = (Ret (), s')"
    and "sw_inner (pq_sw s') = [WriteHeader 200]" using sample_paid_run by blast
  have acc: "payee_account (pd_payee sample_deps) BalanceFor fake_charged fake_price"
    using fake_account.payee_account_axioms by (simp add: sample_deps_def)
  have int64: "serves_int64 (pd_module sample_deps)"
    by (simp add: serves_int64_def sample_deps_def sample_capability_def is_int64_def)
  have payment: "base64_DecodeString (header_Get (rq_Header sample_paid_request) (CanonicalHeaderKey PaymentHeaderName)) = Inr ''p''"
    by (simp add: sample_paid_header sample_base64)
  have fresh: "\<forall>sender. fake_charged sender (sv_payee sample_paid_server) (deriveWorkID ''p'') 1 = None \<and>
      fake_charged sender (sv_payee sample_paid_server) (deriveWorkID ''p'') 2 = None"
    by (simp add: fake_charged_def sample_paid_server_def NewFake_def)
  have "\<not> paid_refused (Ret ()) (pq_sw s')" by (rule sample_not_refused) fact
  from paid_request_charge [OF acc int64 payment refl fresh s this]
  obtain model route p sender credited estimate d2 d3 m2 served where
      paid: "paid_for sample_deps sample_paid_request NewFake () model route p (deriveWorkID ''p'') sender credited estimate d2 d3 m2"
    and serve: "cm_Serve (pd_module sample_deps) sample_paid_request (rq_Body sample_paid_request) model (or_BackendURL route) m2
      = ((sw_inner (pq_sw s'), served), pq_module s')"
    and cost: "BalanceFor (sv_payee (pq_server s')) sender (deriveWorkID ''p'')
        = BalanceFor NewFake sender (deriveWorkID ''p'') + credited - p * units_owed estimate served \<or>
       (\<exists>a e. served = Ret (Inr a) \<and> estimate < a \<and>
          DebitBalance (pd_payee sample_deps) sender (deriveWorkID ''p'') (a - estimate) 2 d3 = (Inl e, sv_payee (pq_server s')))"
    unfolding sample_paid_payee by blast
  have "served = Ret (Inr 3)" using serve by (simp add: sample_deps_def sample_capability_def)
  with cost sample_paid_for [OF paid] s show ?thesis
    by (auto simp: sample_deps_def fakeClient_def units_owed_def BalanceFor_def NewFake_def)
qed

end
