(* ===== verification/Handlers.thy ===== *)
theory Handlers
  imports Http Payee_Fake
begin

text \<open>
  \<^verbatim>\<open>runtime/http/handlers.go\<close>: the unpaid routes, that is health, the registry's view of the
  offerings and the ticket-params proxy, with bearer authentication, the parsing of addresses
  and amounts and the rendering of the daemon's ticket parameters. \<open>encoding/json\<close>'s decoder and
  gRPC's \<open>status.FromError\<close> are parameters. The decoder reads from a stream: the bytes up to the
  limit of \<open>MaxBytesReader\<close> and the error that follows them. A response status of 200 is the one
  net/http sends when the handler writes a body without a header.
\<close>

section \<open>Health and offerings\<close>

definition bytes_reply :: "json \<Rightarrow> Response" where
  "bytes_reply j = \<lparr>rp_Status = 200, rp_Body = Json j\<rparr>"

definition healthHandler :: "Config \<Rightarrow> 'd Mux \<Rightarrow> ('d, 'r, Response) handler" where
  "healthHandler cfg mux =
     andThen (gets InflightPaid) (\<lambda>inflight.
       ret (bytes_reply (JObj [(''api_version'', JInt (cf_APIVersion cfg)), (''inflight'', JInt inflight),
              (''max_concurrent'', JInt (MaxConcurrentPaid mux)),
              (''protocol_version'', JInt (cf_ProtocolVersion cfg)), (''status'', JStr ''ok'')])))"

definition requireBearerAuth :: "Request \<Rightarrow> string \<Rightarrow> Response option" where
  \<comment> \<open>\<open>None\<close> lets the request through, \<open>Some\<close> is the 401 that was written\<close>
  "requireBearerAuth r authToken =
     (if authToken = '''' then None
      else let gotAuth = header_Get (rq_Header r) ''Authorization''; want = ''Bearer '' @ authToken in
        if gotAuth \<noteq> want then Some (writeJSONError 401 ''unauthorized'' ''missing or invalid bearer token'')
        else None)"

record offeringJSON =
  oj_ID :: string
  oj_PricePerWorkUnitWei :: string

record registryCapabilityJSON =
  rc_Name :: string
  rc_WorkUnit :: string
  rc_Offerings :: "offeringJSON list"

record registryOfferingsJSON =
  ro_WorkerEthAddress :: string
  ro_Capabilities :: "registryCapabilityJSON list"

definition registry_offerings :: "Config \<Rightarrow> registryOfferingsJSON" where
  "registry_offerings cfg =
     \<lparr>ro_WorkerEthAddress = (if cf_WorkerEthAddress cfg \<noteq> '''' then cf_WorkerEthAddress cfg else ''''),
      ro_Capabilities =
        map (\<lambda>c. \<lparr>rc_Name = ce_Capability c, rc_WorkUnit = ce_WorkUnit c,
                  rc_Offerings = map (\<lambda>oo. \<lparr>oj_ID = oe_ID oo, oj_PricePerWorkUnitWei = oe_PricePerWorkUnitWei oo\<rparr>)
                                   (ce_Offerings c)\<rparr>) (cf_Ordered cfg)\<rparr>"

definition json_offerings :: "registryOfferingsJSON \<Rightarrow> json" where
  \<comment> \<open>\<open>worker_eth_address\<close> is \<open>omitempty\<close>\<close>
  "json_offerings out =
     JObj ((if ro_WorkerEthAddress out = '''' then [] else [(''worker_eth_address'', JStr (ro_WorkerEthAddress out))])
           @ [(''capabilities'', JArr (map (\<lambda>c.
                JObj [(''name'', JStr (rc_Name c)), (''work_unit'', JStr (rc_WorkUnit c)),
                      (''offerings'', JArr (map (\<lambda>oo.
                         JObj [(''id'', JStr (oj_ID oo)),
                               (''price_per_work_unit_wei'', JStr (oj_PricePerWorkUnitWei oo))])
                         (rc_Offerings c)))]) (ro_Capabilities out)))])"

definition registryOfferingsHandler :: "Config \<Rightarrow> Request \<Rightarrow> Response" where
  "registryOfferingsHandler cfg r =
     (case requireBearerAuth r (cf_AuthToken cfg) of
        Some resp \<Rightarrow> resp
      | None \<Rightarrow> bytes_reply (json_offerings (registry_offerings cfg)))"

section \<open>Parsing\<close>

definition hex_char :: "char \<Rightarrow> bool" where
  "hex_char c = (hex_val c \<noteq> None)"

definition match_ethAddressRE :: "string \<Rightarrow> bool" where
  \<comment> \<open>\<open>^0x[0-9a-fA-F]{40}$\<close>\<close>
  "match_ethAddressRE s = (length s = 42 \<and> take 2 s = ''0x'' \<and> list_all hex_char (drop 2 s))"

definition parseHexAddress :: "string \<Rightarrow> string \<Rightarrow> goerr + bytes" where
  "parseHexAddress field value0 =
     (let value = TrimSpace value0 in
      if \<not> match_ethAddressRE value
      then Inl (ErrorText (field @ '' must be a 0x-prefixed 40-hex address''))
      else case hex_DecodeString (drop 2 value) of
             None \<Rightarrow> Inl (Wrapped (field @ '' decode'') (ErrorText ''encoding/hex: invalid byte''))
           | Some b \<Rightarrow> Inr b)"

record ticketParamsRequestJSON =
  tq_SenderETHAddress :: string
  tq_RecipientETHAddress :: string
  tq_FaceValueWei :: string
  tq_Capability :: string
  tq_Offering :: string

definition parseTicketParamsRequest :: "ticketParamsRequestJSON \<Rightarrow> goerr + GetTicketParamsRequest" where
  "parseTicketParamsRequest q =
     (case parseHexAddress ''sender_eth_address'' (tq_SenderETHAddress q) of
        Inl err \<Rightarrow> Inl err
      | Inr sender \<Rightarrow>
     (case parseHexAddress ''recipient_eth_address'' (tq_RecipientETHAddress q) of
        Inl err \<Rightarrow> Inl err
      | Inr recipient \<Rightarrow>
     (case big_SetString (TrimSpace (tq_FaceValueWei q)) of
        None \<Rightarrow> Inl (ErrorText ''face_value_wei must be a decimal integer'')
      | Some faceValue \<Rightarrow>
          if faceValue \<le> 0 then Inl (ErrorText ''face_value_wei must be > 0'')
          else if TrimSpace (tq_Capability q) = '''' then Inl (ErrorText ''capability is required'')
          else if TrimSpace (tq_Offering q) = '''' then Inl (ErrorText ''offering is required'')
          else Inr \<lparr>gt_Sender = sender, gt_Recipient = recipient, gt_FaceValue = faceValue,
                    gt_Capability = TrimSpace (tq_Capability q), gt_Offering = TrimSpace (tq_Offering q)\<rparr>)))"

section \<open>Rendering\<close>

definition bytesToHexString :: "bytes \<Rightarrow> string" where
  "bytesToHexString b = (if length b = 0 then ''0x'' else ''0x'' @ hex_EncodeToString b)"

definition bytesToDecimalString :: "bytes \<Rightarrow> string" where
  "bytesToDecimalString b = (if length b = 0 then ''0'' else big_String (big_SetBytes b))"

record ticketExpirationParamsJSON =
  te_CreationRound :: int
  te_CreationRoundBlockHash :: string

record ticketParamsJSON =
  tj_Recipient :: string
  tj_FaceValue :: string
  tj_WinProb :: string
  tj_RecipientRandHash :: string
  tj_Seed :: string
  tj_ExpirationBlock :: string
  tj_ExpirationParams :: ticketExpirationParamsJSON

definition renderTicketParamsJSON :: "TicketParams \<Rightarrow> ticketParamsJSON" where
  "renderTicketParamsJSON params =
     \<lparr>tj_Recipient = bytesToHexString (tp_Recipient params),
      tj_FaceValue = bytesToDecimalString (tp_FaceValueWei params),
      tj_WinProb = bytesToHexString (tp_WinProb params),
      tj_RecipientRandHash = bytesToHexString (tp_RecipientRandHash params),
      tj_Seed = bytesToHexString (tp_Seed params),
      tj_ExpirationBlock = bytesToDecimalString (tp_ExpirationBlock params),
      tj_ExpirationParams =
        \<lparr>te_CreationRound = tx_CreationRound (tp_ExpirationParams params),
         te_CreationRoundBlockHash = bytesToHexString (tx_CreationRoundBlockHash (tp_ExpirationParams params))\<rparr>\<rparr>"

definition json_ticketParams :: "ticketParamsJSON \<Rightarrow> json" where
  "json_ticketParams t =
     JObj [(''ticket_params'',
       JObj [(''recipient'', JStr (tj_Recipient t)), (''face_value'', JStr (tj_FaceValue t)),
             (''win_prob'', JStr (tj_WinProb t)), (''recipient_rand_hash'', JStr (tj_RecipientRandHash t)),
             (''seed'', JStr (tj_Seed t)), (''expiration_block'', JStr (tj_ExpirationBlock t)),
             (''expiration_params'',
               JObj [(''creation_round'', JInt (te_CreationRound (tj_ExpirationParams t))),
                     (''creation_round_block_hash'', JStr (te_CreationRoundBlockHash (tj_ExpirationParams t)))])])]"

section \<open>The ticket-params proxy\<close>

definition maxTicketParamsBodyBytes :: nat where "maxTicketParamsBodyBytes = 8 * 2 ^ 10"

type_synonym stream = "bytes \<times> goerr"

definition MaxBytesReader :: "nat \<Rightarrow> bytes \<Rightarrow> stream" where
  "MaxBytesReader limit body =
     (take limit body, if length body > limit then ErrorText ''http: request body too large'' else io_EOF)"

text \<open>
  A \<open>json.Decoder\<close> with \<open>DisallowUnknownFields\<close>: decoding the request leaves the rest of the
  stream; \<open>dc_Tail\<close> decodes what is left into an empty struct.
\<close>

record ticketDecoder =
  dc_Request :: "stream \<Rightarrow> (goerr + ticketParamsRequestJSON) \<times> stream"
  dc_Tail :: "stream \<Rightarrow> goerr option"

definition ensureSingleJSONDocument :: "ticketDecoder \<Rightarrow> stream \<Rightarrow> goerr option" where
  "ensureSingleJSONDocument dec rest =
     (case dc_Tail dec rest of
        None \<Rightarrow> Some (ErrorText ''request body must contain exactly one JSON object'')
      | Some err \<Rightarrow> if err = io_EOF then None else Some (Wrapped ''invalid JSON body'' err))"

datatype codes = Unavailable | DeadlineExceeded | InvalidArgument | NotFound | FailedPrecondition | OtherCode nat

type_synonym status_FromError = "goerr \<Rightarrow> (codes \<times> string) option"

definition writeTicketParamsProxyError :: "status_FromError \<Rightarrow> goerr \<Rightarrow> Response" where
  "writeTicketParamsProxyError fromError err =
     (case fromError err of
        None \<Rightarrow> writeJSONError 500 ''ticket_params_unavailable'' (error_text err)
      | Some (code, message) \<Rightarrow>
          if code = Unavailable \<or> code = DeadlineExceeded
          then writeJSONError 503 ''payment_daemon_unavailable'' message
          else if code = InvalidArgument \<or> code = NotFound \<or> code = FailedPrecondition
          then writeJSONError 400 ''invalid_request'' message
          else writeJSONError 500 ''ticket_params_unavailable'' message)"

definition ticketParamsHandler ::
  "Config \<Rightarrow> 'd Client \<Rightarrow> ticketDecoder \<Rightarrow> status_FromError \<Rightarrow> Request \<Rightarrow> ('d, 'r, Response) handler"
where
  "ticketParamsHandler cfg payee dec fromError r =
     (case requireBearerAuth r (cf_AuthToken cfg) of
        Some resp \<Rightarrow> ret resp
      | None \<Rightarrow>
     (case dc_Request dec (MaxBytesReader maxTicketParamsBodyBytes (rq_Body r)) of
        (Inl err, _) \<Rightarrow> ret (writeJSONError 400 ''invalid_request'' (''invalid JSON body: '' @ error_text err))
      | (Inr req, rest) \<Rightarrow>
     (case ensureSingleJSONDocument dec rest of
        Some err \<Rightarrow> ret (writeJSONError 400 ''invalid_request'' (error_text err))
      | None \<Rightarrow>
     (case parseTicketParamsRequest req of
        Inl err \<Rightarrow> ret (writeJSONError 400 ''invalid_request'' (error_text err))
      | Inr daemonReq \<Rightarrow>
          andThen (payee_call (GetTicketParams payee daemonReq)) (\<lambda>params.
          case params of
            Inl err \<Rightarrow> ret (writeTicketParamsProxyError fromError err)
          | Inr p \<Rightarrow> ret (bytes_reply (json_ticketParams (renderTicketParamsJSON p))))))))"

definition RegisterUnpaidHandlers :: "('d Mux, unit) proc" where
  "RegisterUnpaidHandlers =
     andThen (Register ''GET'' ''/health'') (\<lambda>_.
     andThen (Register ''GET'' ''/registry/offerings'') (\<lambda>_.
     Register ''POST'' ''/v1/payment/ticket-params''))"

section \<open>Lemmas: text that TrimSpace keeps\<close>

definition printable :: "char \<Rightarrow> bool" where
  "printable c \<longleftrightarrow> 33 \<le> (of_char c :: nat) \<and> (of_char c :: nat) \<le> 126"

lemma printable_not_space:
  assumes "\<forall>c \<in> set s. printable c"
  shows "\<not> starts_space space1 space2 space3 s"
    and "\<not> starts_space space1 (\<lambda>a b. space2 b a) (\<lambda>a b c. space3 c b a) s"
  using assms
  by (cases "(space1, space2, space3, s)" rule: starts_space.cases;
      auto simp: printable_def space1_def space2_def space3_def Let_def)+

lemma TrimSpace_printable: "\<forall>c \<in> set s. printable c \<Longrightarrow> TrimSpace s = s"
  by (simp add: TrimSpace_def TrimLeftSpace_def TrimRightSpace_def trim_with_fixed printable_not_space)

lemma printable_hex: "hex_char c \<Longrightarrow> printable c"
  by (auto simp: hex_char_def hex_val_def printable_def Let_def split: if_split_asm)

lemma printable_dec_nat: "c \<in> set (dec_nat n) \<Longrightarrow> printable c"
  using dec_nat_digits [of c n] by (simp add: printable_def)

lemma printable_big_String: "c \<in> set (big_String n) \<Longrightarrow> printable c"
  by (auto simp: big_String_def printable_dec_nat split: if_split_asm) (simp add: printable_def)

lemma hex_char_digit: "d < 16 \<Longrightarrow> hex_char (hex_digit d)"
  by (simp add: hex_char_def hex_val_hex_digit)

lemma hex_Encode_chars: "c \<in> set (hex_EncodeToString b) \<Longrightarrow> hex_char c"
proof (induction b)
  case (Cons x b)
  have "of_char x div 16 < (16 :: nat)"
    using of_char_lt_256 [of x] by (simp add: less_mult_imp_div_less)
  with Cons show ?case by (auto simp: hex_char_digit)
qed simp

lemma hex_Decode_chars:
  "list_all hex_char s \<Longrightarrow> even (length s) \<Longrightarrow> \<exists>b. hex_DecodeString s = Some b \<and> 2 * length b = length s"
proof (induction s rule: hex_DecodeString.induct)
  case (3 a b s)
  from 3(2) obtain x y where xy: "hex_val a = Some x" "hex_val b = Some y" by (auto simp: hex_char_def)
  with 3(1) [of "Some x" "Some y" x y] 3(2,3) show ?case by auto
qed auto

section \<open>Lemmas: addresses\<close>

lemma match_address: "length b = 20 \<Longrightarrow> match_ethAddressRE (''0x'' @ hex_EncodeToString b)"
  by (auto simp: match_ethAddressRE_def list_all_iff hex_Encode_chars)

lemma parseHexAddress_render: "length b = 20 \<Longrightarrow> parseHexAddress field (bytesToHexString b) = Inr b"
proof -
  assume len: "length b = 20"
  then have b: "bytesToHexString b = ''0x'' @ hex_EncodeToString b" by (simp add: bytesToHexString_def)
  have "printable (CHR ''0'')" "printable (CHR ''x'')" by (simp_all add: printable_def)
  then have "TrimSpace (''0x'' @ hex_EncodeToString b) = ''0x'' @ hex_EncodeToString b"
    by (intro TrimSpace_printable) (auto dest: hex_Encode_chars printable_hex)
  with match_address [OF len] show ?thesis
    by (simp add: parseHexAddress_def b Let_def hex_Decode_Encode)
qed

lemma parseHexAddress_ok:
  "parseHexAddress field v = Inr b \<Longrightarrow> length b = 20 \<and> match_ethAddressRE (TrimSpace v)"
  using hex_Decode_chars [of "drop 2 (TrimSpace v)"]
  by (auto simp: parseHexAddress_def Let_def match_ethAddressRE_def split: if_split_asm option.split_asm)

text \<open>The error of \<open>hex.DecodeString\<close> cannot occur after the pattern has matched.\<close>

lemma parseHexAddress_error:
  "parseHexAddress field v = Inl e \<Longrightarrow>
   \<not> match_ethAddressRE (TrimSpace v) \<and> e = ErrorText (field @ '' must be a 0x-prefixed 40-hex address'')"
  using hex_Decode_chars [of "drop 2 (TrimSpace v)"]
  by (auto simp: parseHexAddress_def Let_def match_ethAddressRE_def split: if_split_asm option.split_asm)

section \<open>Lemmas: requests\<close>

definition ticket_request_wf :: "GetTicketParamsRequest \<Rightarrow> bool" where
  "ticket_request_wf q \<longleftrightarrow>
     length (gt_Sender q) = 20 \<and> length (gt_Recipient q) = 20 \<and> 0 < gt_FaceValue q \<and>
     gt_Capability q \<noteq> '''' \<and> TrimSpace (gt_Capability q) = gt_Capability q \<and>
     gt_Offering q \<noteq> '''' \<and> TrimSpace (gt_Offering q) = gt_Offering q"

text \<open>How a client writes a request.\<close>

definition render_ticket_request :: "GetTicketParamsRequest \<Rightarrow> ticketParamsRequestJSON" where
  "render_ticket_request q =
     \<lparr>tq_SenderETHAddress = bytesToHexString (gt_Sender q), tq_RecipientETHAddress = bytesToHexString (gt_Recipient q),
      tq_FaceValueWei = big_String (gt_FaceValue q), tq_Capability = gt_Capability q, tq_Offering = gt_Offering q\<rparr>"

lemma TrimSpace_big_String [simp]: "TrimSpace (big_String n) = big_String n"
  by (rule TrimSpace_printable) (simp add: printable_big_String)

lemma parse_render: "ticket_request_wf q \<Longrightarrow> parseTicketParamsRequest (render_ticket_request q) = Inr q"
  by (simp add: ticket_request_wf_def render_ticket_request_def parseTicketParamsRequest_def parseHexAddress_render
      big_SetString_String)

lemma parse_wf: "parseTicketParamsRequest j = Inr q \<Longrightarrow> ticket_request_wf q"
  by (auto simp: parseTicketParamsRequest_def ticket_request_wf_def dest: parseHexAddress_ok
      split: sum.split_asm option.split_asm if_split_asm)

lemma hex_field: "hex_DecodeString (drop 2 (bytesToHexString b)) = Some b"
  by (simp add: bytesToHexString_def hex_Decode_Encode)

lemma decimal_field: "big_SetString (bytesToDecimalString b) = Some (big_SetBytes b)"
proof (cases "b = []")
  case True
  have "big_SetString ''0'' = Some 0" by (simp add: big_SetString_def scan_nat_def digit_val_def)
  with True show ?thesis by (simp add: bytesToDecimalString_def big_SetBytes_def)
qed (simp add: bytesToDecimalString_def big_SetString_String)

section \<open>Properties\<close>

text \<open>C30: What the ticket-params proxy asks of the daemon is always well formed: twenty-byte
  addresses, a positive face value, and capability and offering names that are not empty and carry no
  surrounding space; and every such request can be asked for, since the way a client
  writes it parses back to it.\<close>

theorem ticket_request_roundtrip:
  "(parseTicketParamsRequest j = Inr q \<longrightarrow> ticket_request_wf q) \<and>
   (ticket_request_wf q \<longrightarrow> parseTicketParamsRequest (render_ticket_request q) = Inr q)"
  by (simp add: parse_wf parse_render)

text \<open>C36: The proxy loses nothing of the daemon's ticket parameters: from the answer's fields a client
  decodes exactly the daemon's bytes, and for the two amounts the numbers these bytes denote.\<close>

theorem ticket_params_roundtrip:
  fixes p :: TicketParams
  defines "t \<equiv> renderTicketParamsJSON p"
  shows "hex_DecodeString (drop 2 (tj_Recipient t)) = Some (tp_Recipient p) \<and>
    hex_DecodeString (drop 2 (tj_WinProb t)) = Some (tp_WinProb p) \<and>
    hex_DecodeString (drop 2 (tj_RecipientRandHash t)) = Some (tp_RecipientRandHash p) \<and>
    hex_DecodeString (drop 2 (tj_Seed t)) = Some (tp_Seed p) \<and>
    hex_DecodeString (drop 2 (te_CreationRoundBlockHash (tj_ExpirationParams t)))
      = Some (tx_CreationRoundBlockHash (tp_ExpirationParams p)) \<and>
    te_CreationRound (tj_ExpirationParams t) = tx_CreationRound (tp_ExpirationParams p) \<and>
    big_SetString (tj_FaceValue t) = Some (big_SetBytes (tp_FaceValueWei p)) \<and>
    big_SetString (tj_ExpirationBlock t) = Some (big_SetBytes (tp_ExpirationBlock p))"
  by (simp add: t_def renderTicketParamsJSON_def hex_field decimal_field)

definition authorised :: "Config \<Rightarrow> Request \<Rightarrow> bool" where
  "authorised cfg r \<longleftrightarrow> cf_AuthToken cfg = '''' \<or> header_Get (rq_Header r) ''Authorization'' = ''Bearer '' @ cf_AuthToken cfg"

lemma requireBearerAuth_iff:
  "requireBearerAuth r (cf_AuthToken cfg) =
     (if authorised cfg r then None
      else Some (writeJSONError 401 ''unauthorized'' ''missing or invalid bearer token''))"
  by (auto simp: requireBearerAuth_def authorised_def Let_def)

lemma proxy_error_status: "rp_Status (writeTicketParamsProxyError fromError err) \<in> {400, 500, 503}"
  by (auto simp: writeTicketParamsProxyError_def writeJSONError_def split: option.split prod.split)

lemma proxy_error_not:
  "rp_Status (writeTicketParamsProxyError fromError err) \<noteq> 401"
  "rp_Status (writeTicketParamsProxyError fromError err) \<noteq> 200"
  using proxy_error_status [of fromError err] by auto

text \<open>C31: How the ticket-params proxy answers. It always answers; with 401 exactly when the bearer token
  is missing or wrong, and then the daemon is not asked; with 200 exactly when the body is one JSON
  request that parses and the daemon returned parameters for it, which are then the answer; otherwise
  with 400, 500 or 503. It changes neither slots nor sessions nor metrics.\<close>

theorem ticket_params_answers:
  assumes "ticketParamsHandler cfg payee dec fromError r st = (out, st')"
  shows "\<exists>resp. out = Ret resp \<and> rp_Status resp \<in> {200, 400, 401, 500, 503} \<and>
    (rp_Status resp = 401 \<longleftrightarrow> \<not> authorised cfg r) \<and> (\<not> authorised cfg r \<longrightarrow> st' = st) \<and>
    st' = st\<lparr>sv_payee := sv_payee st'\<rparr> \<and>
    (rp_Status resp = 200 \<longleftrightarrow> authorised cfg r \<and>
      (\<exists>j rest q p. dc_Request dec (MaxBytesReader maxTicketParamsBodyBytes (rq_Body r)) = (Inr j, rest) \<and>
         dc_Tail dec rest = Some io_EOF \<and> parseTicketParamsRequest j = Inr q \<and>
         GetTicketParams payee q (sv_payee st) = (Inr p, sv_payee st') \<and>
         resp = bytes_reply (json_ticketParams (renderTicketParamsJSON p))))"
proof (cases "authorised cfg r")
  case False
  with assms show ?thesis
    by (auto simp: ticketParamsHandler_def requireBearerAuth_iff writeJSONError_def)
next
  case True
  obtain x rest where dec: "dc_Request dec (MaxBytesReader maxTicketParamsBodyBytes (rq_Body r)) = (x, rest)"
    by (metis surj_pair)
  show ?thesis
  proof (cases "\<exists>j q. x = Inr j \<and> dc_Tail dec rest = Some io_EOF \<and> parseTicketParamsRequest j = Inr q")
    case False
    with True assms dec show ?thesis
      by (cases x) (auto simp: ticketParamsHandler_def requireBearerAuth_iff writeJSONError_def
          ensureSingleJSONDocument_def split: option.split_asm sum.split_asm if_split_asm)
  next
    case wf: True
    then obtain j q where q: "x = Inr j" "dc_Tail dec rest = Some io_EOF" "parseTicketParamsRequest j = Inr q" by blast
    obtain y d where y: "GetTicketParams payee q (sv_payee st) = (y, d)" by fastforce
    with True assms dec q proxy_error_status [of fromError] show ?thesis
      by (cases y) (auto simp: ticketParamsHandler_def requireBearerAuth_iff ensureSingleJSONDocument_def
          andThen_eq payee_call_eq bytes_reply_def proxy_error_not)
  qed
qed

text \<open>C32: The registry sees the truth: a loaded configuration advertises an offering of a capability at a
  price and in a work unit exactly when the worker routes requests for it at that price in that
  unit.\<close>

theorem registry_offerings_routed:
  assumes "Load fs dec urlErr path = Inr cfg"
  shows "(\<exists>c \<in> set (ro_Capabilities (registry_offerings cfg)). rc_Name c = cap \<and> rc_WorkUnit c = unit \<and>
            \<lparr>oj_ID = off, oj_PricePerWorkUnitWei = price\<rparr> \<in> set (rc_Offerings c)) \<longleftrightarrow>
         (\<exists>route. Lookup cfg cap off = Some route \<and> or_WorkUnit route = unit \<and> or_PricePerWorkUnitWei route = price)"
  using assms
proof (rule Load_Inr)
  fix y
  assume wf: "config_wf urlErr y" and cfg: "cfg = projectFromYAML y"
  let ?listed = "\<exists>c \<in> set (y_Capabilities y). \<exists>oo \<in> set (yc_Offerings c).
      cap = yc_Capability c \<and> unit = yc_WorkUnit c \<and> off = yo_ID oo \<and> price = yo_PricePerWorkUnitWei oo"
  have "cf_Ordered cfg = map project_capability (y_Capabilities y)"
    by (simp add: cfg projectFromYAML_def config_New_def)
  then have "(\<exists>c \<in> set (ro_Capabilities (registry_offerings cfg)). rc_Name c = cap \<and> rc_WorkUnit c = unit \<and>
      \<lparr>oj_ID = off, oj_PricePerWorkUnitWei = price\<rparr> \<in> set (rc_Offerings c)) \<longleftrightarrow> ?listed"
    by (fastforce simp: registry_offerings_def project_capability_def project_offering_def image_iff)
  moreover have "(\<exists>route. Lookup cfg cap off = Some route \<and> or_WorkUnit route = unit \<and>
      or_PricePerWorkUnitWei route = price) \<longleftrightarrow> ?listed"
    unfolding cfg Lookup_projectFromYAML [OF wf] by fastforce
  ultimately show ?thesis by blast
qed

section \<open>Witnesses\<close>

definition sample_ticket_request :: GetTicketParamsRequest where
  "sample_ticket_request =
     \<lparr>gt_Sender = replicate 20 CHR ''a'', gt_Recipient = replicate 20 CHR ''b'', gt_FaceValue = 5,
      gt_Capability = ''c'', gt_Offering = ''o''\<rparr>"

theorem ticket_request_roundtrip_witness:
  "parseTicketParamsRequest (render_ticket_request sample_ticket_request) = Inr sample_ticket_request"
proof -
  have "TrimSpace ''c'' = ''c''" "TrimSpace ''o'' = ''o''" by (simp_all add: TrimSpace_printable printable_def)
  then have "ticket_request_wf sample_ticket_request"
    by (simp add: ticket_request_wf_def sample_ticket_request_def)
  then show ?thesis using ticket_request_roundtrip [of _ sample_ticket_request] by blast
qed

definition sample_decoder :: ticketDecoder where
  "sample_decoder = \<lparr>dc_Request = (\<lambda>s. (Inr (render_ticket_request sample_ticket_request), ([], snd s))),
                     dc_Tail = (\<lambda>s. Some (snd s))\<rparr>"

definition sample_plain_request :: Request where
  "sample_plain_request = \<lparr>rq_Header = Map.empty, rq_Body = ''{}'', rq_PathValue = (\<lambda>k. [])\<rparr>"

theorem ticket_params_answers_witness:
  "\<exists>resp st'. ticketParamsHandler (projectFromYAML sample_yaml) fakeClient sample_decoder (\<lambda>e. None)
     sample_plain_request \<lparr>sv_payee = NewFake, sv_rec = (), sv_sem = 0, sv_sessions = Map.empty\<rparr> = (Ret resp, st') \<and>
     rp_Status resp \<noteq> 401"
proof -
  let ?st = "\<lparr>sv_payee = NewFake, sv_rec = (), sv_sem = 0, sv_sessions = Map.empty\<rparr>"
  obtain out st' where h: "ticketParamsHandler (projectFromYAML sample_yaml) fakeClient sample_decoder (\<lambda>e. None)
      sample_plain_request ?st = (out, st')" by fastforce
  have "authorised (projectFromYAML sample_yaml) sample_plain_request"
    by (simp add: authorised_def projectFromYAML_def config_New_def sample_yaml_def)
  with ticket_params_answers [OF h] h show ?thesis by auto
qed

theorem registry_offerings_routed_witness:
  "\<exists>c \<in> set (ro_Capabilities (registry_offerings (projectFromYAML sample_yaml))).
     rc_Name c = ''livepeer:vtuber-session'' \<and> rc_WorkUnit c = ''second'' \<and>
     \<lparr>oj_ID = ''hd'', oj_PricePerWorkUnitWei = ''6250''\<rparr> \<in> set (rc_Offerings c)"
  using registry_offerings_routed [OF sample_Load, of "''livepeer:vtuber-session''" "''second''" "''hd''" "''6250''"]
  by (simp add: sample_Lookup)

end
