(* ===== verification/System.thy ===== *)
theory System
  imports Streaming Handlers
begin

text \<open>
  The worker's handlers and session goroutines running side by side. A state is the shared server
  state, the running session goroutines (each with the \<open>closed\<close> flag of its payment session
  adapter) and the number of one-shot paid requests in flight; \<open>sy_leaked\<close> notes that a session
  ended without having closed its payment session. A step is one handler, one call of a session on
  its adapter, one operation on the semaphore, one call of a paid request on the daemon client or one
  record of a metric, each through the definition that models the code,
  in any order. \<open>system_inv\<close> is the invariant of all reachable states.
\<close>

record ('d, 'r) system =
  sy_server :: "('d, 'r) server"
  sy_running :: "(stream_start \<times> bool) list"
  sy_inflight :: nat
  sy_leaked :: bool

definition session_world :: "('d, 'r) system \<Rightarrow> bool \<Rightarrow> ('d, 'r) stream_world" where
  "session_world s c = \<lparr>st_server = sy_server s, st_closed = c\<rparr>"

definition drop_session :: "nat \<Rightarrow> (stream_start \<times> bool) list \<Rightarrow> (stream_start \<times> bool) list" where
  "drop_session i ss = take i ss @ drop (Suc i) ss"

text \<open>The calls a one-shot paid request makes on the daemon client.\<close>

definition paid_call :: "'d Client \<Rightarrow> 'd \<Rightarrow> 'd \<Rightarrow> bool" where
  "paid_call c d d' \<longleftrightarrow>
     (\<exists>q. d' = snd (OpenSession c q d)) \<or> (\<exists>b w. d' = snd (ProcessPayment c b w d)) \<or>
     (\<exists>sender w u q. d' = snd (DebitBalance c sender w u q d))"

inductive system_step ::
  "'d Mux \<Rightarrow> jsonDecoder \<Rightarrow> (string \<Rightarrow> string \<Rightarrow> goerr option) \<Rightarrow> ('d, 'r) system \<Rightarrow> ('d, 'r) system \<Rightarrow> bool"
  for mx :: "'d Mux" and jd :: jsonDecoder and stop :: "string \<Rightarrow> string \<Rightarrow> goerr option"
where
  session_opened:
    "streamingMiddleware mx jd capability readErr r (sy_server s) = (Ret (resp, Some start), st') \<Longrightarrow>
     system_step mx jd stop s (s\<lparr>sy_server := st', sy_running := (start, False) # sy_running s\<rparr>)"
| session_refused:
    "streamingMiddleware mx jd capability readErr r (sy_server s) = (Ret (resp, None), st') \<Longrightarrow>
     system_step mx jd stop s (s\<lparr>sy_server := st'\<rparr>)"
| session_debits:
    "(start, c) \<in> set (sy_running s) \<Longrightarrow>
     adapter_Debit (mx_payee mx) (ss_Sender start) (ss_WorkID start) u q (session_world s c) = (out, w) \<Longrightarrow>
     system_step mx jd stop s (s\<lparr>sy_server := st_server w\<rparr>)"
| session_checks:
    "(start, c) \<in> set (sy_running s) \<Longrightarrow>
     adapter_Sufficient (mx_payee mx) (ss_Sender start) (ss_WorkID start) u (session_world s c) = (out, w) \<Longrightarrow>
     system_step mx jd stop s (s\<lparr>sy_server := st_server w\<rparr>)"
| session_closes:
    "i < length (sy_running s) \<Longrightarrow> sy_running s ! i = (start, c) \<Longrightarrow>
     adapter_Close (mx_payee mx) (ss_Sender start) (ss_WorkID start) (registry_Delete (ss_GatewaySessionID start))
       (session_world s c) = (out, w) \<Longrightarrow>
     system_step mx jd stop s
       (s\<lparr>sy_server := st_server w, sy_running := (sy_running s)[i := (start, st_closed w)]\<rparr>)"
| session_ends:
    "i < length (sy_running s) \<Longrightarrow> sy_running s ! i = (start, c) \<Longrightarrow>
     sem_release (sy_server s) = (Ret (), st') \<Longrightarrow>
     system_step mx jd stop s
       (s\<lparr>sy_server := st', sy_running := drop_session i (sy_running s), sy_leaked := sy_leaked s \<or> \<not> c\<rparr>)"
| topped_up:
    "streamingTopupHandler (mx_payee mx) r (sy_server s) = (out, st') \<Longrightarrow>
     system_step mx jd stop s (s\<lparr>sy_server := st'\<rparr>)"
| end_requested:
    "streamingEndHandler (mx_payee mx) (Some (\<lambda>g u. ret (stop g u))) r (sy_server s) = (out, st') \<Longrightarrow>
     system_step mx jd stop s (s\<lparr>sy_server := st'\<rparr>)"
| paid_begins:
    "sem_acquire (mx_semCap mx) (sy_server s) = (Ret True, st') \<Longrightarrow>
     system_step mx jd stop s (s\<lparr>sy_server := st', sy_inflight := sy_inflight s + 1\<rparr>)"
| paid_works:
    "0 < sy_inflight s \<Longrightarrow> paid_call (mx_payee mx) (sv_payee (sy_server s)) d \<Longrightarrow>
     system_step mx jd stop s (s\<lparr>sy_server := (sy_server s)\<lparr>sv_payee := d\<rparr>\<rparr>)"
| paid_ends:
    "0 < sy_inflight s \<Longrightarrow> sem_release (sy_server s) = (Ret (), st') \<Longrightarrow>
     system_step mx jd stop s (s\<lparr>sy_server := st', sy_inflight := sy_inflight s - 1\<rparr>)"
| tickets_asked:
    "ticketParamsHandler (mx_cfg mx) (mx_payee mx) dec fromError r (sy_server s) = (out, st') \<Longrightarrow>
     system_step mx jd stop s (s\<lparr>sy_server := st'\<rparr>)"
| metric_recorded:
    "system_step mx jd stop s (s\<lparr>sy_server := (sy_server s)\<lparr>sv_rec := m\<rparr>\<rparr>)"

definition system_init :: "'d \<Rightarrow> 'r \<Rightarrow> ('d, 'r) system" where
  "system_init d m =
     \<lparr>sy_server = \<lparr>sv_payee = d, sv_rec = m, sv_sem = 0, sv_sessions = Map.empty\<rparr>, sy_running = [],
      sy_inflight = 0, sy_leaked = False\<rparr>"

section \<open>The invariant\<close>

definition slots_ok :: "'d Mux \<Rightarrow> ('d, 'r) system \<Rightarrow> bool" where
  "slots_ok mx s \<longleftrightarrow>
     sv_sem (sy_server s) = length (sy_running s) + sy_inflight s \<and> sv_sem (sy_server s) \<le> mx_semCap mx"

definition entry_live :: "(stream_start \<times> bool) list \<Rightarrow> string \<Rightarrow> streamingSessionInfo \<Rightarrow> bool" where
  "entry_live ss gid info \<longleftrightarrow>
     (\<exists>start. (start, False) \<in> set ss \<and> ss_GatewaySessionID start = gid \<and> ss_WorkID start = si_WorkID info \<and>
        ss_Sender start = si_Sender info)"

definition entry_ok :: "bool \<Rightarrow> (stream_start \<times> bool) list \<Rightarrow> string \<Rightarrow> streamingSessionInfo \<Rightarrow> bool" where
  "entry_ok leaked ss gid info \<longleftrightarrow>
     si_GatewaySessionID info = gid \<and> si_WorkerSessionID info = deriveWorkerSessionID (si_WorkID info) \<and>
     (leaked \<or> entry_live ss gid info)"

definition registry_ok :: "('d, 'r) system \<Rightarrow> bool" where
  "registry_ok s \<longleftrightarrow>
     (\<forall>gid info. sv_sessions (sy_server s) gid = Some info \<longrightarrow> entry_ok (sy_leaked s) (sy_running s) gid info)"

lemma registry_ok_mono:
  assumes "registry_ok s"
    and "\<And>g i. sv_sessions (sy_server s') g = Some i \<Longrightarrow> sv_sessions (sy_server s) g = Some i"
    and "\<And>g i. sv_sessions (sy_server s') g = Some i \<Longrightarrow> entry_ok (sy_leaked s) (sy_running s) g i \<Longrightarrow>
           entry_ok (sy_leaked s') (sy_running s') g i"
  shows "registry_ok s'"
  using assms unfolding registry_ok_def by blast

definition system_inv :: "'d Mux \<Rightarrow> ('d, 'r) system \<Rightarrow> bool" where
  "system_inv mx s \<longleftrightarrow> slots_ok mx s \<and> registry_ok s"

lemma system_inv_registry: "system_inv mx s \<Longrightarrow> registry_ok s"
  by (simp add: system_inv_def)

lemma registry_ok_inflight:
  "sv_sessions st' = sv_sessions (sy_server s) \<Longrightarrow>
   registry_ok (s\<lparr>sy_server := st', sy_inflight := n\<rparr>) = registry_ok s"
  by (simp add: registry_ok_def)

lemma system_inv_init: "system_inv mx (system_init d m)"
  by (simp add: system_inv_def slots_ok_def registry_ok_def system_init_def)

text \<open>A step that leaves slots and sessions alone and only forgets registry entries.\<close>

lemma system_inv_forget:
  assumes "system_inv mx s" and "sv_sem st' = sv_sem (sy_server s)"
    and sub: "sv_sessions st' \<subseteq>\<^sub>m sv_sessions (sy_server s)"
  shows "system_inv mx (s\<lparr>sy_server := st'\<rparr>)"
proof -
  have "sv_sessions (sy_server s) g = Some info" if "sv_sessions st' g = Some info" for g info
    using that sub by (metis domI map_le_def)
  then have "registry_ok (s\<lparr>sy_server := st'\<rparr>)"
    using system_inv_registry [OF assms(1)] by - (rule registry_ok_mono, auto)
  with assms(1,2) show ?thesis by (simp add: system_inv_def slots_ok_def)
qed

lemma length_drop_session: "i < length ss \<Longrightarrow> length (drop_session i ss) = length ss - 1"
  by (simp add: drop_session_def)

lemma set_drop_session: "x \<in> set ss \<Longrightarrow> x \<noteq> ss ! i \<Longrightarrow> x \<in> set (drop_session i ss)"
proof -
  assume "x \<in> set ss" and "x \<noteq> ss ! i"
  then obtain k where k: "k < length ss" "ss ! k = x" "k \<noteq> i" by (auto simp: in_set_conv_nth)
  show ?thesis
  proof (cases "k < i")
    case True
    with k have "take i ss ! k = x" "k < length (take i ss)" by auto
    then show ?thesis unfolding drop_session_def by (auto simp: in_set_conv_nth)
  next
    case False
    with k have "drop (Suc i) ss ! (k - Suc i) = x" "k - Suc i < length (drop (Suc i) ss)" by auto
    then show ?thesis unfolding drop_session_def set_append by (metis UnI2 nth_mem)
  qed
qed

section \<open>Preservation\<close>

lemma step_opened:
  assumes "system_inv mx s"
    and "streamingMiddleware mx jd capability readErr r (sy_server s) = (Ret (resp, Some start), st')"
  shows "system_inv mx (s\<lparr>sy_server := st', sy_running := (start, False) # sy_running s\<rparr>)"
proof -
  from streamingMiddleware_cases [OF assms(2)]
  have cap: "sv_sem (sy_server s) < mx_semCap mx" and sem: "sv_sem st' = sv_sem (sy_server s) + 1"
    and acc: "stream_accepted mx jd capability r start (sy_server s) (st'\<lparr>sv_sem := sv_sem (sy_server s)\<rparr>)" by auto
  from acc obtain info where reg: "sv_sessions st' = (sv_sessions (sy_server s))(ss_GatewaySessionID start \<mapsto> info)"
    and info: "si_GatewaySessionID info = ss_GatewaySessionID start" "si_WorkID info = ss_WorkID start"
      "si_WorkerSessionID info = deriveWorkerSessionID (ss_WorkID start)" "si_Sender info = ss_Sender start"
    unfolding stream_accepted_def by auto
  have "entry_live ((start, False) # sy_running s) g i" if "entry_live (sy_running s) g i" for g i
    using that unfolding entry_live_def by auto
  moreover have "entry_live ((start, False) # sy_running s) (ss_GatewaySessionID start) info"
    using info unfolding entry_live_def by auto
  ultimately have "registry_ok (s\<lparr>sy_server := st', sy_running := (start, False) # sy_running s\<rparr>)"
    using assms(1) info unfolding system_inv_def registry_ok_def entry_ok_def by (auto simp: reg)
  moreover have "slots_ok mx (s\<lparr>sy_server := st', sy_running := (start, False) # sy_running s\<rparr>)"
    using assms(1) cap sem by (simp add: system_inv_def slots_ok_def)
  ultimately show ?thesis by (simp add: system_inv_def)
qed

lemma step_closes:
  assumes inv: "system_inv mx s" and i: "i < length (sy_running s)" "sy_running s ! i = (start, c)"
    and close: "adapter_Close payee (ss_Sender start) (ss_WorkID start) (registry_Delete (ss_GatewaySessionID start))
      (session_world s c) = (out, w)"
  shows "system_inv mx (s\<lparr>sy_server := st_server w, sy_running := (sy_running s)[i := (start, st_closed w)]\<rparr>)"
proof (cases c)
  case True
  with close have "w = session_world s c" by (simp add: adapter_Close_def session_world_def)
  with i True have "(sy_running s)[i := (start, st_closed w)] = sy_running s" "st_server w = sy_server s"
    by (auto simp: session_world_def list_update_same_conv)
  with inv show ?thesis by simp
next
  case False
  with close obtain d where w: "st_closed w" "st_server w = (sy_server s)\<lparr>sv_payee := d,
      sv_sessions := (sv_sessions (sy_server s))(ss_GatewaySessionID start := None)\<rparr>"
    by (auto simp: adapter_Close_def session_world_def on_payee_def registry_Delete_def split: prod.split_asm)
  let ?ss = "(sy_running s)[i := (start, st_closed w)]"
  have "entry_live ?ss g info" if live: "entry_live (sy_running s) g info" and g: "g \<noteq> ss_GatewaySessionID start" for g info
  proof -
    from live obtain st where st: "(st, False) \<in> set (sy_running s)" "ss_GatewaySessionID st = g"
        "ss_WorkID st = si_WorkID info" "ss_Sender st = si_Sender info" unfolding entry_live_def by blast
    then obtain k where k: "k < length (sy_running s)" "sy_running s ! k = (st, False)" by (auto simp: in_set_conv_nth)
    with g st(2) i have "k \<noteq> i" by auto
    with k have "?ss ! k = (st, False)" "k < length ?ss" by simp_all
    then have "(st, False) \<in> set ?ss" by (metis nth_mem)
    with st show ?thesis unfolding entry_live_def by blast
  qed
  then have "registry_ok (s\<lparr>sy_server := st_server w, sy_running := ?ss\<rparr>)"
    using system_inv_registry [OF inv] by - (rule registry_ok_mono, auto simp: w entry_ok_def split: if_split_asm)
  with inv w show ?thesis by (simp add: system_inv_def slots_ok_def)
qed

lemma step_ends:
  assumes inv: "system_inv mx s" and i: "i < length (sy_running s)" "sy_running s ! i = (start, c)"
    and "sem_release (sy_server s) = (Ret (), st')"
  shows "system_inv mx (s\<lparr>sy_server := st', sy_running := drop_session i (sy_running s), sy_leaked := sy_leaked s \<or> \<not> c\<rparr>)"
proof -
  have st': "st' = (sy_server s)\<lparr>sv_sem := sv_sem (sy_server s) - 1\<rparr>"
    using assms(4) by (simp add: sem_release_def)
  have "entry_live (drop_session i (sy_running s)) g info" if "entry_live (sy_running s) g info" and c for g info
    using that i set_drop_session [of _ "sy_running s" i] unfolding entry_live_def by fastforce
  then have "registry_ok (s\<lparr>sy_server := st', sy_running := drop_session i (sy_running s), sy_leaked := sy_leaked s \<or> \<not> c\<rparr>)"
    using system_inv_registry [OF inv] by - (rule registry_ok_mono, auto simp: st' entry_ok_def)
  moreover have "1 \<le> length (sy_running s)" using i by simp
  ultimately show ?thesis
    using inv i by (auto simp: system_inv_def slots_ok_def st' length_drop_session)
qed

lemma topup_frame:
  "streamingTopupHandler payee r st = (out, st') \<Longrightarrow> sv_sem st' = sv_sem st \<and> sv_sessions st' = sv_sessions st"
  by (auto simp: streamingTopupHandler_def Let_def andThen_eq payee_call_eq split_sum_ex
      split: option.split_asm sum.split_asm if_split_asm)

lemma end_frame:
  "streamingEndHandler payee (Some (\<lambda>g u. ret (stop g u))) r st = (out, st') \<Longrightarrow>
   sv_sem st' = sv_sem st \<and> sv_sessions st' \<subseteq>\<^sub>m sv_sessions st"
  by (auto simp: streamingEndHandler_def Let_def andThen_eq payee_call_eq sessions_update_eq split_sum_ex
      registry_Delete_def map_le_def split: option.split_asm if_split_asm)

lemma tickets_frame:
  "ticketParamsHandler cfg payee dec fromError r st = (out, st') \<Longrightarrow> sv_sem st' = sv_sem st \<and> sv_sessions st' = sv_sessions st"
  by (auto simp: ticketParamsHandler_def andThen_eq payee_call_eq split_sum_ex
      split: option.split_asm prod.split_asm sum.split_asm)

lemma adapter_frames:
  "adapter_Debit payee sender workID u q w = (out, w') \<Longrightarrow> \<exists>d. st_server w' = (st_server w)\<lparr>sv_payee := d\<rparr>"
  "adapter_Sufficient payee sender workID u w = (out', w') \<Longrightarrow> \<exists>d. st_server w' = (st_server w)\<lparr>sv_payee := d\<rparr>"
  by (auto simp: adapter_Debit_def adapter_Sufficient_def on_payee_def split: prod.split_asm sum.split_asm)

lemma system_inv_step:
  assumes "system_step mx jd stop s s'" and "system_inv mx s"
  shows "system_inv mx s'"
  using assms
proof (induction rule: system_step.induct)
  case (session_opened capability readErr r s resp start st')
  then show ?case by (intro step_opened)
next
  case (session_refused capability readErr r s resp st')
  then show ?case
    using streamingMiddleware_cases [OF session_refused(1)]
    by (intro system_inv_forget) (auto simp: stream_refused_def)
next
  case (session_debits start c s u q out w)
  then show ?case
    using adapter_frames(1) [OF session_debits(2)] by (intro system_inv_forget) (auto simp: session_world_def)
next
  case (session_checks start c s u out w)
  then show ?case
    using adapter_frames(2) [OF session_checks(2)] by (intro system_inv_forget) (auto simp: session_world_def)
next
  case (session_closes i s start c out w)
  then show ?case by (intro step_closes)
next
  case (session_ends i s start c st')
  then show ?case by (intro step_ends)
next
  case (topped_up r s out st')
  then show ?case using topup_frame [OF topped_up(1)] by (intro system_inv_forget) auto
next
  case (end_requested r s out st')
  then show ?case using end_frame [OF end_requested(1)] by (intro system_inv_forget) auto
next
  case (paid_begins s st')
  then show ?case
    by (auto simp: registry_ok_inflight system_inv_def slots_ok_def sem_acquire_def split: if_split_asm)
next
  case (paid_works s d)
  then show ?case by (intro system_inv_forget) auto
next
  case (paid_ends s st')
  then show ?case
    by (auto simp: registry_ok_inflight system_inv_def slots_ok_def sem_release_def)
next
  case (tickets_asked dec fromError r s out st')
  then show ?case using tickets_frame [OF tickets_asked(1)] by (intro system_inv_forget) auto
next
  case (metric_recorded s m)
  then show ?case by (intro system_inv_forget) auto
qed

lemma system_inv_reachable:
  assumes "(system_step mx jd stop)\<^sup>*\<^sup>* (system_init d m) s"
  shows "system_inv mx s"
  using assms by (induction rule: rtranclp_induct) (auto intro: system_inv_init system_inv_step)

section \<open>Properties\<close>

text \<open>C8: In every reachable state of the worker, whatever the order of opens, debits, top-ups, end requests,
  closings and paid requests: the semaphore holds exactly one slot per running session goroutine and
  paid request in flight, and never more than the configured maximum; every registry entry is
  filed under its own gateway id with the worker id of its work id, and as long as no session has
  ended without closing its payment session, it belongs to a running session that is not closed yet,
  with the same work id and payer, so a top-up or an end request found there reaches a live session.\<close>

theorem system_invariant:
  assumes "(system_step mx jd stop)\<^sup>*\<^sup>* (system_init d m) s"
  shows "sv_sem (sy_server s) = length (sy_running s) + sy_inflight s \<and> sv_sem (sy_server s) \<le> mx_semCap mx \<and>
    (\<forall>gid info. registry_Get gid (sv_sessions (sy_server s)) = Some info \<longrightarrow>
       si_GatewaySessionID info = gid \<and> si_WorkerSessionID info = deriveWorkerSessionID (si_WorkID info) \<and>
       (sy_leaked s \<or> (\<exists>start. (start, False) \<in> set (sy_running s) \<and> ss_GatewaySessionID start = gid \<and>
          ss_WorkID start = si_WorkID info \<and> ss_Sender start = si_Sender info)))"
  using system_inv_reachable [OF assms]
  by (auto simp: system_inv_def slots_ok_def registry_ok_def entry_ok_def entry_live_def registry_Get_def)

theorem system_invariant_witness:
  "\<exists>s. (system_step sample_mux sample_jd (\<lambda>g u. None))\<^sup>*\<^sup>* (system_init NewFake ()) s \<and> length (sy_running s) = 1 \<and>
     sv_sem (sy_server s) = 1"
proof -
  obtain resp start st' where open1: "streamingMiddleware sample_mux sample_jd ''livepeer:vtuber-session'' None sample_request
      sample_server = (Ret (resp, Some start), st')"
    using sample_stream by blast
  have init: "sy_server (system_init NewFake ()) = sample_server"
    by (simp add: system_init_def sample_server_def)
  let ?s = "(system_init NewFake ())\<lparr>sy_server := st', sy_running := [(start, False)]\<rparr>"
  have "system_step sample_mux sample_jd (\<lambda>g u. None) (system_init NewFake ()) ?s"
    using session_opened [OF open1 [folded init]] by (simp add: system_init_def)
  then have reach: "(system_step sample_mux sample_jd (\<lambda>g u. None))\<^sup>*\<^sup>* (system_init NewFake ()) ?s" by blast
  from system_invariant [OF reach] reach show ?thesis by (auto simp: system_init_def)
qed

end
