(* ===== verification/Paid_In_System.thy ===== *)
theory Paid_In_System
  imports Paid_Route System
begin

text \<open>
  A one-shot paid request as a path of the system: every call of \<open>paymentMiddleware\<close> that touches the
  shared state is a step of \<open>system_step\<close>. The request takes a slot, works as a request in flight
  and gives the slot back, on every path and also when its module panics; so the
  invariant of the system covers it.
\<close>

section \<open>Inside the slot\<close>

definition paid_steps ::
  "'d Mux \<Rightarrow> jsonDecoder \<Rightarrow> (string \<Rightarrow> string \<Rightarrow> goerr option) \<Rightarrow> ('d, 'r) system \<Rightarrow>
   ('d, 'r, 'm) paid_request \<Rightarrow> ('d, 'r, 'm) paid_request \<Rightarrow> bool"
where
  "paid_steps mx jd stop s p p' \<longleftrightarrow>
     (system_step mx jd stop)\<^sup>*\<^sup>* (s\<lparr>sy_server := pq_server p\<rparr>) (s\<lparr>sy_server := pq_server p'\<rparr>)"

interpretation paid_steps: step_relation "paid_steps mx jd stop s" for mx :: "'d Mux" and jd stop
  and s :: "('d, 'r) system"
  by unfold_locales (auto simp: paid_steps_def)

lemma steps_same_server:
  "(\<And>p r p'. m p = (r, p') \<Longrightarrow> pq_server p' = pq_server p) \<Longrightarrow> keeps (paid_steps mx jd stop s) m"
  by (auto simp: keeps_def paid_steps_def)

lemma steps_emit:
  fixes deps :: "('d, 'r, 'm) paidRouteDeps"
  shows "keeps (paid_steps mx jd stop s) (emit_metric deps m)"
proof (rule keepsI)
  fix p :: "('d, 'r, 'm) paid_request"
  have "system_step mx jd stop (s\<lparr>sy_server := pq_server p\<rparr>)
      (s\<lparr>sy_server := (pq_server p)\<lparr>sv_rec := rec_of deps m (sv_rec (pq_server p))\<rparr>\<rparr>)"
    using metric_recorded [of mx jd stop "s\<lparr>sy_server := pq_server p\<rparr>"] by simp
  moreover have "snd (emit_metric deps m p) = p\<lparr>pq_server := (pq_server p)\<lparr>sv_rec := rec_of deps m (sv_rec (pq_server p))\<rparr>\<rparr>"
    using emit_metric_eq [of deps m p] by (metis prod.collapse)
  ultimately show "paid_steps mx jd stop s p (snd (emit_metric deps m p))" by (simp add: paid_steps_def r_into_rtranclp)
qed

lemma steps_payee:
  fixes s :: "('d, 'r) system"
  assumes "0 < sy_inflight s" and "\<And>d. paid_call (mx_payee mx) d (snd (f d))"
  shows "keeps (paid_steps mx jd stop s) (on_server (payee_call f))"
proof (rule keepsI)
  fix p :: "('d, 'r, 'm) paid_request"
  obtain x d where f: "f (sv_payee (pq_server p)) = (x, d)" by fastforce
  then have "paid_call (mx_payee mx) (sv_payee (pq_server p)) d" using assms(2) [of "sv_payee (pq_server p)"] by simp
  then have "system_step mx jd stop (s\<lparr>sy_server := pq_server p\<rparr>) (s\<lparr>sy_server := (pq_server p)\<lparr>sv_payee := d\<rparr>\<rparr>)"
    using paid_works [of "s\<lparr>sy_server := pq_server p\<rparr>" mx d jd stop] assms(1) by simp
  with f show "paid_steps mx jd stop s p (snd (on_server (payee_call f) p))"
    by (simp add: paid_steps_def on_server_def payee_call_def r_into_rtranclp)
qed

lemma steps_quiet:
  "keeps (paid_steps mx jd stop s) (write_ops ops)"
  "keeps (paid_steps mx jd stop s) (on_module h)"
  "keeps (paid_steps mx jd stop s) (\<lambda>p. (x, p))"
  "keeps (paid_steps mx jd stop s) (modify (\<lambda>p. p\<lparr>pq_modelLabel := l\<rparr>))"
  "keeps (paid_steps mx jd stop s) (reply_error a b c)"
  by (auto intro!: steps_same_server simp: write_ops_eq on_module_eq modify_eq reply_error_def Let_def)

lemma paid_calls:
  "paid_call c d (snd (OpenSession c q d))" "paid_call c d (snd (ProcessPayment c b w d))"
  "paid_call c d (snd (DebitBalance c sender w u n d))"
  unfolding paid_call_def by blast+

lemmas paid_steps_rules = paid_steps.keeps_core steps_quiet steps_emit steps_payee paid_calls

lemma steps_admit:
  assumes "0 < sy_inflight s" and "pd_payee deps = mx_payee mx"
  shows "keeps (paid_steps mx jd stop s) (paid_admit deps readErr r)"
  unfolding paid_admit_def paid_charge_def paid_serve_def Let_def split_beta assms(2)
  by (intro paid_steps_rules assms(1))

lemma steps_counted:
  assumes "0 < sy_inflight s" and "pd_payee deps = mx_payee mx"
    and "paid_counted deps ctxErr readErr r p = (out, p')"
  shows "paid_steps mx jd stop s p p'"
proof -
  have "keeps (paid_steps mx jd stop s) (andThen (emit_metric deps a) (\<lambda>_. emit_metric deps b))" for a b
    by (intro paid_steps_rules)
  then have "keeps (paid_steps mx jd stop s) (count_request deps ctxErr)"
    unfolding keeps_def count_request_def Let_def by blast
  moreover obtain t where "paid_admit deps readErr r p = (out, t)" "count_request deps ctxErr t = (Ret (), p')"
    using assms(3) by (auto simp: paid_counted_eq)
  ultimately show ?thesis using steps_admit [OF assms(1,2)] by (blast dest: keepsD intro: paid_steps.trans)
qed

section \<open>Properties\<close>

text \<open>C20: A paid request is a path of the worker. For a route that shares semaphore and daemon client
  with the mux, every run of \<open>paymentMiddleware\<close>, whatever it answers and also when it panics, takes the
  system from its state to the same state with the shared server state the request leaves: it takes a
  slot or is turned away, works only through calls on the daemon client and metrics, gives the slot back. So what
  holds in every reachable state holds after it.\<close>

theorem paid_run_in_system:
  assumes "pd_sem deps = Some (mx_semCap mx)" and "pd_payee deps = mx_payee mx"
    and run: "paymentMiddleware deps ctxErr readErr r m (sy_server s) = (out, p')"
  shows "(system_step mx jd stop)\<^sup>*\<^sup>* s (s\<lparr>sy_server := pq_server p'\<rparr>)"
proof (cases "sv_sem (sy_server s) < mx_semCap mx")
  case False
  let ?p = "\<lparr>pq_server = sy_server s, pq_sw = new_statusWriter, pq_modelLabel = LabelUnset, pq_module = m\<rparr>"
  have full: "\<not> sv_sem (pq_server ?p) < mx_semCap mx" using False by simp
  from paid_gate_full [OF assms(1) full, of ctxErr readErr r] run
  obtain ms where "pq_server p' = (sy_server s)\<lparr>sv_rec := ms\<rparr>" by (auto simp: paymentMiddleware_def)
  then show ?thesis using metric_recorded [of mx jd stop s ms] by (simp add: r_into_rtranclp)
next
  case True
  let ?p = "\<lparr>pq_server = sy_server s, pq_sw = new_statusWriter, pq_modelLabel = LabelUnset, pq_module = m\<rparr>"
  let ?in = "s\<lparr>sy_inflight := sy_inflight s + 1, sy_server := pq_server (enter deps ?p)\<rparr>"
  have room: "sv_sem (pq_server ?p) < mx_semCap mx" using True by simp
  from run obtain t where t: "paid_counted deps ctxErr readErr r (enter deps ?p) = (out, t)" "p' = leave deps t"
    by (auto simp: paymentMiddleware_def paid_gate_admitted [OF assms(1) room])
  let ?slot = "s\<lparr>sy_server := (sy_server s)\<lparr>sv_sem := sv_sem (sy_server s) + 1\<rparr>, sy_inflight := sy_inflight s + 1\<rparr>"
  have "system_step mx jd stop s ?slot"
    using True paid_begins [of mx s] by (simp add: sem_acquire_def)
  moreover have "system_step mx jd stop ?slot ?in"
    using metric_recorded [of mx jd stop ?slot "rec_of deps (SetInflightRequests (int (sv_sem (sy_server s) + 1))) (sv_rec (sy_server s))"]
    by (simp add: enter_def)
  moreover have "(system_step mx jd stop)\<^sup>*\<^sup>* ?in (?in\<lparr>sy_server := pq_server t\<rparr>)"
    using steps_counted [of ?in deps mx, OF _ assms(2) t(1)] by (simp add: paid_steps_def)
  moreover have "system_step mx jd stop (?in\<lparr>sy_server := pq_server t\<rparr>)
      (s\<lparr>sy_server := (pq_server t)\<lparr>sv_sem := sv_sem (pq_server t) - 1\<rparr>\<rparr>)"
    using paid_ends [of "?in\<lparr>sy_server := pq_server t\<rparr>"] by (simp add: sem_release_def)
  moreover have "system_step mx jd stop (s\<lparr>sy_server := (pq_server t)\<lparr>sv_sem := sv_sem (pq_server t) - 1\<rparr>\<rparr>)
      (s\<lparr>sy_server := pq_server p'\<rparr>)"
    using metric_recorded [of mx jd stop "s\<lparr>sy_server := (pq_server t)\<lparr>sv_sem := sv_sem (pq_server t) - 1\<rparr>\<rparr>"
        "rec_of deps (SetInflightRequests (int (sv_sem (pq_server t) - 1))) (sv_rec (pq_server t))"]
    by (simp add: t(2) leave_def)
  ultimately show ?thesis by (meson converse_rtranclp_into_rtranclp rtranclp.rtrancl_into_rtrancl rtranclp_trans)
qed

theorem paid_run_in_system_witness:
  "\<exists>p'. paymentMiddleware sample_deps None None sample_paid_request () sample_paid_server = (Ret (), p') \<and>
     (system_step (sample_mux\<lparr>mx_semCap := 1\<rparr>) sample_jd (\<lambda>g u. None))\<^sup>*\<^sup>* (system_init NewFake NewCounter)
       ((system_init NewFake NewCounter)\<lparr>sy_server := pq_server p'\<rparr>)"
proof -
  obtain p' where p: "paymentMiddleware sample_deps None None sample_paid_request () sample_paid_server = (Ret (), p')"
    using sample_paid_run by blast
  have "sy_server (system_init NewFake NewCounter) = sample_paid_server"
    by (simp add: system_init_def sample_paid_server_def)
  with p have run: "paymentMiddleware sample_deps None None sample_paid_request () (sy_server (system_init NewFake NewCounter))
      = (Ret (), p')" by simp
  have sem: "pd_sem sample_deps = Some (mx_semCap (sample_mux\<lparr>mx_semCap := 1\<rparr>))" by (simp add: sample_deps_def)
  have payee: "pd_payee sample_deps = mx_payee (sample_mux\<lparr>mx_semCap := 1\<rparr>)"
    by (simp add: sample_deps_def sample_mux_def NewMux_def Let_def)
  from paid_run_in_system [OF sem payee run, of sample_jd "\<lambda>g u. None"] p show ?thesis by auto
qed

end
