(* ===== verification/Payee_Wire.thy ===== *)
theory Payee_Wire
  imports Streaming
begin

text \<open>
  \<^verbatim>\<open>internal/providers/payeedaemon/grpc.go\<close>: the production \<open>Client\<close>, which turns the worker's
  calls into messages of the daemon's protocol and the daemon's answers back. The generated stub
  \<open>PayeeDaemonClient\<close> (the daemon and the transport behind it) is a parameter, a record of functions
  on messages; the messages are the generated structs, with an option for a pointer to a message,
  whose getters answer the zero value on nil. Amounts travel as big-endian bytes without a sign. The
  client keeps the ledger contract and the truth of the runway check of the daemon behind it, not
  the sign of the balances.
\<close>

section \<open>Messages\<close>

record OpenSessionMsg =
  wo_WorkId :: string
  wo_Capability :: string
  wo_Offering :: string
  wo_PricePerWorkUnitWei :: bytes
  wo_WorkUnit :: string

datatype wire_outcome = OUTCOME_UNSPECIFIED | OUTCOME_OPENED | OUTCOME_ALREADY_OPEN | OUTCOME_OTHER int

fun wire_outcome_String :: "wire_outcome \<Rightarrow> string" where
  "wire_outcome_String OUTCOME_UNSPECIFIED = ''OUTCOME_UNSPECIFIED''"
| "wire_outcome_String OUTCOME_OPENED = ''OUTCOME_OPENED''"
| "wire_outcome_String OUTCOME_ALREADY_OPEN = ''OUTCOME_ALREADY_OPEN''"
| "wire_outcome_String (OUTCOME_OTHER n) = big_String n"

record ProcessPaymentMsg =
  wp_Sender :: bytes
  wp_CreditedEv :: bytes
  wp_Balance :: bytes
  wp_WinnersQueued :: int

record SufficientBalanceMsg =
  wb_Sufficient :: bool
  wb_Balance :: bytes

record PriceInfo =
  pi_PricePerUnit :: int
  pi_PixelsPerUnit :: int

record OfferingPriceMsg =
  wf_Id :: string
  wf_PriceInfo :: "PriceInfo option"

record CapabilityMsg =
  wc_Capability :: string
  wc_WorkUnit :: string
  wc_Offerings :: "OfferingPriceMsg list"

record TicketExpirationMsg =
  we_CreationRound :: int
  we_CreationRoundBlockHash :: bytes

record TicketParamsMsg =
  wt_Recipient :: bytes
  wt_FaceValue :: bytes
  wt_WinProb :: bytes
  wt_RecipientRandHash :: bytes
  wt_Seed :: bytes
  wt_ExpirationBlock :: bytes
  wt_ExpirationParams :: "TicketExpirationMsg option"

record GetQuoteMsg =
  wq_TicketParams :: "TicketParamsMsg option"
  wq_OfferingPrices :: "OfferingPriceMsg list"

record GetTicketParamsMsg =
  wg_Sender :: bytes
  wg_Recipient :: bytes
  wg_FaceValue :: bytes
  wg_Capability :: string
  wg_Offering :: string

record 'd PayeeDaemonClient =
  rpc_OpenSession :: "OpenSessionMsg \<Rightarrow> 'd \<Rightarrow> (goerr + wire_outcome) \<times> 'd"
  rpc_ListCapabilities :: "'d \<Rightarrow> (goerr + CapabilityMsg list) \<times> 'd"
  rpc_ProcessPayment :: "bytes \<Rightarrow> string \<Rightarrow> 'd \<Rightarrow> (goerr + ProcessPaymentMsg) \<times> 'd"
  rpc_GetQuote :: "bytes \<Rightarrow> string \<Rightarrow> 'd \<Rightarrow> (goerr + GetQuoteMsg) \<times> 'd"
  rpc_GetTicketParams :: "GetTicketParamsMsg \<Rightarrow> 'd \<Rightarrow> (goerr + TicketParamsMsg option) \<times> 'd"
  rpc_DebitBalance :: "bytes \<Rightarrow> string \<Rightarrow> int \<Rightarrow> u64 \<Rightarrow> 'd \<Rightarrow> (goerr + bytes) \<times> 'd"
  rpc_SufficientBalance :: "bytes \<Rightarrow> string \<Rightarrow> int \<Rightarrow> 'd \<Rightarrow> (goerr + SufficientBalanceMsg) \<times> 'd"
  rpc_CloseSession :: "bytes \<Rightarrow> string \<Rightarrow> 'd \<Rightarrow> (goerr + unit) \<times> 'd"

section \<open>The client\<close>

definition rpc ::
  "string \<Rightarrow> ('d \<Rightarrow> (goerr + 'm) \<times> 'd) \<Rightarrow> ('m \<Rightarrow> goerr + 'a) \<Rightarrow> 'd \<Rightarrow> (goerr + 'a) \<times> 'd"
where
  \<comment> \<open>the call and the wrapping of its error that all methods share\<close>
  "rpc name call result d =
     (case call d of
        (Inl err, d') \<Rightarrow> (Inl (Wrapped (''payeedaemon: '' @ name) err), d')
      | (Inr resp, d') \<Rightarrow> (result resp, d'))"

definition Dial :: "(string \<Rightarrow> goerr option) \<Rightarrow> string \<Rightarrow> goerr option" where
  \<comment> \<open>\<open>newClient\<close> is the error of \<open>grpc.NewClient\<close> on a target\<close>
  "Dial newClient socketPath =
     (if socketPath = '''' then Some (ErrorText ''payeedaemon: Dial requires a socket path'')
      else map_option (Wrapped (''payeedaemon: dial \"'' @ socketPath @ ''\"'')) (newClient (''unix://'' @ socketPath)))"

definition grpc_Close :: "goerr option option \<Rightarrow> goerr option" where
  \<comment> \<open>of the connection: none, or what closing it answers\<close>
  "grpc_Close conn = (case conn of None \<Rightarrow> None | Some err \<Rightarrow> err)"

definition open_message :: "OpenSessionRequest \<Rightarrow> int \<Rightarrow> OpenSessionMsg" where
  "open_message req price =
     \<lparr>wo_WorkId = os_WorkID req, wo_Capability = os_Capability req, wo_Offering = os_Offering req,
      wo_PricePerWorkUnitWei = big_Bytes price, wo_WorkUnit = os_WorkUnit req\<rparr>"

definition open_result :: "wire_outcome \<Rightarrow> goerr + OpenSessionOutcome" where
  "open_result outcome =
     (case outcome of
        OUTCOME_OPENED \<Rightarrow> Inr OpenSessionOutcomeOpened
      | OUTCOME_ALREADY_OPEN \<Rightarrow> Inr OpenSessionOutcomeAlreadyOpen
      | _ \<Rightarrow> Inl (ErrorText (''payeedaemon: OpenSession: unexpected outcome '' @ wire_outcome_String outcome)))"

text \<open>\<open>Bytes\<close> on a nil price panics.\<close>

definition grpc_OpenSession ::
  "'d PayeeDaemonClient \<Rightarrow> OpenSessionRequest \<Rightarrow> ('d, goerr + OpenSessionOutcome) proc"
where
  "grpc_OpenSession c req d =
     (case os_PricePerWorkUnitWei req of
        None \<Rightarrow> (Panic ''invalid memory address or nil pointer dereference'', d)
      | Some price \<Rightarrow>
          (case rpc ''OpenSession'' (rpc_OpenSession c (open_message req price)) open_result d of
             (r, d') \<Rightarrow> (Ret r, d')))"

definition priceInfoToWeiString :: "PriceInfo option \<Rightarrow> string" where
  "priceInfoToWeiString p =
     (case p of
        None \<Rightarrow> ''0''
      | Some i \<Rightarrow>
          let num = pi_PricePerUnit i; den = pi_PixelsPerUnit i in
          if den \<le> 0 then big_String num else big_String (go_quot num den))"

definition offering_of :: "OfferingPriceMsg \<Rightarrow> OfferingPrice" where
  "offering_of oo = \<lparr>op_ID = wf_Id oo, op_PricePerWorkUnitWei = priceInfoToWeiString (wf_PriceInfo oo)\<rparr>"

definition catalog_of :: "CapabilityMsg \<Rightarrow> Capability" where
  "catalog_of m = \<lparr>dc_Capability = wc_Capability m, dc_WorkUnit = wc_WorkUnit m,
                   dc_Offerings = map offering_of (wc_Offerings m)\<rparr>"

definition grpc_ListCapabilities :: "'d PayeeDaemonClient \<Rightarrow> 'd \<Rightarrow> (goerr + Capability list) \<times> 'd" where
  "grpc_ListCapabilities c =
     rpc ''ListCapabilities'' (rpc_ListCapabilities c) (\<lambda>caps.
       Inr (map catalog_of caps))"

definition grpc_ProcessPayment ::
  "'d PayeeDaemonClient \<Rightarrow> bytes \<Rightarrow> string \<Rightarrow> 'd \<Rightarrow> (goerr + ProcessPaymentResult) \<times> 'd"
where
  "grpc_ProcessPayment c paymentBytes workID =
     rpc ''ProcessPayment'' (rpc_ProcessPayment c paymentBytes workID) (\<lambda>resp.
       Inr \<lparr>pp_Sender = wp_Sender resp, pp_CreditedEVWei = big_SetBytes (wp_CreditedEv resp),
            pp_BalanceWei = big_SetBytes (wp_Balance resp), pp_WinnersQueued = wp_WinnersQueued resp\<rparr>)"

definition ticket_params_of :: "TicketParamsMsg \<Rightarrow> TicketParams" where
  "ticket_params_of tp =
     \<lparr>tp_Recipient = wt_Recipient tp, tp_FaceValueWei = wt_FaceValue tp, tp_WinProb = wt_WinProb tp,
      tp_RecipientRandHash = wt_RecipientRandHash tp, tp_Seed = wt_Seed tp,
      tp_ExpirationBlock = wt_ExpirationBlock tp,
      tp_ExpirationParams =
        (case wt_ExpirationParams tp of
           None \<Rightarrow> \<lparr>tx_CreationRound = 0, tx_CreationRoundBlockHash = []\<rparr>
         | Some e \<Rightarrow> \<lparr>tx_CreationRound = we_CreationRound e,
                      tx_CreationRoundBlockHash = we_CreationRoundBlockHash e\<rparr>)\<rparr>"

definition grpc_GetQuote :: "'d PayeeDaemonClient \<Rightarrow> bytes \<Rightarrow> string \<Rightarrow> 'd \<Rightarrow> (goerr + GetQuoteResult) \<times> 'd" where
  "grpc_GetQuote c sender capability =
     rpc ''GetQuote'' (rpc_GetQuote c sender capability) (\<lambda>resp.
       Inr \<lparr>gq_TicketParams =
              (case wq_TicketParams resp of None \<Rightarrow> noTicketParams | Some tp \<Rightarrow> ticket_params_of tp),
            gq_OfferingPrices = map offering_of (wq_OfferingPrices resp)\<rparr>)"

definition ticket_message :: "GetTicketParamsRequest \<Rightarrow> GetTicketParamsMsg" where
  "ticket_message req =
     \<lparr>wg_Sender = gt_Sender req, wg_Recipient = gt_Recipient req, wg_FaceValue = big_Bytes (gt_FaceValue req),
      wg_Capability = gt_Capability req, wg_Offering = gt_Offering req\<rparr>"

definition grpc_GetTicketParams ::
  "'d PayeeDaemonClient \<Rightarrow> GetTicketParamsRequest \<Rightarrow> 'd \<Rightarrow> (goerr + TicketParams) \<times> 'd"
where
  "grpc_GetTicketParams c req =
     rpc ''GetTicketParams'' (rpc_GetTicketParams c (ticket_message req)) (\<lambda>resp.
       case resp of
         None \<Rightarrow> Inl (ErrorText ''payeedaemon: GetTicketParams: daemon returned nil ticket_params'')
       | Some tp \<Rightarrow> Inr (ticket_params_of tp))"

definition grpc_DebitBalance ::
  "'d PayeeDaemonClient \<Rightarrow> bytes \<Rightarrow> string \<Rightarrow> int \<Rightarrow> u64 \<Rightarrow> 'd \<Rightarrow> (goerr + int option) \<times> 'd"
where
  "grpc_DebitBalance c sender workID workUnits seq =
     rpc ''DebitBalance'' (rpc_DebitBalance c sender workID workUnits seq)
       (\<lambda>balance. Inr (Some (big_SetBytes balance)))"

definition grpc_SufficientBalance ::
  "'d PayeeDaemonClient \<Rightarrow> bytes \<Rightarrow> string \<Rightarrow> int \<Rightarrow> 'd \<Rightarrow> (goerr + SufficientBalanceResult) \<times> 'd"
where
  "grpc_SufficientBalance c sender workID minWorkUnits =
     rpc ''SufficientBalance'' (rpc_SufficientBalance c sender workID minWorkUnits) (\<lambda>resp.
       Inr \<lparr>sb_Sufficient = wb_Sufficient resp, sb_BalanceWei = big_SetBytes (wb_Balance resp)\<rparr>)"

definition grpc_CloseSession :: "'d PayeeDaemonClient \<Rightarrow> bytes \<Rightarrow> string \<Rightarrow> 'd \<Rightarrow> (goerr + unit) \<times> 'd" where
  "grpc_CloseSession c sender workID = rpc ''CloseSession'' (rpc_CloseSession c sender workID) Inr"

text \<open>
  The client as the worker's interface. \<open>Client\<close> has no panics; a panic of \<open>OpenSession\<close> is
  shown as an error, which no caller meets, since both pass a parsed price.
\<close>

definition grpcClient :: "'d PayeeDaemonClient \<Rightarrow> 'd Client" where
  "grpcClient c =
     \<lparr>ListCapabilities = grpc_ListCapabilities c, GetQuote = grpc_GetQuote c,
      GetTicketParams = grpc_GetTicketParams c,
      OpenSession = (\<lambda>req d. case grpc_OpenSession c req d of
                        (Ret r, d') \<Rightarrow> (r, d')
                      | (Panic p, d') \<Rightarrow> (Inl (ErrorText p), d')),
      ProcessPayment = grpc_ProcessPayment c, DebitBalance = grpc_DebitBalance c,
      SufficientBalance = grpc_SufficientBalance c, CloseSession = grpc_CloseSession c\<rparr>"

section \<open>Lemmas\<close>

lemma rpc_eq:
  "rpc name call result d = (r, d') \<longleftrightarrow>
     (\<exists>e. call d = (Inl e, d') \<and> r = Inl (Wrapped (''payeedaemon: '' @ name) e)) \<or>
     (\<exists>m. call d = (Inr m, d') \<and> r = result m)"
  by (auto simp: rpc_def split: prod.splits sum.splits)

lemma wei64_nonneg: "0 \<le> v \<Longrightarrow> 0 \<le> wei64 (Some v)"
  by (simp add: wei64_def is_int64_def)

lemma go_quot_one [simp]: "go_quot n 1 = n"
  by (simp add: go_quot_def)

lemma price_string_one: "priceInfoToWeiString (Some \<lparr>pi_PricePerUnit = p, pi_PixelsPerUnit = 1\<rparr>) = big_String p"
  by (simp add: priceInfoToWeiString_def)

text \<open>A daemon that publishes the configured catalog, with each price as a number over one.\<close>

definition publish_offering :: "OfferingEntry \<Rightarrow> OfferingPriceMsg" where
  "publish_offering oo =
     \<lparr>wf_Id = oe_ID oo, wf_PriceInfo =
        map_option (\<lambda>p. \<lparr>pi_PricePerUnit = p, pi_PixelsPerUnit = 1\<rparr>) (big_SetString (oe_PricePerWorkUnitWei oo))\<rparr>"

definition publish :: "CapabilityEntry \<Rightarrow> CapabilityMsg" where
  "publish e =
     \<lparr>wc_Capability = ce_Capability e, wc_WorkUnit = ce_WorkUnit e,
      wc_Offerings = map publish_offering (ce_Offerings e)\<rparr>"

definition canonical_prices :: "CapabilityEntry \<Rightarrow> bool" where
  "canonical_prices e \<longleftrightarrow> (\<forall>oo \<in> set (ce_Offerings e). \<exists>p. oe_PricePerWorkUnitWei oo = big_String p)"

lemma offering_of_publish:
  assumes "big_SetString (oe_PricePerWorkUnitWei oo) \<noteq> None"
  shows "offering_of (publish_offering oo) = daemon_offering oo \<longleftrightarrow> (\<exists>p. oe_PricePerWorkUnitWei oo = big_String p)"
  using assms big_SetString_String
  by (auto simp: offering_of_def publish_offering_def daemon_offering_def price_string_one) metis

lemma publish_catalog:
  assumes "\<forall>e \<in> set cs. \<forall>oo \<in> set (ce_Offerings e). big_SetString (oe_PricePerWorkUnitWei oo) \<noteq> None"
  shows "map catalog_of (map publish cs) = map daemon_capability cs \<longleftrightarrow> (\<forall>e \<in> set cs. canonical_prices e)"
proof -
  have "catalog_of (publish e) = daemon_capability e \<longleftrightarrow> canonical_prices e" if "e \<in> set cs" for e
  proof -
    have "\<forall>oo \<in> set (ce_Offerings e). (offering_of (publish_offering oo) = daemon_offering oo) =
        (\<exists>p. oe_PricePerWorkUnitWei oo = big_String p)"
      using that assms offering_of_publish by blast
    then show ?thesis
      unfolding canonical_prices_def by (simp add: catalog_of_def publish_def daemon_capability_def)
  qed
  then show ?thesis by simp
qed

lemma publish_check:
  assumes "\<forall>e \<in> set (cf_Ordered cfg). \<forall>oo \<in> set (ce_Offerings e). big_SetString (oe_PricePerWorkUnitWei oo) \<noteq> None"
    and "rpc_ListCapabilities c d = (Inr (map publish (cf_Ordered cfg)), d')"
  shows "\<exists>caps. ListCapabilities (grpcClient c) d = (Inr caps, d') \<and>
    (VerifyDaemonCatalog (Some cfg) caps = None \<longleftrightarrow> (\<forall>e \<in> set (cf_Ordered cfg). canonical_prices e))"
proof -
  let ?caps = "map catalog_of (map publish (cf_Ordered cfg))"
  have caps: "ListCapabilities (grpcClient c) d = (Inr ?caps, d')"
    using assms(2) by (simp add: grpcClient_def grpc_ListCapabilities_def rpc_def)
  have check: "VerifyDaemonCatalog (Some cfg) ?caps = None \<longleftrightarrow> ?caps = map daemon_capability (cf_Ordered cfg)"
    by (simp add: VerifyDaemonCatalog_def verifyCapabilities_None)
  show ?thesis
    by (rule exI [of _ ?caps], rule conjI, rule caps, unfold check, rule publish_catalog [OF assms(1)])
qed

section \<open>The ledger behind the wire\<close>

text \<open>A stub whose debits and checks are those of a client \<open>c\<close>, with the balances encoded.\<close>

definition over_wire :: "'d Client \<Rightarrow> 'd PayeeDaemonClient \<Rightarrow> 'd PayeeDaemonClient" where
  "over_wire c stub = stub
     \<lparr>rpc_DebitBalance := (\<lambda>sender workID u q d.
        case DebitBalance c sender workID u q d of
          (Inl e, d') \<Rightarrow> (Inl e, d')
        | (Inr b, d') \<Rightarrow> (Inr (big_Bytes (case b of None \<Rightarrow> 0 | Some v \<Rightarrow> v)), d')),
      rpc_SufficientBalance := (\<lambda>sender workID u d.
        case SufficientBalance c sender workID u d of
          (Inl e, d') \<Rightarrow> (Inl e, d')
        | (Inr s, d') \<Rightarrow> (Inr \<lparr>wb_Sufficient = sb_Sufficient s, wb_Balance = big_Bytes (sb_BalanceWei s)\<rparr>, d'))\<rparr>"

lemma over_wire_Debit:
  assumes "DebitBalance (grpcClient (over_wire c stub)) sender w u q d = (x, d')"
  obtains (failed) e where "x = Inl (Wrapped ''payeedaemon: DebitBalance'' e)" "DebitBalance c sender w u q d = (Inl e, d')"
  | (answered) b b' where "x = Inr b" "DebitBalance c sender w u q d = (Inr b', d')"
  using assms
  by (auto simp: grpcClient_def grpc_DebitBalance_def over_wire_def rpc_eq split: prod.split_asm sum.split_asm)

lemma over_wire_Sufficient:
  assumes "SufficientBalance (grpcClient (over_wire c stub)) sender w u d = (x, d')"
  obtains (failed) e e' where "x = Inl e" "SufficientBalance c sender w u d = (Inl e', d')"
  | (answered) s s' where "x = Inr s" "SufficientBalance c sender w u d = (Inr s', d')" "sb_Sufficient s = sb_Sufficient s'"
  using assms
  by (auto simp: grpcClient_def grpc_SufficientBalance_def over_wire_def rpc_eq split: prod.split_asm sum.split_asm)

lemma over_wire_ledger:
  assumes c: "payee_ledger c sender balance charged price"
  shows "payee_ledger (grpcClient (over_wire c stub)) sender balance charged price"
proof
  note laws = payee_ledger.debit_new [OF c] payee_ledger.debit_replay [OF c] payee_ledger.debit_error [OF c]
  fix w u q d b d' v e sres
  show "ledger_took balance charged price w q u d d'"
    if "DebitBalance (grpcClient (over_wire c stub)) sender w u q d = (Inr b, d')" "charged d w q = None"
    using that by (auto elim!: over_wire_Debit dest: laws)
  show "ledger_same balance charged price d d'"
    if "DebitBalance (grpcClient (over_wire c stub)) sender w u q d = (Inr b, d')" "charged d w q = Some v"
    using that by (auto elim!: over_wire_Debit dest: laws)
  show "ledger_same balance charged price d d' \<or> ledger_took balance charged price w q u d d'"
    if "DebitBalance (grpcClient (over_wire c stub)) sender w u q d = (Inl e, d')"
    using that by (auto elim!: over_wire_Debit dest: laws)
  show "ledger_same balance charged price d d'"
    if "SufficientBalance (grpcClient (over_wire c stub)) sender w u d = (sres, d')"
    using that by (auto elim!: over_wire_Sufficient dest: payee_ledger.sufficient_frame [OF c])
qed

lemma over_wire_sufficiency:
  assumes c: "payee_sufficiency c sender balance charged price"
  shows "payee_sufficiency (grpcClient (over_wire c stub)) sender balance charged price"
proof (intro payee_sufficiency.intro over_wire_ledger payee_sufficiency_axioms.intro)
  show "payee_ledger c sender balance charged price" using c by (simp add: payee_sufficiency_def)
  show "sb_Sufficient s \<longleftrightarrow> price d w * u \<le> balance d w"
    if "SufficientBalance (grpcClient (over_wire c stub)) sender w u d = (Inr s, d')" for w u d s d'
    using that by (auto elim!: over_wire_Sufficient simp: payee_sufficiency.sufficient_value [OF c])
qed

interpretation wire_ledger:
  payee_sufficiency "grpcClient (over_wire fakeClient stub)" sender "\<lambda>d w. BalanceFor d sender w" "fake_charged sender" fake_price
  for stub :: "Fake PayeeDaemonClient" and sender :: bytes
  by (rule over_wire_sufficiency [OF fake_ledger.payee_sufficiency_axioms])

section \<open>Properties\<close>

text \<open>C26: A balance has no sign on the wire. Every balance the production client hands to the worker after a
  debit is non-negative, also through the session's adapter; if the daemon encodes an overdrawn
  balance the way \<open>big.Int.Bytes\<close> does, the worker reads its absolute value. So the checks
  for a negative balance in the paid pipeline and in the session loop never fire with it.\<close>

theorem wire_balance_unsigned:
  "(DebitBalance (grpcClient c) sender workID u q d = (Inr b, d') \<longrightarrow> (\<exists>v. b = Some v \<and> 0 \<le> v)) \<and>
   (adapter_Debit (grpcClient c) sender workID units q w = (Ret (Inr bal), w') \<longrightarrow> 0 \<le> bal) \<and>
   (rpc_DebitBalance c sender workID u q d = (Inr (big_Bytes v), d') \<longrightarrow>
      DebitBalance (grpcClient c) sender workID u q d = (Inr (Some \<bar>v\<bar>), d'))"
proof (intro conjI impI)
  show "\<exists>v. b = Some v \<and> 0 \<le> v" if "DebitBalance (grpcClient c) sender workID u q d = (Inr b, d')"
    using that by (auto simp: grpcClient_def grpc_DebitBalance_def rpc_eq)
  show "0 \<le> bal" if "adapter_Debit (grpcClient c) sender workID units q w = (Ret (Inr bal), w')"
    using that
    by (auto simp: adapter_Debit_def on_payee_def grpcClient_def grpc_DebitBalance_def rpc_eq wei64_nonneg
        split: prod.split_asm sum.split_asm option.split_asm)
  show "DebitBalance (grpcClient c) sender workID u q d = (Inr (Some \<bar>v\<bar>), d')"
    if "rpc_DebitBalance c sender workID u q d = (Inr (big_Bytes v), d')"
    using that by (simp add: grpcClient_def grpc_DebitBalance_def rpc_def big_SetBytes_Bytes)
qed

text \<open>The price on the wire is the price of the route: opening a session makes exactly one call
  of the daemon, with the worker's identifiers unchanged and price bytes that decode to the
  price; its success is the daemon's.\<close>

lemma wire_open_price:
  assumes "os_PricePerWorkUnitWei req = Some p" and "0 \<le> p"
    and "OpenSession (grpcClient c) req d = (r, d')"
  shows "\<exists>msg x. rpc_OpenSession c msg d = (x, d') \<and>
    wo_WorkId msg = os_WorkID req \<and> wo_Capability msg = os_Capability req \<and> wo_Offering msg = os_Offering req \<and>
    wo_WorkUnit msg = os_WorkUnit req \<and> big_SetBytes (wo_PricePerWorkUnitWei msg) = p \<and>
    (r = Inr OpenSessionOutcomeOpened \<longleftrightarrow> x = Inr OUTCOME_OPENED) \<and>
    (r = Inr OpenSessionOutcomeAlreadyOpen \<longleftrightarrow> x = Inr OUTCOME_ALREADY_OPEN)"
proof -
  let ?msg = "open_message req p"
  obtain x d1 where x: "rpc_OpenSession c ?msg d = (x, d1)" by fastforce
  then have r: "r = (case x of Inl e \<Rightarrow> Inl (Wrapped ''payeedaemon: OpenSession'' e) | Inr m \<Rightarrow> open_result m)" and "d1 = d'"
    using assms(1,3) by (auto simp: grpcClient_def grpc_OpenSession_def rpc_def split: sum.split_asm prod.split_asm)
  have "(r = Inr OpenSessionOutcomeOpened \<longleftrightarrow> x = Inr OUTCOME_OPENED) \<and>
      (r = Inr OpenSessionOutcomeAlreadyOpen \<longleftrightarrow> x = Inr OUTCOME_ALREADY_OPEN)"
    unfolding r by (auto simp: open_result_def split: sum.split wire_outcome.split)
  with x \<open>d1 = d'\<close> assms(2) show ?thesis
    by (intro exI [of _ ?msg] exI [of _ x]) (simp add: open_message_def big_SetBytes_Bytes)
qed

text \<open>C35: When the start-up check can succeed. Against a daemon that publishes exactly the configured
  catalog, the check passes if and only if every configured price is written in canonical decimal
  form, although validation accepts every price that parses.\<close>

theorem catalog_check_canonical:
  assumes "\<forall>e \<in> set (cf_Ordered cfg). \<forall>oo \<in> set (ce_Offerings e). big_SetString (oe_PricePerWorkUnitWei oo) \<noteq> None"
    and "rpc_ListCapabilities c d = (Inr (map publish (cf_Ordered cfg)), d')"
  shows "\<exists>caps. ListCapabilities (grpcClient c) d = (Inr caps, d') \<and>
    (VerifyDaemonCatalog (Some cfg) caps = None \<longleftrightarrow> (\<forall>e \<in> set (cf_Ordered cfg). canonical_prices e))"
  by (rule publish_check [OF assms])

section \<open>Witnesses\<close>

definition sample_wire :: "unit PayeeDaemonClient" where
  "sample_wire =
     \<lparr>rpc_OpenSession = (\<lambda>m d. (Inr OUTCOME_OPENED, d)),
      rpc_ListCapabilities = (\<lambda>d. (Inr (map publish (cf_Ordered (projectFromYAML sample_yaml))), d)),
      rpc_ProcessPayment = (\<lambda>b w d. (Inr \<lparr>wp_Sender = ''s'', wp_CreditedEv = [], wp_Balance = [], wp_WinnersQueued = 0\<rparr>, d)),
      rpc_GetQuote = (\<lambda>s c d. (Inl io_EOF, d)), rpc_GetTicketParams = (\<lambda>q d. (Inr None, d)),
      rpc_DebitBalance = (\<lambda>s w u q d. (Inr (big_Bytes (- 5)), d)),
      rpc_SufficientBalance = (\<lambda>s w u d. (Inl io_EOF, d)), rpc_CloseSession = (\<lambda>s w d. (Inr (), d))\<rparr>"

theorem wire_balance_unsigned_witness:
  "DebitBalance (grpcClient sample_wire) ''s'' ''w'' 3 1 () = (Inr (Some 5), ())"
proof -
  have "rpc_DebitBalance sample_wire ''s'' ''w'' 3 1 () = (Inr (big_Bytes (- 5)), ())" by (simp add: sample_wire_def)
  then have "DebitBalance (grpcClient sample_wire) ''s'' ''w'' 3 1 () = (Inr (Some \<bar>- 5\<bar>), ())"
    by (rule wire_balance_unsigned [THEN conjunct2, THEN conjunct2, rule_format])
  then show ?thesis by simp
qed

lemma sample_canonical:
  "\<forall>e \<in> set (cf_Ordered (projectFromYAML sample_yaml)). canonical_prices e"
  "\<forall>e \<in> set (cf_Ordered (projectFromYAML sample_yaml)). \<forall>oo \<in> set (ce_Offerings e).
     big_SetString (oe_PricePerWorkUnitWei oo) \<noteq> None"
proof -
  have ord: "cf_Ordered (projectFromYAML sample_yaml) = map project_capability (y_Capabilities sample_yaml)"
    by (simp add: projectFromYAML_def config_New_def)
  have "''6250'' = big_String 6250" by (simp add: big_String_def dec_nat.simps digit_char_def) code_simp
  then have ex: "\<exists>p. ''6250'' = big_String p" by blast
  show "\<forall>e \<in> set (cf_Ordered (projectFromYAML sample_yaml)). canonical_prices e"
    unfolding ord using ex
    by (simp add: sample_yaml_def project_capability_def project_offering_def canonical_prices_def)
  show "\<forall>e \<in> set (cf_Ordered (projectFromYAML sample_yaml)). \<forall>oo \<in> set (ce_Offerings e).
      big_SetString (oe_PricePerWorkUnitWei oo) \<noteq> None"
    unfolding ord by (simp add: sample_yaml_def project_capability_def project_offering_def sample_SetString)
qed

lemma sample_catalog_ok:
  "\<exists>caps. ListCapabilities (grpcClient sample_wire) () = (Inr caps, ()) \<and>
     VerifyDaemonCatalog (Some (projectFromYAML sample_yaml)) caps = None"
  using publish_check [OF sample_canonical(2), of sample_wire "()" "()"] sample_canonical(1)
  by (auto simp: sample_wire_def)

theorem catalog_check_canonical_witness:
  "\<exists>caps. ListCapabilities (grpcClient sample_wire) () = (Inr caps, ()) \<and>
     VerifyDaemonCatalog (Some (projectFromYAML sample_yaml)) caps = None"
  using catalog_check_canonical [OF sample_canonical(2), of sample_wire "()" "()"] sample_canonical(1)
  by (auto simp: sample_wire_def)

end
