(* ===== verification/Backend_Http.thy ===== *)
theory Backend_Http
  imports Session_Deps Metrics "HOL-Library.Multiset"
begin

text \<open>
  \<^verbatim>\<open>internal/providers/backendhttp\<close>: the \<open>Client\<close> interface of inference backends, the client over
  net/http (\<^verbatim>\<open>fetch.go\<close>), the metrics decorator with its error classes (\<^verbatim>\<open>interface.go\<close>) and the
  in-memory client (\<^verbatim>\<open>fake.go\<close>). net/http's transport is a parameter. A stream is the bytes it
  will yield and the error that ends it, if it is not the end of the body. A call answers several
  values at once: a status may come with an error.
\<close>

section \<open>The Client interface\<close>

type_synonym stream_body = "bytes \<times> goerr option"

record BufferedReply =
  bf_Status :: int
  bf_Body :: bytes
  bf_Err :: "goerr option"

record StreamReply =
  sr_Status :: int
  sr_Header :: "header option"
  sr_Stream :: "stream_body option"
  sr_Err :: "goerr option"

record 'b BackendClient =
  DoJSON :: "string \<Rightarrow> bytes \<Rightarrow> 'b \<Rightarrow> BufferedReply \<times> 'b"
  DoRaw :: "string \<Rightarrow> string \<Rightarrow> bytes \<Rightarrow> 'b \<Rightarrow> BufferedReply \<times> 'b"
  DoStream :: "string \<Rightarrow> bytes \<Rightarrow> 'b \<Rightarrow> StreamReply \<times> 'b"

section \<open>The client over net/http (fetch.go)\<close>

record TransportResponse =
  tr_StatusCode :: int
  tr_Header :: header
  tr_Body :: stream_body

record 'b Transport =
  tp_ReqErr :: "string \<Rightarrow> goerr option"
  tp_Do :: "OutRequest \<Rightarrow> 'b \<Rightarrow> (goerr + TransportResponse) \<times> 'b"

definition post :: "string \<Rightarrow> (string \<times> string) list \<Rightarrow> bytes \<Rightarrow> OutRequest" where
  "post url headers body =
     \<lparr>oq_Method = ''POST'', oq_URL = url,
      oq_Header = fold (\<lambda>(k, v) h. header_Set h k v) headers Map.empty, oq_Body = body\<rparr>"

definition fetch_DoRaw :: "'b Transport \<Rightarrow> string \<Rightarrow> string \<Rightarrow> bytes \<Rightarrow> 'b \<Rightarrow> BufferedReply \<times> 'b" where
  "fetch_DoRaw t url contentType body b =
     (case tp_ReqErr t url of
        Some err \<Rightarrow> (\<lparr>bf_Status = 0, bf_Body = [], bf_Err = Some (Wrapped ''backendhttp: build request'' err)\<rparr>, b)
      | None \<Rightarrow>
          (case tp_Do t (post url [(''Content-Type'', contentType)] body) b of
             (Inl err, b') \<Rightarrow> (\<lparr>bf_Status = 0, bf_Body = [], bf_Err = Some (Wrapped ''backendhttp: do'' err)\<rparr>, b')
           | (Inr resp, b') \<Rightarrow>
               (case tr_Body resp of
                  (buf, Some err) \<Rightarrow>
                    (\<lparr>bf_Status = tr_StatusCode resp, bf_Body = [],
                      bf_Err = Some (Wrapped ''backendhttp: read body'' err)\<rparr>, b')
                | (buf, None) \<Rightarrow> (\<lparr>bf_Status = tr_StatusCode resp, bf_Body = buf, bf_Err = None\<rparr>, b'))))"

definition fetch_DoJSON :: "'b Transport \<Rightarrow> string \<Rightarrow> bytes \<Rightarrow> 'b \<Rightarrow> BufferedReply \<times> 'b" where
  "fetch_DoJSON t url body = fetch_DoRaw t url ''application/json'' body"

definition stream_failed :: "goerr \<Rightarrow> StreamReply" where
  "stream_failed err = \<lparr>sr_Status = 0, sr_Header = None, sr_Stream = None, sr_Err = Some err\<rparr>"

definition fetch_DoStream :: "'b Transport \<Rightarrow> string \<Rightarrow> bytes \<Rightarrow> 'b \<Rightarrow> StreamReply \<times> 'b" where
  "fetch_DoStream t url body b =
     (case tp_ReqErr t url of
        Some err \<Rightarrow> (stream_failed (Wrapped ''backendhttp: build request'' err), b)
      | None \<Rightarrow>
          (case tp_Do t (post url [(''Content-Type'', ''application/json''), (''Accept'', ''text/event-stream'')] body) b of
             (Inl err, b') \<Rightarrow> (stream_failed (Wrapped ''backendhttp: do'' err), b')
           | (Inr resp, b') \<Rightarrow>
               if tr_StatusCode resp < 200 \<or> tr_StatusCode resp \<ge> 300
               then (let buf = fst (tr_Body resp) in
                     (\<lparr>sr_Status = tr_StatusCode resp, sr_Header = Some (tr_Header resp),
                       sr_Stream = Some (buf, None), sr_Err = None\<rparr>, b'))
               else (\<lparr>sr_Status = tr_StatusCode resp, sr_Header = Some (tr_Header resp),
                      sr_Stream = Some (tr_Body resp), sr_Err = None\<rparr>, b')))"

definition NewFetch :: "'b Transport \<Rightarrow> 'b BackendClient" where
  "NewFetch t = \<lparr>DoJSON = fetch_DoJSON t, DoRaw = fetch_DoRaw t, DoStream = fetch_DoStream t\<rparr>"

section \<open>Error classes and the decorator (interface.go)\<close>

text \<open>
  \<open>strings.ToLower\<close> as far as ASCII letters come out of it: besides the capital letters, the Kelvin
  sign becomes \<open>k\<close> and the capital dotted I becomes \<open>i\<close>. No other character lowers to ASCII,
  and the code only looks for ASCII text in the result.
\<close>

fun ToLower :: "string \<Rightarrow> string" where
  "ToLower [] = []"
| "ToLower (a # s) =
     (let n = (of_char a :: nat) in
      if n = 226 \<and> take 2 s = [char_of (132 :: nat), char_of (170 :: nat)] then CHR ''k'' # ToLower (drop 2 s)
      else if n = 196 \<and> take 1 s = [char_of (176 :: nat)] then CHR ''i'' # ToLower (drop 1 s)
      else (if 65 \<le> n \<and> n \<le> 90 then char_of (n + 32) else a) # ToLower s)"

definition classifyTransportError :: "goerr option \<Rightarrow> string" where
  "classifyTransportError e =
     (case e of
        None \<Rightarrow> BackendErrorConnect
      | Some err \<Rightarrow>
          if errors_is err context_DeadlineExceeded then BackendErrorTimeout
          else let s = ToLower (error_text err) in
            if contains_bytes s ''timeout'' \<or> contains_bytes s ''deadline exceeded'' then BackendErrorTimeout
            else if contains_bytes s ''read body'' \<or> contains_bytes s ''unexpected eof'' \<or> contains_bytes s ''malformed''
            then BackendErrorMalformed
            else BackendErrorConnect)"

text \<open>The metrics of one call; \<open>now\<close> is the time of the last success it may record.\<close>

definition recordOutcome :: "string \<Rightarrow> string \<Rightarrow> int \<Rightarrow> int \<Rightarrow> goerr option \<Rightarrow> metric_call list" where
  "recordOutcome capability model now status err =
     ObserveBackendRequest capability model #
     (if err \<noteq> None then
        [IncBackendRequest capability model OutcomeError,
         IncBackendError capability model (classifyTransportError err)]
      else if status \<ge> 500 then
        [IncBackendRequest capability model OutcomeError, IncBackendError capability model BackendError5xx]
      else
        [IncBackendRequest capability model OutcomeOK, SetBackendLastSuccess capability model now])"

text \<open>The methods of \<open>meteredClient\<close>; \<open>clock\<close> reads the time after the call.\<close>

definition metered_DoJSON ::
  "'b BackendClient \<Rightarrow> 'r recorder \<Rightarrow> ('b \<Rightarrow> int) \<Rightarrow> string \<Rightarrow> string \<Rightarrow> string \<Rightarrow> bytes \<Rightarrow> 'b \<times> 'r \<Rightarrow>
   BufferedReply \<times> 'b \<times> 'r"
where
  "metered_DoJSON c rec clock capability model url body st =
     (case DoJSON c url body (fst st) of (x, b) \<Rightarrow>
       (x, b, fold rec (recordOutcome capability model (clock b) (bf_Status x) (bf_Err x)) (snd st)))"

definition metered_DoRaw ::
  "'b BackendClient \<Rightarrow> 'r recorder \<Rightarrow> ('b \<Rightarrow> int) \<Rightarrow> string \<Rightarrow> string \<Rightarrow> string \<Rightarrow> string \<Rightarrow> bytes \<Rightarrow> 'b \<times> 'r \<Rightarrow>
   BufferedReply \<times> 'b \<times> 'r"
where
  "metered_DoRaw c rec clock capability model url contentType body st =
     (case DoRaw c url contentType body (fst st) of (x, b) \<Rightarrow>
       (x, b, fold rec (recordOutcome capability model (clock b) (bf_Status x) (bf_Err x)) (snd st)))"

definition metered_DoStream ::
  "'b BackendClient \<Rightarrow> 'r recorder \<Rightarrow> ('b \<Rightarrow> int) \<Rightarrow> string \<Rightarrow> string \<Rightarrow> string \<Rightarrow> bytes \<Rightarrow> 'b \<times> 'r \<Rightarrow>
   StreamReply \<times> 'b \<times> 'r"
where
  "metered_DoStream c rec clock capability model url body st =
     (case DoStream c url body (fst st) of (x, b) \<Rightarrow>
       (x, b, fold rec (recordOutcome capability model (clock b) (sr_Status x) (sr_Err x)) (snd st)))"

text \<open>Without a recorder \<open>WithMetrics\<close> answers the client itself, here beside a recorder state it
  never touches.\<close>

definition beside :: "('b \<Rightarrow> 'x \<times> 'b) \<Rightarrow> 'b \<times> 'r \<Rightarrow> 'x \<times> 'b \<times> 'r" where
  "beside call st = (case call (fst st) of (x, b) \<Rightarrow> (x, b, snd st))"

definition backend_WithMetrics ::
  "'b BackendClient \<Rightarrow> 'r recorder option \<Rightarrow> ('b \<Rightarrow> int) \<Rightarrow> string \<Rightarrow> string \<Rightarrow> ('b \<times> 'r) BackendClient"
where
  "backend_WithMetrics c recorder clock capability model =
     (case recorder of
        None \<Rightarrow>
          \<lparr>DoJSON = (\<lambda>url body. beside (DoJSON c url body)), DoRaw = (\<lambda>url ct body. beside (DoRaw c url ct body)),
           DoStream = (\<lambda>url body. beside (DoStream c url body))\<rparr>
      | Some rec \<Rightarrow>
          \<lparr>DoJSON = metered_DoJSON c rec clock capability model, DoRaw = metered_DoRaw c rec clock capability model,
           DoStream = metered_DoStream c rec clock capability model\<rparr>)"

section \<open>The in-memory client (fake.go)\<close>

record BackendFake =
  bk_JSONStatus :: int
  bk_JSONBody :: bytes
  bk_JSONErr :: "goerr option"
  bk_LastRawContentType :: string
  bk_RawCalls :: int
  bk_StreamStatus :: int
  bk_StreamHeaders :: "header option"
  bk_StreamChunks :: "bytes list"
  bk_StreamErr :: "goerr option"
  bk_LastJSONURL :: string
  bk_LastJSONBody :: bytes
  bk_LastStreamURL :: string
  bk_LastStreamBody :: bytes
  bk_JSONCalls :: int
  bk_StreamCalls :: int

definition NewBackendFake :: BackendFake where
  "NewBackendFake =
     \<lparr>bk_JSONStatus = 200, bk_JSONBody = [], bk_JSONErr = None, bk_LastRawContentType = [], bk_RawCalls = 0,
      bk_StreamStatus = 200, bk_StreamHeaders = None, bk_StreamChunks = [], bk_StreamErr = None,
      bk_LastJSONURL = [], bk_LastJSONBody = [], bk_LastStreamURL = [], bk_LastStreamBody = [],
      bk_JSONCalls = 0, bk_StreamCalls = 0\<rparr>"

definition backend_fake_DoRaw :: "string \<Rightarrow> string \<Rightarrow> bytes \<Rightarrow> BackendFake \<Rightarrow> BufferedReply \<times> BackendFake" where
  "backend_fake_DoRaw url contentType body f0 =
     (let f = f0\<lparr>bk_JSONCalls := bk_JSONCalls f0 + 1, bk_RawCalls := bk_RawCalls f0 + 1, bk_LastJSONURL := url,
                 bk_LastJSONBody := body, bk_LastRawContentType := contentType\<rparr>
      in case bk_JSONErr f of
           Some e \<Rightarrow> (\<lparr>bf_Status = 0, bf_Body = [], bf_Err = Some e\<rparr>, f)
         | None \<Rightarrow> (\<lparr>bf_Status = bk_JSONStatus f, bf_Body = bk_JSONBody f, bf_Err = None\<rparr>, f))"

definition backend_fake_DoJSON :: "string \<Rightarrow> bytes \<Rightarrow> BackendFake \<Rightarrow> BufferedReply \<times> BackendFake" where
  "backend_fake_DoJSON url body = backend_fake_DoRaw url ''application/json'' body"

definition backend_fake_DoStream :: "string \<Rightarrow> bytes \<Rightarrow> BackendFake \<Rightarrow> StreamReply \<times> BackendFake" where
  "backend_fake_DoStream url body f0 =
     (let f = f0\<lparr>bk_StreamCalls := bk_StreamCalls f0 + 1, bk_LastStreamURL := url, bk_LastStreamBody := body\<rparr>
      in case bk_StreamErr f of
           Some e \<Rightarrow> (stream_failed e, f)
         | None \<Rightarrow>
             (\<lparr>sr_Status = bk_StreamStatus f,
               sr_Header = Some (case bk_StreamHeaders f of None \<Rightarrow> Map.empty | Some h \<Rightarrow> h),
               sr_Stream = Some (concat (bk_StreamChunks f), None), sr_Err = None\<rparr>, f))"

definition backendFakeClient :: "BackendFake BackendClient" where
  "backendFakeClient =
     \<lparr>DoJSON = backend_fake_DoJSON, DoRaw = backend_fake_DoRaw, DoStream = backend_fake_DoStream\<rparr>"

section \<open>Lemmas\<close>

definition ascii_lower :: "char \<Rightarrow> char" where
  "ascii_lower a = (if 65 \<le> (of_char a :: nat) \<and> (of_char a :: nat) \<le> 90 then char_of (of_char a + 32 :: nat) else a)"

lemma ToLower_ascii_append:
  "\<forall>c \<in> set p. of_char c < (128 :: nat) \<Longrightarrow> ToLower (p @ s) = map ascii_lower p @ ToLower s"
  by (induction p) (auto simp: ascii_lower_def Let_def)

lemma contains_bytes_infix: "contains_bytes (a @ sub @ b) sub"
  unfolding contains_bytes_def by (intro bexI [of _ "length a"]) auto

lemma read_body_not_connect:
  "classifyTransportError (Some (Wrapped ''backendhttp: read body'' e)) \<in> {BackendErrorTimeout, BackendErrorMalformed}"
proof -
  have "ToLower (error_text (Wrapped ''backendhttp: read body'' e)) =
      ''backendhttp: '' @ ''read body'' @ '': '' @ ToLower (error_text e)"
    using ToLower_ascii_append [of "''backendhttp: read body: ''" "error_text e"]
    by (simp add: ascii_lower_def del: ToLower.simps)
  then have "contains_bytes (ToLower (error_text (Wrapped ''backendhttp: read body'' e))) ''read body''"
    by (metis contains_bytes_infix)
  then show ?thesis by (auto simp: classifyTransportError_def Let_def)
qed

text \<open>A response that blames the client still counts as a success of the backend.\<close>

lemma last_success_on_client_error:
  "SetBackendLastSuccess c m now \<in> set (recordOutcome c m now 404 None)"
  by (simp add: recordOutcome_def)

text \<open>A call of any of the three methods, and what it answers apart from the data.\<close>

datatype backend_call = CallJSON string bytes | CallRaw string string bytes | CallStream string bytes

type_synonym backend_reply = "BufferedReply + StreamReply"

fun backend_do :: "'b BackendClient \<Rightarrow> backend_call \<Rightarrow> 'b \<Rightarrow> backend_reply \<times> 'b" where
  "backend_do c (CallJSON url body) b = apfst Inl (DoJSON c url body b)"
| "backend_do c (CallRaw url ct body) b = apfst Inl (DoRaw c url ct body b)"
| "backend_do c (CallStream url body) b = apfst Inr (DoStream c url body b)"

fun reply_status :: "backend_reply \<Rightarrow> int" where
  "reply_status (Inl x) = bf_Status x" | "reply_status (Inr x) = sr_Status x"

fun reply_err :: "backend_reply \<Rightarrow> goerr option" where
  "reply_err (Inl x) = bf_Err x" | "reply_err (Inr x) = sr_Err x"

lemma backend_do_metered:
  assumes "backend_do (backend_WithMetrics c (Some rec) clock capability model) k (b, r) = (x, b', r')"
  shows "backend_do c k b = (x, b') \<and>
    r' = fold rec (recordOutcome capability model (clock b') (reply_status x) (reply_err x)) r"
  using assms
  by (cases k) (auto simp: backend_WithMetrics_def metered_DoJSON_def metered_DoRaw_def metered_DoStream_def
      split: prod.split_asm)

lemma backend_do_unmetered:
  "backend_do (backend_WithMetrics c None clock capability model) k (b, r) =
     (case backend_do c k b of (x, b') \<Rightarrow> (x, b', r))"
  by (cases k) (auto simp: backend_WithMetrics_def beside_def split: prod.split)

text \<open>The request the client over net/http sends for a call.\<close>

fun sent_request :: "backend_call \<Rightarrow> OutRequest" where
  "sent_request (CallJSON url body) = post url [(''Content-Type'', ''application/json'')] body"
| "sent_request (CallRaw url ct body) = post url [(''Content-Type'', ct)] body"
| "sent_request (CallStream url body) =
     post url [(''Content-Type'', ''application/json''), (''Accept'', ''text/event-stream'')] body"

fun call_url :: "backend_call \<Rightarrow> string" where
  "call_url (CallJSON url body) = url" | "call_url (CallRaw url ct body) = url" | "call_url (CallStream url body) = url"

text \<open>A buffered call succeeds when the request was sent and the whole body arrived, a streaming call when the
  request was sent and the response's header arrived.\<close>

definition exchange_ok :: "'b Transport \<Rightarrow> backend_call \<Rightarrow> 'b \<Rightarrow> bool" where
  "exchange_ok t k b \<longleftrightarrow> tp_ReqErr t (call_url k) = None \<and>
     (\<exists>resp b'. tp_Do t (sent_request k) b = (Inr resp, b') \<and>
        ((\<exists>url body. k = CallStream url body) \<or> snd (tr_Body resp) = None))"

lemma fetch_DoRaw_ok:
  assumes "fetch_DoRaw t url ct body b = (x, b')"
  shows "bf_Err x = None \<longleftrightarrow> exchange_ok t (CallRaw url ct body) b"
  using assms by (auto simp: fetch_DoRaw_def exchange_ok_def split: option.split_asm prod.split_asm sum.split_asm)

lemma fetch_ok:
  assumes "backend_do (NewFetch t) k b = (x, b')"
  shows "reply_err x = None \<longleftrightarrow> exchange_ok t k b"
proof (cases k)
  case (CallRaw url ct body)
  with assms show ?thesis
    using fetch_DoRaw_ok [of t url ct body b] by (cases "fetch_DoRaw t url ct body b") (auto simp: NewFetch_def)
next
  case (CallJSON url body)
  let ?ct = "''application/json''"
  have "exchange_ok t (CallJSON url body) b \<longleftrightarrow> exchange_ok t (CallRaw url ?ct body) b" by (simp add: exchange_ok_def)
  with CallJSON assms show ?thesis
    using fetch_DoRaw_ok [of t url ?ct body b]
    by (cases "fetch_DoRaw t url ?ct body b") (auto simp: NewFetch_def fetch_DoJSON_def)
next
  case (CallStream url body)
  with assms show ?thesis
    by (auto simp: NewFetch_def fetch_DoStream_def stream_failed_def exchange_ok_def Let_def
        split: option.split_asm prod.split_asm sum.split_asm if_split_asm)
qed

section \<open>Properties\<close>

text \<open>C37: What a backend call through the decorator tells, for each of the three methods, every recorder
  and every pair of labels. Around the client over net/http the decorator changes no answer. Among
  the metrics it records there are one latency and one request count, which says error exactly when
  the exchange failed or the backend answered 500 or above, and exactly then there is one error
  count: class \<^verbatim>\<open>5xx\<close> when the exchange itself succeeded, class \<^verbatim>\<open>timeout\<close> when a missed deadline is anywhere in
  the chain of errors, and never \<^verbatim>\<open>connect\<close> when the body broke off. A time of last success is recorded
  exactly when nothing failed. Without a recorder the client is unchanged.\<close>

theorem backend_call_recorded:
  assumes "backend_do (backend_WithMetrics (NewFetch t) (Some rec) clock capability model) k (b, r) = (x, b', r')"
  defines "failed \<equiv> \<not> exchange_ok t k b \<or> 500 \<le> reply_status x"
  shows "backend_do (NewFetch t) k b = (x, b') \<and>
    backend_do (backend_WithMetrics (NewFetch t) None clock capability model) k (b, r) = (x, b', r) \<and>
    (\<exists>ms cls. r' = fold rec ms r \<and>
       mset ms = {#ObserveBackendRequest capability model,
                   IncBackendRequest capability model (if failed then OutcomeError else OutcomeOK)#} +
         (if failed then {#IncBackendError capability model cls#}
          else {#SetBackendLastSuccess capability model (clock b')#}) \<and>
       (exchange_ok t k b \<longrightarrow> cls = BackendError5xx) \<and>
       (\<forall>e. reply_err x = Some e \<longrightarrow>
          (errors_is e context_DeadlineExceeded \<longrightarrow> cls = BackendErrorTimeout) \<and>
          (\<forall>e'. e = Wrapped ''backendhttp: read body'' e' \<longrightarrow> cls \<in> {BackendErrorTimeout, BackendErrorMalformed})))"
proof -
  have call: "backend_do (NewFetch t) k b = (x, b')"
    and r': "r' = fold rec (recordOutcome capability model (clock b') (reply_status x) (reply_err x)) r"
    using backend_do_metered [OF assms(1)] by simp_all
  have ok: "reply_err x = None \<longleftrightarrow> exchange_ok t k b" by (rule fetch_ok [OF call])
  define cls where "cls = (if reply_err x = None then BackendError5xx else classifyTransportError (reply_err x))"
  have "cls = BackendErrorTimeout" if "reply_err x = Some e" "errors_is e context_DeadlineExceeded" for e
    using that by (simp add: cls_def classifyTransportError_def)
  moreover have "cls \<in> {BackendErrorTimeout, BackendErrorMalformed}"
    if "reply_err x = Some (Wrapped ''backendhttp: read body'' e)" for e
    using that read_body_not_connect by (simp add: cls_def)
  moreover have "mset (recordOutcome capability model (clock b') (reply_status x) (reply_err x)) =
      {#ObserveBackendRequest capability model,
        IncBackendRequest capability model (if failed then OutcomeError else OutcomeOK)#} +
      (if failed then {#IncBackendError capability model cls#}
       else {#SetBackendLastSuccess capability model (clock b')#})"
    using ok by (auto simp: recordOutcome_def failed_def cls_def add_mset_commute)
  moreover have "exchange_ok t k b \<longrightarrow> cls = BackendError5xx" using ok by (simp add: cls_def)
  ultimately have "\<exists>ms cls. r' = fold rec ms r \<and>
       mset ms = {#ObserveBackendRequest capability model,
                   IncBackendRequest capability model (if failed then OutcomeError else OutcomeOK)#} +
         (if failed then {#IncBackendError capability model cls#}
          else {#SetBackendLastSuccess capability model (clock b')#}) \<and>
       (exchange_ok t k b \<longrightarrow> cls = BackendError5xx) \<and>
       (\<forall>e. reply_err x = Some e \<longrightarrow>
          (errors_is e context_DeadlineExceeded \<longrightarrow> cls = BackendErrorTimeout) \<and>
          (\<forall>e'. e = Wrapped ''backendhttp: read body'' e' \<longrightarrow> cls \<in> {BackendErrorTimeout, BackendErrorMalformed}))"
    using r' by blast
  with call show ?thesis by (simp add: backend_do_unmetered)
qed

section \<open>Witnesses\<close>

definition sample_transport :: "unit Transport" where
  "sample_transport =
     \<lparr>tp_ReqErr = (\<lambda>u. None),
      tp_Do = (\<lambda>q b. (Inr \<lparr>tr_StatusCode = 200, tr_Header = Map.empty, tr_Body = (''par'', Some io_EOF)\<rparr>, b))\<rparr>"

theorem backend_call_recorded_witness:
  "\<exists>x b' r'. backend_do (backend_WithMetrics (NewFetch sample_transport) (Some Counter) (\<lambda>b. 0) ''c'' ''m'')
       (CallRaw ''u'' ''t'' ''q'') ((), NewCounter) = (x, b', r') \<and>
     (\<exists>ms cls. r' = fold Counter ms NewCounter \<and> cls \<in> {BackendErrorTimeout, BackendErrorMalformed} \<and>
        mset ms = {#ObserveBackendRequest ''c'' ''m'', IncBackendRequest ''c'' ''m'' OutcomeError, IncBackendError ''c'' ''m'' cls#})"
proof -
  let ?k = "CallRaw ''u'' ''t'' ''q''"
  obtain x b' r' where h: "backend_do (backend_WithMetrics (NewFetch sample_transport) (Some Counter) (\<lambda>b. 0) ''c'' ''m'') ?k
      ((), NewCounter) = (x, b', r')" by (metis surj_pair)
  have "reply_err x = Some (Wrapped ''backendhttp: read body'' io_EOF)"
    using backend_do_metered [OF h] by (auto simp: NewFetch_def fetch_DoRaw_def sample_transport_def)
  moreover have "\<not> exchange_ok sample_transport ?k ()" by (simp add: exchange_ok_def sample_transport_def)
  moreover obtain ms cls where "r' = fold Counter ms NewCounter"
      "mset ms = {#ObserveBackendRequest ''c'' ''m'', IncBackendRequest ''c'' ''m'' OutcomeError#} + {#IncBackendError ''c'' ''m'' cls#}"
      "cls \<in> {BackendErrorTimeout, BackendErrorMalformed}"
    using backend_call_recorded [OF h] calculation by auto
  ultimately show ?thesis using h by (intro exI [of _ x] exI [of _ b'] exI [of _ r'] exI [of _ ms] exI [of _ cls] conjI) simp_all
qed

end
