(* ===== verification/Logging.thy ===== *)
theory Logging
  imports Go_Base
begin

text \<open>
  Loggers: the levels of \<open>log/slog\<close> with their order, the minimum level \<open>buildLogger\<close> of
  \<^verbatim>\<open>cmd/vtuber-worker-node/main.go\<close> chooses, and the two implementations of the listener's \<open>Logger\<close>
  interface (\<^verbatim>\<open>runtime/metrics/listener.go\<close>). A logger writes to a list of lines; a line is its level
  and its message, the attributes are left out.
\<close>

section \<open>Levels\<close>

datatype log_level = LevelDebug | LevelInfo | LevelWarn | LevelError

fun slog_level :: "log_level \<Rightarrow> int" where
  "slog_level LevelDebug = - 4"
| "slog_level LevelInfo = 0"
| "slog_level LevelWarn = 4"
| "slog_level LevelError = 8"

lemma slog_level_inj: "slog_level a = slog_level b \<Longrightarrow> a = b"
  by (cases a; cases b) simp_all

instantiation log_level :: linorder
begin

definition less_eq_log_level :: "log_level \<Rightarrow> log_level \<Rightarrow> bool" where
  "a \<le> b \<longleftrightarrow> slog_level a \<le> slog_level b"

definition less_log_level :: "log_level \<Rightarrow> log_level \<Rightarrow> bool" where
  "a < b \<longleftrightarrow> slog_level a < slog_level b"

instance
  by standard (auto simp: less_eq_log_level_def less_log_level_def intro: slog_level_inj)

end

lemma log_level_bounds [simp]: "LevelDebug \<le> a" "a \<le> LevelError"
  by (cases a; simp add: less_eq_log_level_def)+

section \<open>Loggers\<close>

record log_line =
  ll_Level :: log_level
  ll_Msg :: string

definition slog_log :: "log_level \<Rightarrow> log_level \<Rightarrow> string \<Rightarrow> log_line list \<Rightarrow> log_line list" where
  \<comment> \<open>a text handler with minimum level \<open>lv\<close> is given a record of level \<open>at\<close>\<close>
  "slog_log lv at msg out = (if lv \<le> at then out @ [\<lparr>ll_Level = at, ll_Msg = msg\<rparr>] else out)"

definition buildLogger :: "string \<Rightarrow> log_level \<times> bool" where
  \<comment> \<open>the minimum level, and whether the warning about an unknown level is printed\<close>
  "buildLogger level =
     (if level = ''debug'' then (LevelDebug, False)
      else if level = ''info'' then (LevelInfo, False)
      else if level = ''warn'' then (LevelWarn, False)
      else if level = ''error'' then (LevelError, False)
      else (LevelInfo, True))"

text \<open>\<open>SlogLogger None\<close> wraps a nil \<open>*slog.Logger\<close>.\<close>

datatype Logger = SlogLogger "log_level option" | discardLogger

fun Logger_Info :: "Logger \<Rightarrow> string \<Rightarrow> log_line list \<Rightarrow> log_line list" where
  "Logger_Info (SlogLogger (Some lv)) msg out = slog_log lv LevelInfo msg out"
| "Logger_Info (SlogLogger None) msg out = out"
| "Logger_Info discardLogger msg out = out"

fun Logger_Warn :: "Logger \<Rightarrow> string \<Rightarrow> log_line list \<Rightarrow> log_line list" where
  "Logger_Warn (SlogLogger (Some lv)) msg out = slog_log lv LevelWarn msg out"
| "Logger_Warn (SlogLogger None) msg out = out"
| "Logger_Warn discardLogger msg out = out"

section \<open>Lemmas\<close>

text \<open>A logger only appends, and only lines its level lets through.\<close>

definition logged :: "Logger \<Rightarrow> log_level \<Rightarrow> string \<Rightarrow> log_line list" where
  "logged lg at msg =
     (case lg of SlogLogger (Some lv) \<Rightarrow> if lv \<le> at then [\<lparr>ll_Level = at, ll_Msg = msg\<rparr>] else [] | _ \<Rightarrow> [])"

lemma Logger_appends [simp]:
  "Logger_Info lg msg out = out @ logged lg LevelInfo msg"
  "Logger_Warn lg msg out = out @ logged lg LevelWarn msg"
  by (simp_all add: logged_def slog_log_def split: Logger.split option.split)

lemma logged_warn_if_info: "logged lg LevelInfo msg \<noteq> [] \<Longrightarrow> logged lg LevelWarn msg' \<noteq> []"
  by (auto simp: logged_def less_eq_log_level_def split: Logger.splits option.splits if_splits)

lemma buildLogger_known: "\<not> snd (buildLogger level) \<longleftrightarrow> level \<in> {''debug'', ''info'', ''warn'', ''error''}"
  by (simp add: buildLogger_def)

end
