(* ===== verification/Listener.thy ===== *)
theory Listener
  imports Http Logging
begin

text \<open>
  \<^verbatim>\<open>runtime/metrics/listener.go\<close> and \<^verbatim>\<open>runtime/http/server.go\<close>: the metrics listener and the wrapper
  around the main server. \<open>Serve\<close> of the listener is three goroutines (the caller, the one that
  waits for cancellation and calls \<open>Stop\<close>, the one in \<open>srv.Serve\<close>) that communicate through a
  \<open>sync.Once\<close> and two channels: a step relation on the record \<open>ListenerState\<close>. What net/http and the
  network answer comes in as the nondeterminism of the steps: binding fails or not,
  \<open>srv.Serve\<close> returns an accept error while the server is not shut down and \<open>ErrServerClosed\<close> once it
  is, \<open>Shutdown\<close> returns with or without an error.
\<close>

section \<open>Servers\<close>

record Server =
  sr_Addr :: string
  sr_ReadHeaderTimeout :: int

definition NewServer :: "string \<Rightarrow> Server" where
  "NewServer listen = \<lparr>sr_Addr = listen, sr_ReadHeaderTimeout = 5 * 1000000000\<rparr>"

definition ErrServerClosed :: goerr where
  "ErrServerClosed = Sentinel ''http: Server closed''"

definition Server_Start :: "goerr \<Rightarrow> goerr option" where
  \<comment> \<open>the argument is what \<open>ListenAndServe\<close> returned; it always returns an error\<close>
  "Server_Start err = (if errors_is err ErrServerClosed then None else Some (Wrapped ''http server'' err))"

definition Server_Shutdown :: "goerr option \<Rightarrow> goerr option" where
  \<comment> \<open>the argument is what \<open>Shutdown\<close> of the inner server returned\<close>
  "Server_Shutdown err = err"

section \<open>The metrics listener\<close>

record ListenerConfig =
  lc_Addr :: string
  lc_Path :: string
  lc_HasRecorder :: bool
  lc_Logger :: "Logger option"
  lc_ReadHeaderTimeout :: int

record Listener =
  li_cfg :: ListenerConfig
  li_srv :: Server

definition listener_defaults :: "ListenerConfig \<Rightarrow> ListenerConfig" where
  "listener_defaults cfg =
     cfg\<lparr>lc_Path := (if lc_Path cfg = '''' then ''/metrics'' else lc_Path cfg),
         lc_Logger := Some (case lc_Logger cfg of None \<Rightarrow> discardLogger | Some lg \<Rightarrow> lg),
         lc_ReadHeaderTimeout :=
           (if lc_ReadHeaderTimeout cfg \<le> 0 then 5 * 1000000000 else lc_ReadHeaderTimeout cfg)\<rparr>"

text \<open>The constructor, for a path that begins with a slash and has no wildcard: registering a pattern twice on
  the listener's mux panics.\<close>

definition NewListener :: "ListenerConfig \<Rightarrow> (goerr + Listener option) outcome" where
  "NewListener cfg =
     (if lc_Addr cfg = '''' then Ret (Inr None)
      else if \<not> lc_HasRecorder cfg then Ret (Inl (ErrorText ''metrics listener: nil Recorder''))
      else let cfg' = listener_defaults cfg in
        if lc_Path cfg' \<in> {''/healthz'', ''/''}
        then Panic (''http: multiple registrations for '' @ lc_Path cfg')
        else Ret (Inr (Some \<lparr>li_cfg = cfg',
                             li_srv = \<lparr>sr_Addr = lc_Addr cfg', sr_ReadHeaderTimeout = lc_ReadHeaderTimeout cfg'\<rparr>\<rparr>)))"

text \<open>The routes of its mux: the metrics path, which names a subtree when it ends with a slash, the
  health check and the rest; \<open>metrics\<close> is the answer of the recorder's handler.\<close>

definition under_pattern :: "string \<Rightarrow> string \<Rightarrow> bool" where
  "under_pattern pat path \<longleftrightarrow> path = pat \<or> last pat = CHR ''/'' \<and> take (length pat) path = pat"

definition listener_handler :: "ListenerConfig \<Rightarrow> Response \<Rightarrow> string \<Rightarrow> Response" where
  "listener_handler cfg metrics path =
     (if under_pattern (lc_Path cfg) path then metrics
      else if path = ''/healthz'' then \<lparr>rp_Status = 200, rp_Body = Text (''ok'' @ [CHR 0x0A])\<rparr>
      else if path = ''/''
      then \<lparr>rp_Status = 200,
            rp_Body = Text (''vtuber-worker-node metrics'' @ [CHR 0x0A, CHR 0x0A] @ ''endpoints:'' @ [CHR 0x0A] @
                            ''  '' @ lc_Path cfg @ [CHR 0x0A] @ ''  /healthz'' @ [CHR 0x0A])\<rparr>
      else http_Error ''404 page not found'' 404)"

section \<open>Serving and stopping\<close>

datatype once_state = OnceNew | OnceRunning | OnceDone

datatype serve_pc = ServeBinding | ServeSelecting | ServeDraining | ServeReturned "goerr option"

datatype watch_pc = WatchIdle | WatchWaiting | WatchStopping | WatchFinished

datatype srv_pc = SrvIdle | SrvServing | SrvSent goerr | SrvReceived

text \<open>
  \<open>ls_serve\<close>, \<open>ls_watch\<close>, \<open>ls_srv\<close>: where the three goroutines are. \<open>WatchFinished\<close> is the closed channel
  \<open>stopped\<close>, \<open>SrvSent e\<close> the value \<open>e\<close> in the channel \<open>stopErr\<close>. \<open>ls_inShutdown\<close> is the flag of
  net/http's server that \<open>Shutdown\<close> sets, \<open>ls_shutdowns\<close> counts the calls of \<open>Shutdown\<close>.
\<close>

record ListenerState =
  ls_netLn :: "string option"
  ls_once :: once_state
  ls_inShutdown :: bool
  ls_shutdowns :: nat
  ls_sockClosed :: bool
  ls_serve :: serve_pc
  ls_watch :: watch_pc
  ls_srv :: srv_pc
  ls_log :: "log_line list"

definition listener_start :: ListenerState where
  "listener_start =
     \<lparr>ls_netLn = None, ls_once = OnceNew, ls_inShutdown = False, ls_shutdowns = 0, ls_sockClosed = False,
      ls_serve = ServeBinding, ls_watch = WatchIdle, ls_srv = SrvIdle, ls_log = []\<rparr>"

definition listener_logger :: "ListenerConfig \<Rightarrow> Logger" where
  "listener_logger cfg = (case lc_Logger cfg of None \<Rightarrow> discardLogger | Some lg \<Rightarrow> lg)"

text \<open>\<open>Stop\<close>: entering the once and calling \<open>Shutdown\<close>, then what follows its return.\<close>

definition Stop_begin :: "ListenerState \<Rightarrow> ListenerState" where
  "Stop_begin l =
     (if ls_once l = OnceNew
      then l\<lparr>ls_once := OnceRunning, ls_inShutdown := True, ls_shutdowns := ls_shutdowns l + 1\<rparr> else l)"

definition Stop_end :: "ListenerConfig \<Rightarrow> goerr option \<Rightarrow> ListenerState \<Rightarrow> ListenerState" where
  "Stop_end cfg shutdownErr l =
     (let out = (if shutdownErr \<noteq> None then Logger_Warn (listener_logger cfg) ''metrics shutdown error'' (ls_log l)
                 else ls_log l)
      in l\<lparr>ls_sockClosed := ls_sockClosed l \<or> ls_netLn l \<noteq> None,
           ls_log := Logger_Info (listener_logger cfg) ''metrics stopped'' out,
           ls_once := OnceDone\<rparr>)"

definition Listener_Stop :: "Listener option \<Rightarrow> goerr option \<Rightarrow> ListenerState \<Rightarrow> ListenerState" where
  \<comment> \<open>a call that nothing else runs beside\<close>
  "Listener_Stop li shutdownErr l =
     (case li of
        None \<Rightarrow> l
      | Some lis \<Rightarrow> if ls_once l = OnceNew then Stop_end (li_cfg lis) shutdownErr (Stop_begin l) else l)"

definition Listener_Addr :: "Listener option \<Rightarrow> ListenerState \<Rightarrow> string" where
  "Listener_Addr li l = (if li = None then '''' else case ls_netLn l of None \<Rightarrow> '''' | Some addr \<Rightarrow> addr)"

definition serve_answer :: "goerr \<Rightarrow> goerr option" where
  "serve_answer err = (if \<not> errors_is err ErrServerClosed then Some err else None)"

text \<open>\<open>done\<close> says that the context is cancelled.\<close>

inductive listener_step :: "ListenerConfig \<Rightarrow> bool \<Rightarrow> ListenerState \<Rightarrow> ListenerState \<Rightarrow> bool"
  for cfg :: ListenerConfig and "done" :: bool
where
  bind_fails:
    "ls_serve l = ServeBinding \<Longrightarrow>
     listener_step cfg done l
       (l\<lparr>ls_serve := ServeReturned (Some (Wrapped (''metrics listener: bind '' @ lc_Addr cfg) err))\<rparr>)"
| binds:
    "ls_serve l = ServeBinding \<Longrightarrow>
     listener_step cfg done l
       (l\<lparr>ls_netLn := Some addr, ls_log := Logger_Info (listener_logger cfg) ''metrics listening'' (ls_log l),
          ls_serve := ServeSelecting, ls_watch := WatchWaiting, ls_srv := SrvServing\<rparr>)"
| cancelled:
    "ls_watch l = WatchWaiting \<Longrightarrow> done \<Longrightarrow>
     listener_step cfg done l ((Stop_begin l)\<lparr>ls_watch := WatchStopping\<rparr>)"
| shutdown_returns:
    "ls_once l = OnceRunning \<Longrightarrow> listener_step cfg done l (Stop_end cfg shutdownErr l)"
| stop_returns:
    "ls_watch l = WatchStopping \<Longrightarrow> ls_once l = OnceDone \<Longrightarrow>
     listener_step cfg done l (l\<lparr>ls_watch := WatchFinished\<rparr>)"
| accept_fails:
    "ls_srv l = SrvServing \<Longrightarrow> \<not> ls_inShutdown l \<Longrightarrow> \<not> errors_is err ErrServerClosed \<Longrightarrow>
     listener_step cfg done l (l\<lparr>ls_srv := SrvSent err\<rparr>)"
| server_closed:
    "ls_srv l = SrvServing \<Longrightarrow> ls_inShutdown l \<Longrightarrow>
     listener_step cfg done l (l\<lparr>ls_srv := SrvSent ErrServerClosed\<rparr>)"
| receives:
    "ls_serve l = ServeSelecting \<or> ls_serve l = ServeDraining \<Longrightarrow> ls_srv l = SrvSent err \<Longrightarrow>
     listener_step cfg done l (l\<lparr>ls_serve := ServeReturned (serve_answer err), ls_srv := SrvReceived\<rparr>)"
| sees_stopped:
    "ls_serve l = ServeSelecting \<Longrightarrow> ls_watch l = WatchFinished \<Longrightarrow>
     listener_step cfg done l (l\<lparr>ls_serve := ServeDraining\<rparr>)"
| gives_up:
    "ls_serve l = ServeDraining \<Longrightarrow>
     listener_step cfg done l (l\<lparr>ls_serve := ServeReturned (serve_answer ErrServerClosed)\<rparr>)"

section \<open>Lemmas\<close>

lemma errors_is_closed [simp]: "errors_is ErrServerClosed ErrServerClosed"
  by (simp add: ErrServerClosed_def)

lemma serve_answer_closed [simp]: "serve_answer ErrServerClosed = None"
  by (simp add: serve_answer_def)

text \<open>Stopping is idempotent: the server is shut down once however often \<open>Stop\<close> is called.\<close>

lemma Listener_Stop_idem: "Listener_Stop li e' (Listener_Stop li e l) = Listener_Stop li e l"
  by (simp add: Listener_Stop_def Stop_end_def Stop_begin_def Let_def split: option.split)

text \<open>
  The invariant of a listener that is started in \<open>listener_start\<close>: \<open>Shutdown\<close> has been called once when
  the once was entered and not at all before, only for a cancelled context; an answer of the
  server goroutine other than \<open>ErrServerClosed\<close> is one it returned by itself; \<open>Serve\<close> returns nil only after
  \<open>Shutdown\<close> was called.
\<close>

definition answer_ok :: "ListenerState \<Rightarrow> goerr option \<Rightarrow> bool" where
  "answer_ok l r \<longleftrightarrow> r \<noteq> None \<or> ls_inShutdown l"

definition listener_ok :: "bool \<Rightarrow> ListenerState \<Rightarrow> bool" where
  "listener_ok done l \<longleftrightarrow>
     (ls_inShutdown l \<longleftrightarrow> ls_once l \<noteq> OnceNew) \<and> ls_shutdowns l = of_bool (ls_once l \<noteq> OnceNew) \<and>
     (ls_once l \<noteq> OnceNew \<longrightarrow> done \<and> ls_watch l \<in> {WatchStopping, WatchFinished}) \<and>
     (ls_watch l \<in> {WatchStopping, WatchFinished} \<longrightarrow> ls_once l \<noteq> OnceNew) \<and>
     (ls_watch l = WatchFinished \<longrightarrow> ls_once l = OnceDone) \<and>
     (ls_once l = OnceDone \<longrightarrow> ls_sockClosed l) \<and>
     (ls_watch l \<noteq> WatchIdle \<longrightarrow> ls_netLn l \<noteq> None) \<and>
     (ls_serve l = ServeBinding \<longrightarrow> l = listener_start) \<and>
     (ls_serve l \<in> {ServeSelecting, ServeDraining} \<longrightarrow> ls_watch l \<noteq> WatchIdle \<and> ls_srv l \<notin> {SrvIdle, SrvReceived}) \<and>
     (ls_serve l = ServeDraining \<longrightarrow> ls_watch l = WatchFinished) \<and>
     (\<forall>e. ls_srv l = SrvSent e \<longrightarrow> answer_ok l (serve_answer e)) \<and>
     (\<forall>r. ls_serve l = ServeReturned r \<longrightarrow> answer_ok l r)"

lemma listener_ok_start: "listener_ok done listener_start"
  by (simp add: listener_ok_def listener_start_def)

lemma listener_ok_cancel: "listener_ok done l \<Longrightarrow> (done \<longrightarrow> done') \<Longrightarrow> listener_ok done' l"
  by (auto simp: listener_ok_def)

lemma listener_ok_step: "listener_step cfg done l l' \<Longrightarrow> listener_ok done l \<Longrightarrow> listener_ok done l'"
proof (induction rule: listener_step.induct)
  case (shutdown_returns l e)
  then show ?case by (auto simp: listener_ok_def answer_ok_def Stop_end_def Let_def listener_start_def)
qed (auto simp: listener_ok_def answer_ok_def Stop_begin_def listener_start_def serve_answer_def)

text \<open>Every step uses up part of a rank, and a listener whose context is cancelled is never stuck before
  \<open>Serve\<close> has returned.\<close>

fun serve_rank :: "serve_pc \<Rightarrow> nat" where
  "serve_rank ServeBinding = 8"
| "serve_rank ServeSelecting = 2"
| "serve_rank ServeDraining = 1"
| "serve_rank (ServeReturned r) = 0"

fun watch_rank :: "watch_pc \<Rightarrow> nat" where
  "watch_rank WatchWaiting = 2"
| "watch_rank WatchStopping = 1"
| "watch_rank _ = 0"

fun srv_rank :: "srv_pc \<Rightarrow> nat" where
  "srv_rank SrvServing = 1"
| "srv_rank _ = 0"

fun once_rank :: "once_state \<Rightarrow> nat" where
  "once_rank OnceNew = 1"
| "once_rank OnceRunning = 1"
| "once_rank OnceDone = 0"

definition listener_rank :: "ListenerState \<Rightarrow> nat" where
  "listener_rank l = serve_rank (ls_serve l) + watch_rank (ls_watch l) + srv_rank (ls_srv l) + once_rank (ls_once l)"

lemma listener_rank_start [simp]: "listener_rank listener_start = 9"
  by (simp add: listener_rank_def listener_start_def)

lemma listener_rank_step: "listener_step cfg done l l' \<Longrightarrow> listener_ok done l \<Longrightarrow> listener_rank l' < listener_rank l"
  by (induction rule: listener_step.induct)
     (auto simp: listener_rank_def Stop_begin_def Stop_end_def Let_def listener_ok_def listener_start_def)

lemma listener_progress:
  assumes "listener_ok True l" and "\<And>r. ls_serve l \<noteq> ServeReturned r"
  shows "\<exists>l'. listener_step cfg True l l'"
proof (cases "ls_serve l")
  case ServeBinding
  then show ?thesis by (blast intro: listener_step.binds)
next
  case ServeSelecting
  show ?thesis
  proof (cases "ls_watch l")
    case WatchIdle
    with assms(1) ServeSelecting show ?thesis by (simp add: listener_ok_def)
  next
    case WatchWaiting
    then show ?thesis by (blast intro: listener_step.cancelled)
  next
    case WatchStopping
    with assms(1) have "ls_once l = OnceRunning \<or> ls_once l = OnceDone"
      by (cases "ls_once l") (simp_all add: listener_ok_def)
    with WatchStopping show ?thesis by (blast intro: listener_step.intros)
  next
    case WatchFinished
    with ServeSelecting show ?thesis by (blast intro: listener_step.sees_stopped)
  qed
next
  case ServeDraining
  then show ?thesis by (blast intro: listener_step.gives_up)
next
  case (ServeReturned r)
  with assms(2) show ?thesis by blast
qed

text \<open>The listener's lines appear in the order listening, shutdown error, stopped, and each at most once.\<close>

definition listener_lines :: "Logger \<Rightarrow> ListenerState \<Rightarrow> bool" where
  "listener_lines lg l \<longleftrightarrow>
     (\<exists>a b. ls_log l = (if ls_watch l = WatchIdle then [] else logged lg LevelInfo ''metrics listening'') @ a @ b \<and>
        a \<in> {[], logged lg LevelWarn ''metrics shutdown error''} \<and>
        b = (if ls_once l = OnceDone then logged lg LevelInfo ''metrics stopped'' else []) \<and>
        (ls_once l \<noteq> OnceDone \<longrightarrow> a = []))"

lemma listener_lines_step:
  assumes "listener_step cfg done l l'" and "listener_ok done l" and "listener_lines (listener_logger cfg) l"
  shows "listener_lines (listener_logger cfg) l'"
  using assms
  by (induction rule: listener_step.induct)
     (auto simp: listener_lines_def listener_ok_def Stop_begin_def Stop_end_def Let_def listener_start_def)

text \<open>\<open>Serve\<close> may return before \<open>Stop\<close> is through: \<open>srv.Serve\<close> returns as soon as \<open>Shutdown\<close> is called.\<close>

lemma serve_returns_before_stop:
  "\<exists>l. (listener_step cfg True)\<^sup>*\<^sup>* listener_start l \<and> ls_serve l = ServeReturned None \<and> ls_once l = OnceRunning \<and>
     \<not> ls_sockClosed l"
proof -
  let ?bound = "listener_start\<lparr>ls_netLn := Some addr, ls_log := logged (listener_logger cfg) LevelInfo ''metrics listening'',
      ls_serve := ServeSelecting, ls_watch := WatchWaiting, ls_srv := SrvServing\<rparr>"
  let ?stopping = "?bound\<lparr>ls_once := OnceRunning, ls_inShutdown := True, ls_shutdowns := 1, ls_watch := WatchStopping\<rparr>"
  let ?sent = "?stopping\<lparr>ls_srv := SrvSent ErrServerClosed\<rparr>"
  let ?last = "?sent\<lparr>ls_serve := ServeReturned None, ls_srv := SrvReceived\<rparr>"
  have "listener_step cfg True listener_start ?bound"
    using listener_step.binds [of listener_start cfg True addr] by (simp add: listener_start_def)
  moreover have "listener_step cfg True ?bound ?stopping"
    using listener_step.cancelled [of ?bound True cfg] by (simp add: listener_start_def Stop_begin_def)
  moreover have "listener_step cfg True ?stopping ?sent"
    using listener_step.server_closed [of ?stopping cfg True] by simp
  moreover have "listener_step cfg True ?sent ?last"
    using listener_step.receives [of ?sent ErrServerClosed cfg True] by simp
  ultimately have "(listener_step cfg True)\<^sup>*\<^sup>* listener_start ?last"
    by (meson converse_rtranclp_into_rtranclp rtranclp.rtrancl_refl)
  then show ?thesis by (intro exI [of _ ?last]) (simp add: listener_start_def)
qed

end
