(* ===== verification/Startup.thy ===== *)
theory Startup
  imports Handlers Payee_Wire Listener
begin

text \<open>
  \<^verbatim>\<open>cmd/vtuber-worker-node/main.go\<close>: flag validation, the start-up sequence up to a populated mux and
  the registration of capability modules. The parsed flags, the
  file system, the dial and the daemon are parameters. The goroutine that reports the uptime is a
  function of its ticks. What follows the start-up, up to the exit code, is theory \<open>Process\<close>. The log
  lines of the start-up are left out.
\<close>

section \<open>Flags\<close>

record flags =
  fl_config :: string
  fl_logLevel :: string
  fl_metricsListen :: string
  fl_metricsMaxSeriesPerMetric :: int

definition default_flags :: flags where
  "default_flags = \<lparr>fl_config = ''/etc/livepeer/worker.yaml'', fl_logLevel = ''info'', fl_metricsListen = '''',
                    fl_metricsMaxSeriesPerMetric = 10000\<rparr>"

text \<open>\<open>net.SplitHostPort\<close> and \<open>strconv.Atoi\<close> as the standard library has them.\<close>

definition addr_error :: "string \<Rightarrow> string \<Rightarrow> goerr" where
  "addr_error addr why = ErrorText ((if addr \<noteq> '''' then ''address '' @ addr @ '': '' else '''') @ why)"

definition index_of :: "char \<Rightarrow> string \<Rightarrow> nat option" where
  "index_of c s = (if c \<in> set s then Some (length (takeWhile (\<lambda>x. x \<noteq> c) s)) else None)"

definition last_index_of :: "char \<Rightarrow> string \<Rightarrow> nat option" where
  "last_index_of c s = map_option (\<lambda>k. length s - 1 - k) (index_of c (rev s))"

definition SplitHostPort :: "string \<Rightarrow> goerr + string \<times> string" where
  "SplitHostPort hostport =
     (case last_index_of (CHR '':'') hostport of
        None \<Rightarrow> Inl (addr_error hostport ''missing port in address'')
      | Some i \<Rightarrow>
          let finish = (\<lambda>host j k.
                if CHR ''['' \<in> set (drop j hostport)
                then Inl (addr_error hostport (''unexpected '' @ [CHR 0x27, CHR 0x5B, CHR 0x27] @ '' in address''))
                else if CHR '']'' \<in> set (drop k hostport)
                then Inl (addr_error hostport (''unexpected '' @ [CHR 0x27, CHR 0x5D, CHR 0x27] @ '' in address''))
                else Inr (host, drop (i + 1) hostport))
          in
          if hd hostport = CHR ''['' then
            (case index_of (CHR '']'') hostport of
               None \<Rightarrow> Inl (addr_error hostport (''missing '' @ [CHR 0x27, CHR 0x5D, CHR 0x27] @ '' in address''))
             | Some e \<Rightarrow>
                 if e + 1 = length hostport then Inl (addr_error hostport ''missing port in address'')
                 else if e + 1 = i then finish (take (e - 1) (drop 1 hostport)) 1 (e + 1)
                 else if hostport ! (e + 1) = CHR '':'' then Inl (addr_error hostport ''too many colons in address'')
                 else Inl (addr_error hostport ''missing port in address''))
          else
            let host = take i hostport in
            if CHR '':'' \<in> set host then Inl (addr_error hostport ''too many colons in address'')
            else finish host 0 0)"

definition num_error :: "string \<Rightarrow> string \<Rightarrow> goerr" where
  "num_error s why = ErrorText (''strconv.Atoi: parsing '' @ [CHR 0x22] @ s @ [CHR 0x22] @ '': '' @ why)"

definition Atoi :: "string \<Rightarrow> goerr + int" where
  \<comment> \<open>an optional sign and decimal digits, in the range of a 64-bit int\<close>
  "Atoi s =
     (case big_SetString s of
        None \<Rightarrow> Inl (num_error s ''invalid syntax'')
      | Some n \<Rightarrow> if is_int64 n then Inr n else Inl (num_error s ''value out of range''))"

definition validateMetricsListen :: "string \<Rightarrow> goerr option" where
  "validateMetricsListen addr =
     (if addr = '''' then None
      else case SplitHostPort addr of
        Inl err \<Rightarrow> Some err
      | Inr (host, port) \<Rightarrow>
          if port = '''' then Some (ErrorText ''port required (e.g. :9093)'')
          else case Atoi port of
            Inl err \<Rightarrow> Some (Wrapped ''port not an integer'' err)
          | Inr p \<Rightarrow>
              if p < 1024 \<or> p > 65535
              then Some (ErrorText (''port '' @ big_String p @ '' outside [1024, 65535]''))
              else None)"

section \<open>Modules\<close>

text \<open>
  The configuration of the session module for one catalog entry. A configured number of seconds is a
  64-bit int; its product with \<open>time.Second\<close> wraps.
\<close>

definition seconds :: "int \<Rightarrow> int" where
  "seconds n = wrap64 (n * Second)"

definition module_config :: "CapabilityEntry \<Rightarrow> 'w ModuleConfig" where
  "module_config entry =
     \<lparr>mc_BackendURL = (case ce_Offerings entry of [] \<Rightarrow> '''' | oo # _ \<Rightarrow> oe_BackendURL oo),
      mc_DebitCadence = (if ce_DebitCadenceSeconds entry > 0 then seconds (ce_DebitCadenceSeconds entry) else 0),
      mc_RunwayMinUnits =
        (if ce_SufficientMinRunwaySeconds entry > 0 then word_of_int (ce_SufficientMinRunwaySeconds entry) else 0),
      mc_GraceWindow = (if ce_SufficientGraceSeconds entry > 0 then seconds (ce_SufficientGraceSeconds entry) else 0),
      mc_DebitRetryBudget = 0, mc_DebitRetryInterval = 0, mc_Bridge = None, mc_Backend = None, mc_Clock = None,
      mc_IDGen = None\<rparr>"

text \<open>The loop over the catalog yields the configurations of the modules it registered, in order; their number is the
  result of the Go function. The session module is a \<open>SessionTerminator\<close>.\<close>

fun registerModules :: "CapabilityEntry list \<Rightarrow> ('d Mux, 'w ModuleConfig list) proc" where
  "registerModules [] = ret []"
| "registerModules (entry # rest) =
     (if ce_Capability entry = CapabilityName
      then andThen (RegisterStreamingRoute CapabilityName HTTPMethodName HTTPPathName True) (\<lambda>_.
           andThen (registerModules rest) (\<lambda>ms. ret (module_config entry # ms)))
      else registerModules rest)"

definition missingCapabilityModules :: "'d Mux \<Rightarrow> Config \<Rightarrow> string list" where
  "missingCapabilityModules mux cfg =
     map ce_Capability (filter (\<lambda>entry. \<not> HasPaidCapability (ce_Capability entry) mux) (cf_Ordered cfg))"

section \<open>Start-up\<close>

record 'd process_env =
  pe_Flags :: "goerr + flags"
  pe_ReadFile :: "string \<Rightarrow> goerr + string"
  pe_Decode :: yaml_decoder
  pe_URLErr :: "string \<Rightarrow> goerr option"
  pe_NewClient :: "string \<Rightarrow> goerr option"
  pe_Stub :: "'d PayeeDaemonClient"
  pe_Version :: string
  pe_GoVersion :: string

text \<open>The recorder of the process: \<open>None\<close> is \<open>Noop\<close>.\<close>

type_synonym process_recorder = "prometheus option"

definition process_record :: "process_recorder recorder" where
  "process_record m r = map_option (Prometheus m) r"

type_synonym 'd process_payee = "'d \<times> process_recorder"

record ('d, 'w) running =
  ru_Config :: Config
  ru_Mux :: "'d process_payee Mux"
  ru_Modules :: "'w ModuleConfig list"
  ru_Payee :: "'d process_payee"
  ru_Server :: Server
  ru_Metrics :: "Listener option"

definition new_recorder :: "'d process_env \<Rightarrow> flags \<Rightarrow> Config \<Rightarrow> process_recorder" where
  "new_recorder env fl cfg =
     (let r = (if fl_metricsListen fl \<noteq> '''' then Some (NewPrometheus (fl_metricsMaxSeriesPerMetric fl)) else None)
      in process_record (SetMaxConcurrent (ws_MaxConcurrentRequests (cf_Worker cfg)))
           (process_record (SetBuildInfo (pe_Version env) (big_String (cf_ProtocolVersion cfg)) (pe_GoVersion env)) r))"

definition check_catalog :: "Config \<Rightarrow> 'd process_payee Client \<Rightarrow> 'd process_payee \<Rightarrow> bool \<times> 'd process_payee" where
  "check_catalog cfg payee d =
     (if ws_VerifyDaemonConsistencyOnStart (cf_Worker cfg)
      then (case ListCapabilities payee d of
              (Inl err, d') \<Rightarrow> (False, d')
            | (Inr daemonCatalog, d') \<Rightarrow> (VerifyDaemonCatalog (Some cfg) daemonCatalog = None, d'))
      else (True, d))"

definition build_mux ::
  "Config \<Rightarrow> 'p Client \<Rightarrow> ('p Mux \<times> 'w ModuleConfig list) outcome"
where
  "build_mux cfg payee =
     (case andThen RegisterUnpaidHandlers (\<lambda>_. registerModules (cf_Ordered cfg)) (NewMux cfg payee) of
        (Ret ms, mux) \<Rightarrow> Ret (mux, ms)
      | (Panic p, _) \<Rightarrow> Panic p)"

definition metrics_config :: "flags \<Rightarrow> ListenerConfig" where
  "metrics_config fl =
     \<lparr>lc_Addr = fl_metricsListen fl, lc_Path = '''', lc_HasRecorder = True,
      lc_Logger = Some (SlogLogger (Some (fst (buildLogger (fl_logLevel fl))))), lc_ReadHeaderTimeout = 0\<rparr>"

text \<open>From the arguments to a populated mux, or an exit code.\<close>

definition startup :: "'d process_env \<Rightarrow> 'd \<Rightarrow> (int + ('d, 'w) running) outcome" where
  "startup env d =
     (case pe_Flags env of
        Inl _ \<Rightarrow> Ret (Inl 2)
      | Inr fl \<Rightarrow>
     if validateMetricsListen (fl_metricsListen fl) \<noteq> None then Ret (Inl 2)
     else case Load (pe_ReadFile env) (pe_Decode env) (pe_URLErr env) (fl_config fl) of
        Inl _ \<Rightarrow> Ret (Inl 1)
      | Inr cfg \<Rightarrow>
     let r = new_recorder env fl cfg in
     (case Dial (pe_NewClient env) (ws_PaymentDaemonSocket (cf_Worker cfg)) of
        Some _ \<Rightarrow> Ret (Inl 1)
      | None \<Rightarrow>
     let payee = meteredClient (grpcClient (pe_Stub env)) process_record in
     (case check_catalog cfg payee (d, r) of
        (False, _) \<Rightarrow> Ret (Inl 1)
      | (True, d1) \<Rightarrow>
     (case build_mux cfg payee of
        Panic p \<Rightarrow> Panic p
      | Ret (mux, modules) \<Rightarrow>
     if modules = [] then Ret (Inl 1)
     else if missingCapabilityModules mux cfg \<noteq> [] then Ret (Inl 1)
     else case NewListener (metrics_config fl) of
        Panic p \<Rightarrow> Panic p
      | Ret (Inl _) \<Rightarrow> Ret (Inl 1)
      | Ret (Inr listener) \<Rightarrow>
          Ret (Inr \<lparr>ru_Config = cfg, ru_Mux = mux, ru_Modules = modules, ru_Payee = d1,
                    ru_Server = NewServer (ws_HTTPListen (cf_Worker cfg)), ru_Metrics = listener\<rparr>)))))"

text \<open>
  The goroutine that reports the uptime: once at the start, then at every tick of its ticker with the
  seconds elapsed, until \<open>uptimeDone\<close> is closed.
\<close>

datatype uptime_event = UptimeTick int | UptimeDone

fun uptime_loop :: "'r recorder \<Rightarrow> uptime_event list \<Rightarrow> 'r \<Rightarrow> 'r" where
  "uptime_loop rec [] r = r"
| "uptime_loop rec (UptimeTick elapsed # evs) r = uptime_loop rec evs (rec (SetUptimeSeconds elapsed) r)"
| "uptime_loop rec (UptimeDone # evs) r = r"

definition uptime_reporter :: "'r recorder \<Rightarrow> int \<Rightarrow> uptime_event list \<Rightarrow> 'r \<Rightarrow> 'r" where
  "uptime_reporter rec elapsed evs r = uptime_loop rec evs (rec (SetUptimeSeconds elapsed) r)"

section \<open>Lemmas: uptime\<close>

text \<open>The gauge shows the last elapsed time reported before the goroutine was told to end.\<close>

fun last_uptime :: "int \<Rightarrow> uptime_event list \<Rightarrow> int" where
  "last_uptime t (UptimeTick elapsed # evs) = last_uptime elapsed evs"
| "last_uptime t evs = t"

lemma uptime_gauge: "uptime_reporter Prometheus t evs p = p\<lparr>pm_uptimeSeconds := last_uptime t evs\<rparr>"
  unfolding uptime_reporter_def by (induction t evs arbitrary: p rule: last_uptime.induct) simp_all

section \<open>Lemmas: addresses\<close>

lemma index_of_split: "c \<notin> set a \<Longrightarrow> index_of c (a @ c # b) = Some (length a)"
  by (induction a) (auto simp: index_of_def)

lemma last_index_of_split: "c \<notin> set b \<Longrightarrow> last_index_of c (a @ c # b) = Some (length a)"
  using index_of_split [of c "rev b" "rev a"] by (simp add: last_index_of_def)

lemma SplitHostPort_plain:
  assumes "\<forall>c \<in> {CHR '':'', CHR ''['', CHR '']''}. c \<notin> set host \<and> c \<notin> set port"
  shows "SplitHostPort (host @ '':'' @ port) = Inr (host, port)"
proof -
  have i: "last_index_of (CHR '':'') (host @ CHR '':'' # port) = Some (length host)"
    using assms by (intro last_index_of_split) auto
  have "hd (host @ CHR '':'' # port) \<noteq> CHR ''[''" using assms by (cases host) auto
  with assms i show ?thesis by (simp add: SplitHostPort_def)
qed

lemma Atoi_Inr: "Atoi s = Inr n \<longleftrightarrow> big_SetString s = Some n \<and> is_int64 n"
  by (auto simp: Atoi_def split: option.splits)

lemma validateMetricsListen_None:
  "validateMetricsListen addr = None \<longleftrightarrow>
     addr = '''' \<or> (\<exists>host port p. SplitHostPort addr = Inr (host, port) \<and> big_SetString port = Some p \<and>
                      1024 \<le> p \<and> p \<le> 65535)"
proof (cases "addr = []")
  case False
  have none: "big_SetString [] = None" by (simp add: big_SetString_def)
  show ?thesis
  proof (cases "SplitHostPort addr")
    case (Inl e)
    with False show ?thesis by (simp add: validateMetricsListen_def)
  next
    case (Inr hp)
    obtain host port where hp: "hp = (host, port)" by fastforce
    have "validateMetricsListen addr = None \<longleftrightarrow> (\<exists>p. Atoi port = Inr p \<and> 1024 \<le> p \<and> p \<le> 65535)"
      using False Inr hp by (cases "Atoi port") (auto simp: validateMetricsListen_def Atoi_def none)
    then show ?thesis
      using False Inr hp by (auto simp: Atoi_Inr is_int64_def)
  qed
qed (simp add: validateMetricsListen_def)

section \<open>Lemmas: registration\<close>

definition unpaid_keys :: "string set" where
  "unpaid_keys = {''GET /health'', ''GET /registry/offerings'', ''POST /v1/payment/ticket-params''}"

definition start_key :: string where
  "start_key = ''POST /api/sessions/start''"

lemma start_key_eq: "route_key HTTPMethodName HTTPPathName = start_key"
  by (simp add: route_key_def HTTPMethodName_def HTTPPathName_def start_key_def)

lemma RegisterUnpaidHandlers_run:
  "\<exists>mux. RegisterUnpaidHandlers (NewMux cfg payee) = (Ret (), mux) \<and> mx_registered mux = unpaid_keys \<and>
     mx_paidCapabilities mux = {} \<and> mx_semCap mux = mx_semCap (NewMux cfg payee) \<and> mx_cfg mux = cfg \<and>
     mx_payee mux = payee \<and> mx_inner mux = (\<lambda>k. if k \<in> unpaid_keys then Some UnpaidRoute else None)"
  by (auto simp: RegisterUnpaidHandlers_def andThen_def Register_def NewMux_def Let_def route_key_def bind_route_def
      unpaid_keys_def fun_eq_iff)

lemma RegisterStreaming_fresh:
  assumes "start_key \<notin> mx_registered m" "topup_key \<notin> mx_registered m" "end_key \<notin> mx_registered m"
  shows "RegisterStreamingRoute CapabilityName HTTPMethodName HTTPPathName True m =
    (Ret (), m\<lparr>mx_paidCapabilities := insert CapabilityName (mx_paidCapabilities m),
       mx_registered := insert end_key (insert topup_key (insert start_key (mx_registered m))),
       mx_inner := (mx_inner m)(start_key \<mapsto> StreamingRoute CapabilityName, topup_key \<mapsto> TopupRoute,
                                end_key \<mapsto> EndRoute True)\<rparr>)"
  using assms
  by (simp add: RegisterStreamingRoute_def start_key_eq Let_def bind_if_absent_def bind_route_def
      start_key_def topup_key_def end_key_def)

lemma registerModules_none:
  "\<forall>e \<in> set es. ce_Capability e \<noteq> CapabilityName \<Longrightarrow> registerModules es = ret []"
  by (induction es) auto

lemma registerModules_one:
  assumes "distinct (map ce_Capability es)" and "e \<in> set es" and "ce_Capability e = CapabilityName"
  shows "registerModules es =
    andThen (RegisterStreamingRoute CapabilityName HTTPMethodName HTTPPathName True) (\<lambda>_. ret [module_config e])"
  using assms
proof (induction es)
  case (Cons x es)
  show ?case
  proof (cases "ce_Capability x = CapabilityName")
    case True
    then have "\<forall>e \<in> set es. ce_Capability e \<noteq> CapabilityName" using Cons.prems(1) by force
    moreover from this True Cons.prems have "e = x" by auto
    ultimately show ?thesis using True by (simp add: registerModules_none)
  next
    case False
    with Cons show ?thesis by auto
  qed
qed simp

definition ready_mux :: "Config \<Rightarrow> 'p Client \<Rightarrow> 'p Mux" where
  "ready_mux cfg payee =
     (NewMux cfg payee)\<lparr>mx_paidCapabilities := {CapabilityName},
       mx_registered := insert end_key (insert topup_key (insert start_key unpaid_keys)),
       mx_inner := (\<lambda>k. if k \<in> unpaid_keys then Some UnpaidRoute else None)
         (start_key \<mapsto> StreamingRoute CapabilityName, topup_key \<mapsto> TopupRoute, end_key \<mapsto> EndRoute True)\<rparr>"

lemma build_mux_one:
  assumes "distinct (map ce_Capability (cf_Ordered cfg))" and "e \<in> set (cf_Ordered cfg)"
    and "ce_Capability e = CapabilityName"
  shows "build_mux cfg payee = Ret (ready_mux cfg payee, [module_config e :: 'w ModuleConfig])"
proof -
  obtain mux where mux: "RegisterUnpaidHandlers (NewMux cfg payee) = (Ret (), mux)" "mx_registered mux = unpaid_keys"
      "mx_paidCapabilities mux = {}" "mx_semCap mux = mx_semCap (NewMux cfg payee)" "mx_cfg mux = cfg" "mx_payee mux = payee"
      "mx_inner mux = (\<lambda>k. if k \<in> unpaid_keys then Some UnpaidRoute else None)"
    using RegisterUnpaidHandlers_run [of cfg payee] by blast
  have keys: "start_key \<notin> unpaid_keys" "topup_key \<notin> unpaid_keys" "end_key \<notin> unpaid_keys"
    by (simp_all add: start_key_def topup_key_def end_key_def unpaid_keys_def)
  have "ready_mux cfg payee = mux\<lparr>mx_paidCapabilities := insert CapabilityName (mx_paidCapabilities mux),
       mx_registered := insert end_key (insert topup_key (insert start_key (mx_registered mux))),
       mx_inner := (mx_inner mux)(start_key \<mapsto> StreamingRoute CapabilityName, topup_key \<mapsto> TopupRoute,
                                end_key \<mapsto> EndRoute True)\<rparr>"
    using mux(2-7) by (cases mux) (simp add: ready_mux_def NewMux_def Let_def)
  with mux(1,2) keys show ?thesis
    by (simp add: build_mux_def andThen_def registerModules_one [OF assms] RegisterStreaming_fresh ret_def)
qed

lemma build_mux_none:
  assumes "\<forall>e \<in> set (cf_Ordered cfg). ce_Capability e \<noteq> CapabilityName"
  shows "\<exists>mux. build_mux cfg payee = Ret (mux, [])"
  using RegisterUnpaidHandlers_run [of cfg payee]
  by (auto simp: build_mux_def andThen_def registerModules_none [OF assms] ret_def)

lemma Load_distinct:
  assumes "Load fs dec urlErr path = Inr cfg"
  shows "distinct (map ce_Capability (cf_Ordered cfg))"
  using assms
proof (rule Load_Inr)
  fix y
  assume "config_wf urlErr y" and "cfg = projectFromYAML y"
  moreover have "ce_Capability \<circ> project_capability = yc_Capability" by (auto simp: project_capability_def)
  ultimately show ?thesis by (simp add: config_wf_def projectFromYAML_def config_New_def)
qed

lemma missing_ready:
  assumes "distinct (map ce_Capability (cf_Ordered cfg))" and "e \<in> set (cf_Ordered cfg)"
    and "ce_Capability e = CapabilityName"
  shows "missingCapabilityModules (ready_mux cfg payee) cfg = [] \<longleftrightarrow> cf_Ordered cfg = [e]"
proof -
  have "missingCapabilityModules (ready_mux cfg payee) cfg = [] \<longleftrightarrow> (\<forall>x \<in> set (cf_Ordered cfg). ce_Capability x = CapabilityName)"
    by (auto simp: missingCapabilityModules_def HasPaidCapability_def ready_mux_def filter_empty_conv)
  also have "\<dots> \<longleftrightarrow> cf_Ordered cfg = [e]"
  proof
    assume all: "\<forall>x \<in> set (cf_Ordered cfg). ce_Capability x = CapabilityName"
    then show "cf_Ordered cfg = [e]"
    proof (cases "cf_Ordered cfg")
      case (Cons x xs)
      then have "xs = []" using all assms(1) by (cases xs) auto
      with Cons assms(2) show ?thesis by simp
    qed (use assms(2) in simp)
  qed (use assms(3) in simp)
  finally show ?thesis .
qed

text \<open>What a process that serves has checked.\<close>

definition ready :: "'d process_env \<Rightarrow> 'd \<Rightarrow> ('d, 'w) running \<Rightarrow> bool" where
  "ready env d ru \<longleftrightarrow>
     (\<exists>fl entry payee.
        pe_Flags env = Inr fl \<and> validateMetricsListen (fl_metricsListen fl) = None \<and>
        Load (pe_ReadFile env) (pe_Decode env) (pe_URLErr env) (fl_config fl) = Inr (ru_Config ru) \<and>
        cf_Ordered (ru_Config ru) = [entry] \<and> ce_Capability entry = CapabilityName \<and>
        ru_Modules ru = [module_config entry] \<and> ru_Mux ru = ready_mux (ru_Config ru) payee \<and>
        (ws_VerifyDaemonConsistencyOnStart (cf_Worker (ru_Config ru)) \<longrightarrow>
           (\<exists>caps. grpc_ListCapabilities (pe_Stub env) d = (Inr caps, fst (ru_Payee ru)) \<and>
              VerifyDaemonCatalog (Some (ru_Config ru)) caps = None)) \<and>
        (ru_Metrics ru \<noteq> None \<longleftrightarrow> fl_metricsListen fl \<noteq> ''''))"

lemma check_catalog_True:
  assumes "check_catalog cfg (meteredClient (grpcClient stub) process_record) (d, r) = (True, d1)"
    and "ws_VerifyDaemonConsistencyOnStart (cf_Worker cfg)"
  shows "\<exists>caps. grpc_ListCapabilities stub d = (Inr caps, fst d1) \<and> VerifyDaemonCatalog (Some cfg) caps = None"
proof -
  obtain x d2 where x: "ListCapabilities (meteredClient (grpcClient stub) process_record) (d, r) = (x, d2)"
    by (metis surj_pair)
  with assms obtain caps where "x = Inr caps" "VerifyDaemonCatalog (Some cfg) caps = None" "d2 = d1"
    by (cases x) (auto simp: check_catalog_def)
  with x show ?thesis by (auto simp: meteredClient_def grpcClient_def)
qed

lemma NewListener_main:
  "\<exists>l. NewListener (metrics_config fl) = Ret (Inr l) \<and> (l \<noteq> None \<longleftrightarrow> fl_metricsListen fl \<noteq> [])"
  by (cases "fl_metricsListen fl = []") (simp_all add: NewListener_def metrics_config_def listener_defaults_def Let_def)

lemma startup_serves:
  assumes fl: "pe_Flags env = Inr fl" "validateMetricsListen (fl_metricsListen fl) = None"
    and load: "Load (pe_ReadFile env) (pe_Decode env) (pe_URLErr env) (fl_config fl) = Inr cfg"
    and dial: "Dial (pe_NewClient env) (ws_PaymentDaemonSocket (cf_Worker cfg)) = None"
    and chk: "check_catalog cfg (meteredClient (grpcClient (pe_Stub env)) process_record)
                (d, new_recorder env fl cfg) = (True, d1)"
    and e: "cf_Ordered cfg = [e]" "ce_Capability e = CapabilityName"
  shows "\<exists>ru :: ('d, 'w) running. startup env d = Ret (Inr ru) \<and> ready env d ru \<and> ru_Modules ru = [module_config e]"
proof -
  let ?payee = "meteredClient (grpcClient (pe_Stub env)) process_record"
  have dist: "distinct (map ce_Capability (cf_Ordered cfg))" using e by simp
  have mux: "build_mux cfg ?payee = Ret (ready_mux cfg ?payee, [module_config e :: 'w ModuleConfig])"
    using build_mux_one [OF dist, of e] e by simp
  have missing: "missingCapabilityModules (ready_mux cfg ?payee) cfg = []"
    using missing_ready [OF dist, of e] e by simp
  obtain l where l: "NewListener (metrics_config fl) = Ret (Inr l)" and lm: "l \<noteq> None \<longleftrightarrow> fl_metricsListen fl \<noteq> []"
    using NewListener_main by blast
  let ?ru = "\<lparr>ru_Config = cfg, ru_Mux = ready_mux cfg ?payee, ru_Modules = [module_config e :: 'w ModuleConfig],
      ru_Payee = d1, ru_Server = NewServer (ws_HTTPListen (cf_Worker cfg)), ru_Metrics = l\<rparr>"
  have "startup env d = Ret (Inr ?ru)"
    using fl load dial chk mux missing l by (simp add: startup_def Let_def)
  moreover have "ready env d ?ru"
    using fl load e lm chk by (auto simp: ready_def dest: check_catalog_True)
  ultimately show ?thesis by auto
qed

lemma startup_refuses:
  assumes fl: "pe_Flags env = Inr fl" "validateMetricsListen (fl_metricsListen fl) = None"
    and load: "Load (pe_ReadFile env) (pe_Decode env) (pe_URLErr env) (fl_config fl) = Inr cfg"
    and dial: "Dial (pe_NewClient env) (ws_PaymentDaemonSocket (cf_Worker cfg)) = None"
    and no: "\<nexists>e. cf_Ordered cfg = [e] \<and> ce_Capability e = CapabilityName"
  shows "(startup env d :: (int + ('d, 'w) running) outcome) = Ret (Inl 1)"
proof -
  let ?payee = "meteredClient (grpcClient (pe_Stub env)) process_record"
  note dist = Load_distinct [OF load]
  obtain ok d1 where chk: "check_catalog cfg ?payee (d, new_recorder env fl cfg) = (ok, d1)" by (metis surj_pair)
  show ?thesis
  proof (cases "\<exists>e \<in> set (cf_Ordered cfg). ce_Capability e = CapabilityName")
    case True
    then obtain e where e: "e \<in> set (cf_Ordered cfg)" "ce_Capability e = CapabilityName" by blast
    then have "missingCapabilityModules (ready_mux cfg ?payee) cfg \<noteq> []"
      using no missing_ready [OF dist, of e] by blast
    with fl load dial chk build_mux_one [OF dist e, of ?payee, where 'w = 'w] show ?thesis
      by (cases ok) (simp_all add: startup_def Let_def)
  next
    case False
    then have "\<exists>mux. build_mux cfg ?payee = Ret (mux, [] :: 'w ModuleConfig list)" by (intro build_mux_none) blast
    with fl load dial chk show ?thesis by (cases ok) (auto simp: startup_def Let_def)
  qed
qed

lemma startup_cases:
  "(\<exists>code. (startup env d :: (int + ('d, 'w) running) outcome) = Ret (Inl code) \<and> code \<in> {1, 2}) \<or>
   (\<exists>ru. (startup env d :: (int + ('d, 'w) running) outcome) = Ret (Inr ru) \<and> ready env d ru)"
proof -
  let ?start = "startup env d :: (int + ('d, 'w) running) outcome"
  show ?thesis
  proof (cases "\<exists>fl cfg. pe_Flags env = Inr fl \<and> validateMetricsListen (fl_metricsListen fl) = None \<and>
      Load (pe_ReadFile env) (pe_Decode env) (pe_URLErr env) (fl_config fl) = Inr cfg \<and>
      Dial (pe_NewClient env) (ws_PaymentDaemonSocket (cf_Worker cfg)) = None")
    case False
    then have "?start = Ret (Inl 1) \<or> ?start = Ret (Inl 2)"
      by (auto simp: startup_def Let_def split: sum.split option.split)
    then show ?thesis by blast
  next
    case True
    then obtain fl cfg where fl: "pe_Flags env = Inr fl" "validateMetricsListen (fl_metricsListen fl) = None"
      and load: "Load (pe_ReadFile env) (pe_Decode env) (pe_URLErr env) (fl_config fl) = Inr cfg"
      and dial: "Dial (pe_NewClient env) (ws_PaymentDaemonSocket (cf_Worker cfg)) = None" by blast
    let ?payee = "meteredClient (grpcClient (pe_Stub env)) process_record"
    obtain ok d1 where chk: "check_catalog cfg ?payee (d, new_recorder env fl cfg) = (ok, d1)" by (metis surj_pair)
    show ?thesis
    proof (cases "ok \<and> (\<exists>e. cf_Ordered cfg = [e] \<and> ce_Capability e = CapabilityName)")
      case True
      then show ?thesis using startup_serves [OF fl load dial, of d d1, where 'w = 'w] chk by auto
    next
      case False
      then have "?start = Ret (Inl 1)"
        using startup_refuses [OF fl load dial, of d, where 'w = 'w] fl load dial chk
        by (cases ok) (simp_all add: startup_def Let_def)
      then show ?thesis by blast
    qed
  qed
qed

section \<open>Properties\<close>

text \<open>C21: Start-up never panics and never half-starts: it ends with exit code 1 or 2, or with a process whose
  flags and configuration are valid, whose daemon reported the configured catalog when that is to be
  checked, whose only configured capability is the session capability this build implements, with one
  module built from that entry, and whose mux binds the three unpaid routes and the three session
  routes and nothing else.\<close>

theorem startup_complete:
  "(\<exists>code. (startup env d :: (int + ('d, 'w) running) outcome) = Ret (Inl code) \<and> code \<in> {1, 2}) \<or>
   (\<exists>ru :: ('d, 'w) running. startup env d = Ret (Inr ru) \<and> ready env d ru \<and>
      HasPaidCapability CapabilityName (ru_Mux ru) \<and> missingCapabilityModules (ru_Mux ru) (ru_Config ru) = [] \<and>
      dom (mx_inner (ru_Mux ru)) = unpaid_keys \<union> {start_key, topup_key, end_key} \<and>
      mx_inner (ru_Mux ru) start_key = Some (StreamingRoute CapabilityName))"
proof -
  have "HasPaidCapability CapabilityName (ru_Mux ru) \<and> missingCapabilityModules (ru_Mux ru) (ru_Config ru) = [] \<and>
      dom (mx_inner (ru_Mux ru)) = unpaid_keys \<union> {start_key, topup_key, end_key} \<and>
      mx_inner (ru_Mux ru) start_key = Some (StreamingRoute CapabilityName)"
    if "ready env d ru" for ru :: "('d, 'w) running"
  proof -
    from that obtain entry payee where "cf_Ordered (ru_Config ru) = [entry]" "ce_Capability entry = CapabilityName"
      and mux: "ru_Mux ru = ready_mux (ru_Config ru) payee"
      by (auto simp: ready_def)
    then have "missingCapabilityModules (ru_Mux ru) (ru_Config ru) = []"
      by (simp add: missingCapabilityModules_def HasPaidCapability_def ready_mux_def)
    moreover have "start_key \<noteq> topup_key" "start_key \<noteq> end_key"
      by (simp_all add: start_key_def topup_key_def end_key_def)
    ultimately show ?thesis
      by (auto simp: mux ready_mux_def HasPaidCapability_def dom_def)
  qed
  then show ?thesis using startup_cases [of env d, where 'w = 'w] by blast
qed

text \<open>C38: Configured seconds keep their value up to the largest number of seconds a \<open>time.Duration\<close> holds:
  then the debit cadence is exactly that long and the session's ticker starts. One second
  more and the cadence has wrapped to a negative duration, which the defaults do not repair and on which
  the ticker panics.\<close>

theorem module_cadence_exact:
  "(0 < ce_DebitCadenceSeconds entry \<and> ce_DebitCadenceSeconds entry \<le> 9223372036 \<longrightarrow>
     md_DebitCadence (withDefaults hb clk (module_config entry)) = ce_DebitCadenceSeconds entry * Second \<and>
     SystemClock_Ticker (md_DebitCadence (withDefaults hb clk (module_config entry))) w = (Ret (), w)) \<and>
   (ce_DebitCadenceSeconds entry = 9223372037 \<longrightarrow>
     md_DebitCadence (withDefaults hb clk (module_config entry)) < 0 \<and>
     (\<exists>p. SystemClock_Ticker (md_DebitCadence (withDefaults hb clk (module_config entry))) w = (Panic p, w)))"
proof (intro conjI impI; (elim conjE)?)
  assume s: "0 < ce_DebitCadenceSeconds entry" "ce_DebitCadenceSeconds entry \<le> 9223372036"
  then have "seconds (ce_DebitCadenceSeconds entry) = ce_DebitCadenceSeconds entry * Second"
    by (simp add: seconds_def Second_def is_int64_def)
  with s show "md_DebitCadence (withDefaults hb clk (module_config entry)) = ce_DebitCadenceSeconds entry * Second"
    and "SystemClock_Ticker (md_DebitCadence (withDefaults hb clk (module_config entry))) w = (Ret (), w)"
    by (simp_all add: withDefaults_def module_config_def SystemClock_Ticker_def Second_def ret_def)
next
  assume s: "ce_DebitCadenceSeconds entry = 9223372037"
  then have "md_DebitCadence (withDefaults hb clk (module_config entry)) = - 9223372036709551616"
    by (simp add: withDefaults_def module_config_def seconds_def wrap64_def Second_def)
  then show "md_DebitCadence (withDefaults hb clk (module_config entry)) < 0"
    and "\<exists>p. SystemClock_Ticker (md_DebitCadence (withDefaults hb clk (module_config entry))) w = (Panic p, w)"
    by (simp_all add: SystemClock_Ticker_def)
qed

text \<open>The metrics address: the flag is accepted exactly when it is empty or splits into a host and a decimal
  port between 1024 and 65535, and every host name followed by such a port is.\<close>

lemma metrics_listen_accepted:
  "(validateMetricsListen addr = None \<longleftrightarrow>
     addr = '''' \<or> (\<exists>host port p. SplitHostPort addr = Inr (host, port) \<and> big_SetString port = Some p \<and>
                      1024 \<le> p \<and> p \<le> 65535)) \<and>
   (CHR '':'' \<notin> set host \<and> CHR ''['' \<notin> set host \<and> CHR '']'' \<notin> set host \<longrightarrow>
     (validateMetricsListen (host @ '':'' @ big_String p) = None \<longleftrightarrow> 1024 \<le> p \<and> p \<le> 65535))"
proof (intro conjI impI)
  assume host: "CHR '':'' \<notin> set host \<and> CHR ''['' \<notin> set host \<and> CHR '']'' \<notin> set host"
  have "\<forall>c \<in> {CHR '':'', CHR ''['', CHR '']''}. c \<notin> set (big_String p)"
    using dec_nat_no_char by (auto simp: big_String_def)
  then have "SplitHostPort (host @ '':'' @ big_String p) = Inr (host, big_String p)"
    using host by (intro SplitHostPort_plain) auto
  then show "validateMetricsListen (host @ '':'' @ big_String p) = None \<longleftrightarrow> 1024 \<le> p \<and> p \<le> 65535"
    by (simp add: validateMetricsListen_None big_SetString_String)
qed (rule validateMetricsListen_None)

section \<open>Witnesses\<close>

definition sample_entry :: "int \<Rightarrow> CapabilityEntry" where
  "sample_entry n = (project_capability (hd (y_Capabilities sample_yaml)))\<lparr>ce_DebitCadenceSeconds := n\<rparr>"

definition sample_backend :: "unit BackendForward" where
  "sample_backend = \<lparr>Backend_OpenSession = (\<lambda>r u. ret None), Backend_Close = (\<lambda>s u. ret None)\<rparr>"

definition sample_clock :: "unit Clock" where
  "sample_clock = \<lparr>Now = (\<lambda>w. (0, w)), Ticker = SystemClock_Ticker\<rparr>"

theorem module_cadence_exact_witness:
  "md_DebitCadence (withDefaults sample_backend sample_clock (module_config (sample_entry 5))) = 5000000000 \<and>
   md_DebitCadence (withDefaults sample_backend sample_clock (module_config (sample_entry 9223372037))) < 0"
proof -
  have cadence: "ce_DebitCadenceSeconds (sample_entry n) = n" for n by (simp add: sample_entry_def)
  show ?thesis
    using module_cadence_exact [of "sample_entry 5" sample_backend sample_clock "()"]
      module_cadence_exact [of "sample_entry 9223372037" sample_backend sample_clock "()"]
    unfolding cadence by (auto simp: Second_def)
qed

text \<open>The sample configuration starts.\<close>

definition sample_env :: "unit process_env" where
  "sample_env =
     \<lparr>pe_Flags = Inr (default_flags\<lparr>fl_config := ''f''\<rparr>), pe_ReadFile = (\<lambda>p. Inr p), pe_Decode = sample_dec,
      pe_URLErr = (\<lambda>_. None), pe_NewClient = (\<lambda>_. None), pe_Stub = sample_wire, pe_Version = ''dev'',
      pe_GoVersion = ''go''\<rparr>"

lemma sample_starts: "\<exists>ru :: (unit, unit) running. startup sample_env () = Ret (Inr ru) \<and> length (ru_Modules ru) = 1"
proof -
  let ?cfg = "projectFromYAML sample_yaml" and ?fl = "default_flags\<lparr>fl_config := ''f''\<rparr>"
  obtain e where e: "cf_Ordered ?cfg = [e]" "ce_Capability e = CapabilityName"
    by (simp add: projectFromYAML_def config_New_def sample_yaml_def project_capability_def CapabilityName_def)
  obtain caps where caps: "ListCapabilities (grpcClient sample_wire) () = (Inr caps, ())"
      "VerifyDaemonCatalog (Some ?cfg) caps = None"
    using sample_catalog_ok by blast
  then have "fst (check_catalog ?cfg (meteredClient (grpcClient sample_wire) process_record) ((), r))" for r
    by (simp add: check_catalog_def meteredClient_def metered_def Let_def split: prod.split)
  then obtain d1 where chk: "check_catalog ?cfg (meteredClient (grpcClient (pe_Stub sample_env)) process_record)
      ((), new_recorder sample_env ?fl ?cfg) = (True, d1)"
    by (metis (full_types) prod.collapse process_env.select_convs(6) sample_env_def)
  have env: "pe_Flags sample_env = Inr ?fl" "validateMetricsListen (fl_metricsListen ?fl) = None"
    "Load (pe_ReadFile sample_env) (pe_Decode sample_env) (pe_URLErr sample_env) (fl_config ?fl) = Inr ?cfg"
    using sample_Load by (simp_all add: sample_env_def default_flags_def validateMetricsListen_def)
  have "Dial (pe_NewClient sample_env) (ws_PaymentDaemonSocket (cf_Worker ?cfg)) = None"
    by (simp add: Dial_def sample_env_def projectFromYAML_def config_New_def sample_yaml_def)
  from startup_serves [OF env this chk e, where 'w = unit] show ?thesis by fastforce
qed

end
