(* ===== verification/Process.thy ===== *)
theory Process
  imports Startup System
begin

text \<open>
  The running process, from the end of the start-up to its exit code: the second half of \<open>run\<close> in
  \<^verbatim>\<open>cmd/vtuber-worker-node/main.go\<close>. Beside the goroutine of \<open>main\<close> there are the one in \<open>srv.Start\<close>, the
  metrics listener with its own two (theory \<open>Listener\<close>), the uptime reporter, and the handlers and
  session goroutines (theory \<open>System\<close>). \<open>runtime_step\<close> has the steps of the first three,
  \<open>process_step\<close> adds those that come from outside: signals, the uptime ticker, and what
  requests and sessions do. What is relied on of net/http is its documented behaviour: \<open>Shutdown\<close>
  makes \<open>ListenAndServe\<close> return \<open>ErrServerClosed\<close>, which it returns in no other case, lets no new request
  in, and returns nil only when no handler runs; its context bounds it, so it always returns.
\<close>

section \<open>State\<close>

datatype main_pc = MainSelect | MainShutdown | MainMetrics | MainServer | MainExit int

datatype start_pc = StartServing | StartSent "goerr option" | StartReceived

datatype metrics_pc = MetricsOff | MetricsServing | MetricsSent "goerr option" | MetricsReceived

text \<open>
  \<open>StartSent e\<close> and \<open>MetricsSent e\<close> are the values in the channels \<open>serverErr\<close> and \<open>metricsErr\<close>, \<open>pr_signal\<close>
  a signal in the channel \<open>sig\<close>, \<open>pr_signalled\<close> that one was received, \<open>pr_cancelled\<close> the cancelled
  \<open>metricsCtx\<close>.
\<close>

record ('d, 'r) process =
  pr_main :: main_pc
  pr_start :: start_pc
  pr_metrics :: metrics_pc
  pr_listener :: ListenerState
  pr_signal :: bool
  pr_signalled :: bool
  pr_cancelled :: bool
  pr_system :: "('d, 'r) system"

definition process_init :: "Listener option \<Rightarrow> 'd \<Rightarrow> 'r \<Rightarrow> ('d, 'r) process" where
  "process_init li d m =
     \<lparr>pr_main = MainSelect, pr_start = StartServing,
      pr_metrics = (case li of None \<Rightarrow> MetricsOff | Some _ \<Rightarrow> MetricsServing),
      pr_listener = listener_start, pr_signal = False, pr_signalled = False, pr_cancelled = False,
      pr_system = system_init d m\<rparr>"

definition exit_code :: "goerr option \<Rightarrow> int" where
  "exit_code err = (if err \<noteq> None then 1 else 0)"

definition exited :: "('d, 'r) process \<Rightarrow> bool" where
  "exited p \<longleftrightarrow> (\<exists>code. pr_main p = MainExit code)"

section \<open>Steps\<close>

inductive runtime_step :: "Listener option \<Rightarrow> ('d, 'r) process \<Rightarrow> ('d, 'r) process \<Rightarrow> bool"
  for li :: "Listener option"
where
  server_fails:
    "\<not> exited p \<Longrightarrow> pr_start p = StartServing \<Longrightarrow> \<not> pr_signalled p \<Longrightarrow> \<not> errors_is err ErrServerClosed \<Longrightarrow>
     runtime_step li p (p\<lparr>pr_start := StartSent (Server_Start err)\<rparr>)"
| server_stops:
    "\<not> exited p \<Longrightarrow> pr_start p = StartServing \<Longrightarrow> pr_signalled p \<Longrightarrow>
     runtime_step li p (p\<lparr>pr_start := StartSent (Server_Start ErrServerClosed)\<rparr>)"
| metrics_works:
    "\<not> exited p \<Longrightarrow> li = Some lis \<Longrightarrow> listener_step (li_cfg lis) (pr_cancelled p) (pr_listener p) l \<Longrightarrow>
     runtime_step li p (p\<lparr>pr_listener := l\<rparr>)"
| metrics_returns:
    "\<not> exited p \<Longrightarrow> pr_metrics p = MetricsServing \<Longrightarrow> ls_serve (pr_listener p) = ServeReturned r \<Longrightarrow>
     runtime_step li p (p\<lparr>pr_metrics := MetricsSent r\<rparr>)"
| main_server:
    "pr_main p = MainSelect \<Longrightarrow> pr_start p = StartSent r \<Longrightarrow>
     runtime_step li p (p\<lparr>pr_main := MainExit (exit_code r), pr_start := StartReceived\<rparr>)"
| main_metrics:
    "pr_main p = MainSelect \<Longrightarrow> pr_metrics p = MetricsSent r \<Longrightarrow>
     runtime_step li p (p\<lparr>pr_main := MainExit (exit_code r), pr_metrics := MetricsReceived\<rparr>)"
| main_signal:
    "pr_main p = MainSelect \<Longrightarrow> pr_signal p \<Longrightarrow>
     runtime_step li p (p\<lparr>pr_main := MainShutdown, pr_signal := False, pr_signalled := True\<rparr>)"
| shutdown_ends:
    "pr_main p = MainShutdown \<Longrightarrow> sy_inflight (pr_system p) = 0 \<Longrightarrow> Server_Shutdown res = None \<Longrightarrow>
     runtime_step li p
       (p\<lparr>pr_main := (if li \<noteq> None then MainMetrics else MainServer), pr_cancelled := True\<rparr>)"
| shutdown_fails:
    "pr_main p = MainShutdown \<Longrightarrow> Server_Shutdown res = Some err \<Longrightarrow>
     runtime_step li p (p\<lparr>pr_main := MainExit (exit_code (Some err))\<rparr>)"
| main_drains_metrics:
    "pr_main p = MainMetrics \<Longrightarrow> pr_metrics p = MetricsSent r \<Longrightarrow>
     runtime_step li p (p\<lparr>pr_main := MainServer, pr_metrics := MetricsReceived\<rparr>)"
| main_drains_server:
    "pr_main p = MainServer \<Longrightarrow> pr_start p = StartSent r \<Longrightarrow>
     runtime_step li p (p\<lparr>pr_main := MainExit 0, pr_start := StartReceived\<rparr>)"

text \<open>
  Requests and sessions: while \<open>main\<close> waits in its select every step of the system; during the
  shutdown no new paid request; after it only sessions that run on, so that
  neither requests nor sessions are added. The uptime reporter runs until the process exits.
\<close>

definition traffic_allowed :: "('d, 'r) process \<Rightarrow> ('d, 'r) system \<Rightarrow> bool" where
  "traffic_allowed p s' \<longleftrightarrow>
     (case pr_main p of
        MainSelect \<Rightarrow> True
      | MainShutdown \<Rightarrow> sy_inflight s' \<le> sy_inflight (pr_system p)
      | MainExit _ \<Rightarrow> False
      | _ \<Rightarrow> sy_inflight s' \<le> sy_inflight (pr_system p) \<and> length (sy_running s') \<le> length (sy_running (pr_system p)))"

definition report_uptime :: "'r recorder \<Rightarrow> int \<Rightarrow> ('d, 'r) system \<Rightarrow> ('d, 'r) system" where
  "report_uptime rec elapsed s =
     s\<lparr>sy_server := (sy_server s)\<lparr>sv_rec := rec (SetUptimeSeconds elapsed) (sv_rec (sy_server s))\<rparr>\<rparr>"

inductive process_step ::
  "'d Mux \<Rightarrow> jsonDecoder \<Rightarrow> (string \<Rightarrow> string \<Rightarrow> goerr option) \<Rightarrow> 'r recorder \<Rightarrow> Listener option \<Rightarrow>
   ('d, 'r) process \<Rightarrow> ('d, 'r) process \<Rightarrow> bool"
  for mx :: "'d Mux" and jd :: jsonDecoder and stop :: "string \<Rightarrow> string \<Rightarrow> goerr option" and rec :: "'r recorder"
    and li :: "Listener option"
where
  runs: "runtime_step li p p' \<Longrightarrow> process_step mx jd stop rec li p p'"
| signal_arrives: "\<not> exited p \<Longrightarrow> process_step mx jd stop rec li p (p\<lparr>pr_signal := True\<rparr>)"
| traffic:
    "system_step mx jd stop (pr_system p) s' \<Longrightarrow> traffic_allowed p s' \<Longrightarrow>
     process_step mx jd stop rec li p (p\<lparr>pr_system := s'\<rparr>)"
| uptime:
    "\<not> exited p \<Longrightarrow> process_step mx jd stop rec li p (p\<lparr>pr_system := report_uptime rec elapsed (pr_system p)\<rparr>)"

section \<open>The invariant\<close>

text \<open>What each place of \<open>main\<close> says about the other goroutines. The codes 0 and 1 are the only ones; 0 is given
  at the end of a graceful shutdown and only there; 1 when the server or the listener returned before a signal
  was received, or when the shutdown failed.\<close>

definition main_ok :: "('d, 'r) process \<Rightarrow> bool" where
  "main_ok p \<longleftrightarrow>
     (case pr_main p of
        MainSelect \<Rightarrow> \<not> pr_signalled p \<and> \<not> pr_cancelled p \<and> pr_start p \<noteq> StartReceived \<and> pr_metrics p \<noteq> MetricsReceived
      | MainShutdown \<Rightarrow> pr_signalled p \<and> \<not> pr_cancelled p \<and> pr_start p \<noteq> StartReceived \<and> pr_metrics p \<noteq> MetricsReceived
      | MainMetrics \<Rightarrow> pr_signalled p \<and> pr_cancelled p \<and> pr_start p \<noteq> StartReceived \<and>
          pr_metrics p \<notin> {MetricsOff, MetricsReceived} \<and> sy_inflight (pr_system p) = 0
      | MainServer \<Rightarrow> pr_signalled p \<and> pr_cancelled p \<and> pr_start p \<noteq> StartReceived \<and>
          pr_metrics p \<in> {MetricsOff, MetricsReceived} \<and> sy_inflight (pr_system p) = 0
      | MainExit code \<Rightarrow>
          code = 1 \<and> \<not> pr_cancelled p \<and>
            (if pr_signalled p then pr_start p \<noteq> StartReceived \<and> pr_metrics p \<noteq> MetricsReceived
             else pr_start p = StartReceived \<or> pr_metrics p = MetricsReceived) \<or>
          code = 0 \<and> pr_signalled p \<and> pr_cancelled p \<and> pr_start p = StartReceived \<and>
          pr_metrics p \<in> {MetricsOff, MetricsReceived} \<and> sy_inflight (pr_system p) = 0)"

definition channels_ok :: "Listener option \<Rightarrow> ('d, 'r) process \<Rightarrow> bool" where
  "channels_ok li p \<longleftrightarrow>
     listener_ok (pr_cancelled p) (pr_listener p) \<and> (pr_metrics p = MetricsOff \<longleftrightarrow> li = None) \<and>
     (\<forall>r. pr_metrics p = MetricsSent r \<longrightarrow> ls_serve (pr_listener p) = ServeReturned r) \<and>
     (pr_metrics p = MetricsReceived \<longrightarrow> (\<exists>r. ls_serve (pr_listener p) = ServeReturned r)) \<and>
     (pr_start p = StartSent None \<longrightarrow> pr_signalled p)"

definition process_inv :: "'d Mux \<Rightarrow> Listener option \<Rightarrow> ('d, 'r) process \<Rightarrow> bool" where
  "process_inv mx li p \<longleftrightarrow> main_ok p \<and> channels_ok li p \<and> system_inv mx (pr_system p)"

lemmas process_defs = main_ok_def channels_ok_def exited_def exit_code_def

lemma process_inv_init: "process_inv mx li (process_init li d m)"
  by (auto simp: process_inv_def main_ok_def channels_ok_def process_init_def listener_ok_start system_inv_init
      split: option.split)

text \<open>\<open>Serve\<close> of the listener has returned nil only when its context is cancelled.\<close>

lemma metrics_returned_nil:
  "listener_ok done l \<Longrightarrow> ls_serve l = ServeReturned None \<Longrightarrow> done"
  by (auto simp: listener_ok_def answer_ok_def)

text \<open>A goroutine that has returned does not move any more.\<close>

lemma serve_returned_stays:
  "listener_step cfg done l l' \<Longrightarrow> ls_serve l = ServeReturned r \<Longrightarrow> ls_serve l' = ServeReturned r"
  by (induction rule: listener_step.induct) (auto simp: Stop_begin_def Stop_end_def Let_def)

lemma channels_ok_listener:
  assumes "channels_ok li p" and "listener_step cfg (pr_cancelled p) (pr_listener p) l"
  shows "channels_ok li (p\<lparr>pr_listener := l\<rparr>)"
  using assms listener_ok_step [OF assms(2)] serve_returned_stays [OF assms(2)] by (auto simp: channels_ok_def)

lemma main_ok_frame:
  assumes "main_ok p" and "pr_main p' = pr_main p" "pr_signalled p' = pr_signalled p" "pr_cancelled p' = pr_cancelled p"
    and "pr_start p' = pr_start p" "pr_metrics p' = pr_metrics p"
    and "sy_inflight (pr_system p') \<le> sy_inflight (pr_system p) \<or> pr_main p \<in> {MainSelect, MainShutdown}"
  shows "main_ok p'"
  using assms by (auto simp: main_ok_def split: main_pc.splits)

lemma process_inv_runtime:
  assumes "runtime_step li p p'" and "process_inv mx li p"
  shows "process_inv mx li p'"
  using assms
proof (induction rule: runtime_step.induct)
  case (metrics_works p lis l)
  then have "channels_ok li (p\<lparr>pr_listener := l\<rparr>)"
    by (intro channels_ok_listener [of li p]) (simp_all add: process_inv_def)
  moreover have "main_ok (p\<lparr>pr_listener := l\<rparr>)"
    using metrics_works by - (rule main_ok_frame [of p], simp_all add: process_inv_def)
  ultimately show ?case using metrics_works by (simp add: process_inv_def)
next
  case (main_metrics p r)
  then have ok: "listener_ok (pr_cancelled p) (pr_listener p)" "ls_serve (pr_listener p) = ServeReturned r" "\<not> pr_cancelled p"
    by (auto simp: process_inv_def main_ok_def channels_ok_def)
  have "r \<noteq> None" using metrics_returned_nil [OF ok(1)] ok(2,3) by auto
  with main_metrics show ?case by (auto simp: process_inv_def process_defs)
next
  case (shutdown_ends p res)
  then have "listener_ok True (pr_listener p)"
    by (auto simp: process_inv_def channels_ok_def intro: listener_ok_cancel)
  with shutdown_ends show ?case by (auto simp: process_inv_def process_defs)
qed (auto simp: process_inv_def process_defs Server_Start_def split: main_pc.splits)

lemma process_inv_step:
  assumes "process_step mx jd stop rec li p p'" and "process_inv mx li p"
  shows "process_inv mx li p'"
  using assms
proof (induction rule: process_step.induct)
  case (runs p p')
  then show ?case by (rule process_inv_runtime)
next
  case (signal_arrives p)
  then have "main_ok (p\<lparr>pr_signal := True\<rparr>)" by - (rule main_ok_frame [of p], simp_all add: process_inv_def)
  with signal_arrives show ?case by (simp add: process_inv_def channels_ok_def)
next
  case (traffic p s')
  then have "main_ok (p\<lparr>pr_system := s'\<rparr>)"
    by - (rule main_ok_frame [of p], auto simp: process_inv_def traffic_allowed_def split: main_pc.splits)
  with traffic show ?case by (auto simp: process_inv_def channels_ok_def intro: system_inv_step)
next
  case (uptime p elapsed)
  let ?s = "report_uptime rec elapsed (pr_system p)"
  have "main_ok (p\<lparr>pr_system := ?s\<rparr>)"
    using uptime by - (rule main_ok_frame [of p], simp_all add: process_inv_def report_uptime_def)
  moreover have "system_inv mx ?s"
    using uptime unfolding report_uptime_def by (intro system_inv_forget) (simp_all add: process_inv_def)
  ultimately show ?case using uptime by (simp add: process_inv_def channels_ok_def)
qed

lemma process_inv_reachable:
  assumes "(process_step mx jd stop rec li)\<^sup>*\<^sup>* (process_init li d m) p"
  shows "process_inv mx li p"
  using assms by (induction rule: rtranclp_induct) (auto intro: process_inv_init process_inv_step)

section \<open>Ranks and progress\<close>

fun main_rank :: "main_pc \<Rightarrow> nat" where
  "main_rank MainSelect = 4"
| "main_rank MainShutdown = 3"
| "main_rank MainMetrics = 2"
| "main_rank MainServer = 1"
| "main_rank (MainExit code) = 0"

fun start_rank :: "start_pc \<Rightarrow> nat" where
  "start_rank StartServing = 1"
| "start_rank _ = 0"

fun metrics_rank :: "metrics_pc \<Rightarrow> nat" where
  "metrics_rank MetricsServing = 1"
| "metrics_rank _ = 0"

definition process_rank :: "('d, 'r) process \<Rightarrow> nat" where
  "process_rank p =
     main_rank (pr_main p) + start_rank (pr_start p) + metrics_rank (pr_metrics p) + listener_rank (pr_listener p)"

lemma process_rank_init: "process_rank (process_init li d m) \<le> 15"
  by (simp add: process_rank_def process_init_def split: option.split)

lemma process_rank_runtime:
  assumes "runtime_step li p p'" and "process_inv mx li p"
  shows "process_rank p' < process_rank p"
  using assms
proof (induction rule: runtime_step.induct)
  case (metrics_works p lis l)
  then have "listener_rank l < listener_rank (pr_listener p)"
    by (auto simp: process_inv_def channels_ok_def intro: listener_rank_step)
  then show ?case by (simp add: process_rank_def)
qed (auto simp: process_rank_def)

lemma process_rank_step:
  assumes "process_step mx jd stop rec li p p'" and "process_inv mx li p"
  shows "process_rank p' \<le> process_rank p"
  using assms
proof (induction rule: process_step.induct)
  case (runs p p')
  then show ?case using process_rank_runtime by (intro less_imp_le)
qed (simp_all add: process_rank_def)

text \<open>After a signal the process is never stuck before its exit: whatever a goroutine waits for, another
  one can bring about.\<close>

lemma process_progress:
  assumes inv: "process_inv mx li p" and sig: "pr_signal p \<or> pr_signalled p" and "\<not> exited p"
  shows "\<exists>p'. runtime_step li p p'"
proof (cases "pr_main p")
  case MainSelect
  with inv sig have "pr_signal p" by (simp add: process_inv_def main_ok_def)
  with MainSelect show ?thesis by (blast intro: runtime_step.main_signal)
next
  case MainShutdown
  then show ?thesis
    using runtime_step.shutdown_fails [of p "Some context_DeadlineExceeded" context_DeadlineExceeded]
    by (auto simp: Server_Shutdown_def)
next
  case MainMetrics
  with inv have l: "listener_ok True (pr_listener p)" and c: "pr_cancelled p"
    and m: "pr_metrics p = MetricsServing \<or> (\<exists>r. pr_metrics p = MetricsSent r)"
    by (cases "pr_metrics p"; simp add: process_inv_def main_ok_def channels_ok_def)+
  from inv MainMetrics obtain lis where li: "li = Some lis"
    by (cases li) (auto simp: process_inv_def main_ok_def channels_ok_def)
  show ?thesis
  proof (cases "\<exists>r. ls_serve (pr_listener p) = ServeReturned r")
    case True
    with m MainMetrics \<open>\<not> exited p\<close> show ?thesis
      by (blast intro: runtime_step.metrics_returns runtime_step.main_drains_metrics)
  next
    case False
    then obtain l' where "listener_step (li_cfg lis) True (pr_listener p) l'"
      using listener_progress [OF l] by blast
    with c li \<open>\<not> exited p\<close> show ?thesis by (metis runtime_step.metrics_works)
  qed
next
  case MainServer
  with inv have "pr_signalled p" "pr_start p \<noteq> StartReceived" by (simp_all add: process_inv_def main_ok_def)
  with MainServer \<open>\<not> exited p\<close> show ?thesis
    by (cases "pr_start p") (blast intro: runtime_step.server_stops runtime_step.main_drains_server)+
next
  case (MainExit code)
  with assms(3) show ?thesis by (simp add: exited_def)
qed

text \<open>Runs of the process, with the number of steps its own goroutines have made.\<close>

inductive process_run ::
  "'d Mux \<Rightarrow> jsonDecoder \<Rightarrow> (string \<Rightarrow> string \<Rightarrow> goerr option) \<Rightarrow> 'r recorder \<Rightarrow> Listener option \<Rightarrow>
   ('d, 'r) process \<Rightarrow> nat \<Rightarrow> ('d, 'r) process \<Rightarrow> bool"
  for mx :: "'d Mux" and jd :: jsonDecoder and stop :: "string \<Rightarrow> string \<Rightarrow> goerr option" and rec :: "'r recorder"
    and li :: "Listener option" and p :: "('d, 'r) process"
where
  run_start: "process_run mx jd stop rec li p 0 p"
| run_own: "process_run mx jd stop rec li p n p' \<Longrightarrow> runtime_step li p' p'' \<Longrightarrow> process_run mx jd stop rec li p (Suc n) p''"
| run_any: "process_run mx jd stop rec li p n p' \<Longrightarrow> process_step mx jd stop rec li p' p'' \<Longrightarrow>
    process_run mx jd stop rec li p n p''"

lemma process_run_rank:
  assumes "process_run mx jd stop rec li p n p'" and "process_inv mx li p"
  shows "process_inv mx li p' \<and> n + process_rank p' \<le> process_rank p"
  using assms
proof (induction rule: process_run.induct)
  case (run_own n p' p'')
  then show ?case using process_inv_runtime [OF run_own.hyps(2)] process_rank_runtime [OF run_own.hyps(2)] by fastforce
next
  case (run_any n p' p'')
  then show ?case using process_inv_step [OF run_any.hyps(2)] process_rank_step [OF run_any.hyps(2)] by fastforce
qed simp

section \<open>The whole program\<close>

text \<open>The exit codes of \<open>run\<close>: that of a start-up that fails, or one a run of the started process ends with.\<close>

definition run_exits ::
  "'d process_env \<Rightarrow> jsonDecoder \<Rightarrow> (string \<Rightarrow> string \<Rightarrow> goerr option) \<Rightarrow> 'd \<Rightarrow> int \<Rightarrow> bool"
where
  "run_exits env jd stop d code \<longleftrightarrow>
     (case startup env d :: (int + ('d, unit) running) outcome of
        Panic _ \<Rightarrow> False
      | Ret (Inl c) \<Rightarrow> code = c
      | Ret (Inr ru) \<Rightarrow>
          (\<exists>p. (process_step (ru_Mux ru) jd stop process_record (ru_Metrics ru))\<^sup>*\<^sup>*
                  (process_init (ru_Metrics ru) (ru_Payee ru) (snd (ru_Payee ru))) p \<and>
               pr_main p = MainExit code))"

lemma startup_usage:
  "(startup env d :: (int + ('d, 'w) running) outcome) = Ret (Inl 2) \<longleftrightarrow>
     (\<forall>fl. pe_Flags env = Inr fl \<longrightarrow> validateMetricsListen (fl_metricsListen fl) \<noteq> None)"
proof (cases "\<exists>fl. pe_Flags env = Inr fl \<and> validateMetricsListen (fl_metricsListen fl) = None")
  case True
  then obtain fl where fl: "pe_Flags env = Inr fl" "validateMetricsListen (fl_metricsListen fl) = None" by blast
  then have "(startup env d :: (int + ('d, 'w) running) outcome) \<noteq> Ret (Inl 2)"
    by (auto simp: startup_def Let_def split: sum.split option.split prod.split outcome.split bool.split)
  with fl show ?thesis by auto
next
  case False
  then show ?thesis by (cases "pe_Flags env") (auto simp: startup_def)
qed

lemma signal_stays:
  "process_step mx jd stop rec li p p' \<Longrightarrow> pr_signal p \<or> pr_signalled p \<Longrightarrow> pr_signal p' \<or> pr_signalled p'"
  by (induction rule: process_step.induct) (auto elim: runtime_step.cases)

lemma signal_stays_run:
  "process_run mx jd stop rec li p n p' \<Longrightarrow> pr_signal p \<or> pr_signalled p \<Longrightarrow> pr_signal p' \<or> pr_signalled p'"
proof (induction rule: process_run.induct)
  case (run_own n p' p'')
  then show ?case by (metis process_step.runs signal_stays)
next
  case (run_any n p' p'')
  then show ?case by (metis signal_stays)
qed

lemma process_rank_reachable:
  assumes "(process_step mx jd stop rec li)\<^sup>*\<^sup>* (process_init li d m) p"
  shows "process_rank p \<le> 15"
  using assms
proof (induction rule: rtranclp_induct)
  case (step p p')
  then show ?case using process_rank_step [OF step.hyps(2) process_inv_reachable [OF step.hyps(1)]] by simp
qed (rule process_rank_init)

section \<open>Properties\<close>

text \<open>C17: What the exit code of a started process says. It is 0 or 1, and it is 0 exactly when a signal
  was received and the graceful shutdown got past \<open>Shutdown\<close>. Then the server's goroutine has returned, no
  paid request is in flight, so the only slots taken are those of sessions, and the metrics listener, if there is
  one, has returned, after exactly one shutdown when it returned without an error; if it failed by
  itself and its error lost against the signal in the select, the code is 0 all the same. It is 1 in
  the other cases: without a signal, because the server or the listener had returned (the listener with an error);
  with one, because \<open>Shutdown\<close> failed, and neither of them was awaited.\<close>

theorem exit_zero_graceful:
  assumes "(process_step mx jd stop rec li)\<^sup>*\<^sup>* (process_init li d m) p" and "pr_main p = MainExit code"
  shows "(code = 0 \<or> code = 1) \<and> (code = 0 \<longleftrightarrow> pr_signalled p \<and> pr_cancelled p) \<and>
    (code = 0 \<longrightarrow> pr_start p = StartReceived \<and> sy_inflight (pr_system p) = 0 \<and>
      sv_sem (sy_server (pr_system p)) = length (sy_running (pr_system p)) \<and>
      (li \<noteq> None \<longrightarrow> (\<exists>r. ls_serve (pr_listener p) = ServeReturned r \<and> (r = None \<longrightarrow> ls_shutdowns (pr_listener p) = 1)))) \<and>
    (code = 1 \<and> \<not> pr_signalled p \<longrightarrow>
      pr_start p = StartReceived \<or> pr_metrics p = MetricsReceived \<and> (\<exists>e. ls_serve (pr_listener p) = ServeReturned (Some e))) \<and>
    (code = 1 \<and> pr_signalled p \<longrightarrow> \<not> pr_cancelled p \<and> pr_start p \<noteq> StartReceived \<and> pr_metrics p \<noteq> MetricsReceived)"
proof -
  have inv: "main_ok p" "channels_ok li p" "slots_ok mx (pr_system p)"
    using process_inv_reachable [OF assms(1)] by (simp_all add: process_inv_def system_inv_def)
  have "ls_shutdowns (pr_listener p) = 1" if "ls_serve (pr_listener p) = ServeReturned None"
    using inv(2) that by (auto simp: channels_ok_def listener_ok_def answer_ok_def)
  moreover have "\<exists>e. ls_serve (pr_listener p) = ServeReturned (Some e)" if m: "pr_metrics p = MetricsReceived" "\<not> pr_cancelled p"
  proof -
    obtain r where r: "ls_serve (pr_listener p) = ServeReturned r" "listener_ok (pr_cancelled p) (pr_listener p)"
      using inv(2) m(1) by (auto simp: channels_ok_def)
    then have "r \<noteq> None" using metrics_returned_nil m(2) by metis
    with r(1) show ?thesis by simp
  qed
  ultimately show ?thesis using inv assms(2) by (auto simp: main_ok_def channels_ok_def slots_ok_def split: if_split_asm)
qed

text \<open>C18: A signal ends the process. From every reachable state in which a signal is waiting or was
  received, on every continuation, with whatever requests, sessions, uptime ticks and further signals in
  between: the process has exited, or one of its own goroutines (\<open>main\<close>, the server, the metrics
  listener) can move, and these make at most 15 moves in all. So none of the channel receives of the
  shutdown waits forever.\<close>

theorem signal_exits:
  assumes "(process_step mx jd stop rec li)\<^sup>*\<^sup>* (process_init li d m) p" and "pr_signal p \<or> pr_signalled p"
    and "process_run mx jd stop rec li p n p'"
  shows "n \<le> 15 \<and> (exited p' \<or> (\<exists>p''. runtime_step li p' p''))"
proof -
  note run = process_run_rank [OF assms(3) process_inv_reachable [OF assms(1)]]
  then have "n \<le> 15" using process_rank_reachable [OF assms(1)] by simp
  moreover have "exited p' \<or> (\<exists>p''. runtime_step li p' p'')"
    using process_progress [of mx li p'] run signal_stays_run [OF assms(3,2)] by blast
  ultimately show ?thesis by blast
qed

text \<open>The exit codes of the program: 2 exactly for wrong flags, 0 only for a worker that started.\<close>

lemma run_exit_codes:
  assumes "run_exits env jd stop d code"
  shows "code \<in> {0, 1, 2} \<and>
    (code = 2 \<longleftrightarrow> (\<forall>fl. pe_Flags env = Inr fl \<longrightarrow> validateMetricsListen (fl_metricsListen fl) \<noteq> None)) \<and>
    (code = 0 \<longrightarrow> (\<exists>ru :: ('d, unit) running. startup env d = Ret (Inr ru) \<and> ready env d ru))"
proof -
  have usage: "(startup env d :: (int + ('d, unit) running) outcome) = Ret (Inl 2) \<longleftrightarrow>
      (\<forall>fl. pe_Flags env = Inr fl \<longrightarrow> validateMetricsListen (fl_metricsListen fl) \<noteq> None)" by (rule startup_usage)
  from startup_cases [of env d, where 'w = unit] show ?thesis
  proof (elim disjE exE conjE)
    fix c
    assume "startup env d = (Ret (Inl c) :: (int + ('d, unit) running) outcome)" "c \<in> {1, 2}"
    with assms usage show ?thesis by (auto simp: run_exits_def)
  next
    fix ru :: "('d, unit) running"
    assume ru: "startup env d = Ret (Inr ru)" "ready env d ru"
    with assms obtain p where p: "(process_step (ru_Mux ru) jd stop process_record (ru_Metrics ru))\<^sup>*\<^sup>*
        (process_init (ru_Metrics ru) (ru_Payee ru) (snd (ru_Payee ru))) p" "pr_main p = MainExit code"
      by (auto simp: run_exits_def)
    have "code \<in> {0, 1}"
      using process_inv_reachable [OF p(1)] p(2) by (auto simp: process_inv_def main_ok_def)
    with ru usage show ?thesis by auto
  qed
qed

section \<open>A shutdown with a running session\<close>

text \<open>A graceful exit leaves the sessions that are still running: neither their payment sessions nor their
  slots are released, and their registry entries are still there.\<close>

lemma exit_abandons_sessions:
  "\<exists>p start. (process_step sample_mux sample_jd (\<lambda>g u. None) rec None)\<^sup>*\<^sup>* (process_init None NewFake ()) p \<and>
     pr_main p = MainExit 0 \<and> sy_running (pr_system p) = [(start, False)] \<and> sv_sem (sy_server (pr_system p)) = 1"
proof -
  let ?step = "process_step sample_mux sample_jd (\<lambda>g u. None) rec None" and ?init = "process_init None NewFake ()"
  obtain resp start st' where open1: "streamingMiddleware sample_mux sample_jd ''livepeer:vtuber-session'' None sample_request
      sample_server = (Ret (resp, Some start), st')"
    using sample_stream by blast
  have init: "sy_server (system_init NewFake ()) = sample_server" by (simp add: system_init_def sample_server_def)
  let ?s = "(system_init NewFake ())\<lparr>sy_server := st', sy_running := [(start, False)]\<rparr>"
  have sys: "system_step sample_mux sample_jd (\<lambda>g u. None) (system_init NewFake ()) ?s"
    using session_opened [OF open1 [folded init]] by (simp add: system_init_def)
  let ?p1 = "?init\<lparr>pr_system := ?s\<rparr>"
  let ?p2 = "?p1\<lparr>pr_signal := True\<rparr>"
  let ?p3 = "?p2\<lparr>pr_main := MainShutdown, pr_signal := False, pr_signalled := True\<rparr>"
  let ?p4 = "?p3\<lparr>pr_main := MainServer, pr_cancelled := True\<rparr>"
  let ?p5 = "?p4\<lparr>pr_start := StartSent None\<rparr>"
  let ?p6 = "?p5\<lparr>pr_main := MainExit 0, pr_start := StartReceived\<rparr>"
  have "?step ?init ?p1"
    using process_step.traffic [of sample_mux sample_jd _ ?init ?s] sys by (simp add: process_init_def traffic_allowed_def)
  moreover have "?step ?p1 ?p2"
    using process_step.signal_arrives [of ?p1] by (simp add: process_init_def exited_def)
  moreover have "?step ?p2 ?p3"
    using runtime_step.main_signal [of ?p2 None] by (intro process_step.runs) (simp add: process_init_def)
  moreover have "?step ?p3 ?p4"
    using runtime_step.shutdown_ends [of ?p3 None None]
    by (intro process_step.runs) (simp add: process_init_def system_init_def Server_Shutdown_def)
  moreover have "?step ?p4 ?p5"
    using runtime_step.server_stops [of ?p4 None]
    by (intro process_step.runs) (simp add: process_init_def exited_def Server_Start_def)
  moreover have "?step ?p5 ?p6"
    using runtime_step.main_drains_server [of ?p5 None None] by (intro process_step.runs) (simp add: process_init_def)
  ultimately have reach: "?step\<^sup>*\<^sup>* ?init ?p6" by (meson converse_rtranclp_into_rtranclp rtranclp.rtrancl_refl)
  then have "sv_sem (sy_server (pr_system ?p6)) = 1"
    using process_inv_reachable [OF reach] by (simp add: process_inv_def system_inv_def slots_ok_def system_init_def)
  with reach show ?thesis by (intro exI [of _ ?p6] exI [of _ start]) simp
qed

text \<open>The listener cannot bind its address, a signal wins the select, and the process exits with 0.\<close>

lemma late_failure_unreported:
  "\<exists>p e. (process_step sample_mux sample_jd (\<lambda>g u. None) rec (Some lis))\<^sup>*\<^sup>* (process_init (Some lis) NewFake ()) p \<and>
     pr_main p = MainExit 0 \<and> ls_serve (pr_listener p) = ServeReturned (Some e) \<and> ls_shutdowns (pr_listener p) = 0"
proof -
  let ?step = "process_step sample_mux sample_jd (\<lambda>g u. None) rec (Some lis)" and ?init = "process_init (Some lis) NewFake ()"
  let ?e = "Wrapped (''metrics listener: bind '' @ lc_Addr (li_cfg lis)) (ErrorText ''address already in use'')"
  let ?p1 = "?init\<lparr>pr_listener := listener_start\<lparr>ls_serve := ServeReturned (Some ?e)\<rparr>\<rparr>"
  let ?p2 = "?p1\<lparr>pr_metrics := MetricsSent (Some ?e)\<rparr>"
  let ?p3 = "?p2\<lparr>pr_signal := True\<rparr>"
  let ?p4 = "?p3\<lparr>pr_main := MainShutdown, pr_signal := False, pr_signalled := True\<rparr>"
  let ?p5 = "?p4\<lparr>pr_main := MainMetrics, pr_cancelled := True\<rparr>"
  let ?p6 = "?p5\<lparr>pr_main := MainServer, pr_metrics := MetricsReceived\<rparr>"
  let ?p7 = "?p6\<lparr>pr_start := StartSent None\<rparr>"
  let ?p8 = "?p7\<lparr>pr_main := MainExit 0, pr_start := StartReceived\<rparr>"
  have bind: "listener_step (li_cfg lis) False listener_start (listener_start\<lparr>ls_serve := ServeReturned (Some ?e)\<rparr>)"
    by (rule listener_step.bind_fails) (simp add: listener_start_def)
  have "runtime_step (Some lis) ?init ?p1"
    using runtime_step.metrics_works [of ?init "Some lis" lis] bind by (simp add: process_init_def exited_def)
  moreover have "runtime_step (Some lis) ?p1 ?p2"
    using runtime_step.metrics_returns [of ?p1 "Some ?e" "Some lis"] by (simp add: process_init_def exited_def)
  moreover have "?step ?p2 ?p3" using process_step.signal_arrives [of ?p2] by (simp add: process_init_def exited_def)
  moreover have "runtime_step (Some lis) ?p3 ?p4"
    using runtime_step.main_signal [of ?p3 "Some lis"] by (simp add: process_init_def)
  moreover have "runtime_step (Some lis) ?p4 ?p5"
    using runtime_step.shutdown_ends [of ?p4 None "Some lis"] by (simp add: process_init_def system_init_def Server_Shutdown_def)
  moreover have "runtime_step (Some lis) ?p5 ?p6"
    using runtime_step.main_drains_metrics [of ?p5 "Some ?e" "Some lis"] by (simp add: process_init_def)
  moreover have "runtime_step (Some lis) ?p6 ?p7"
    using runtime_step.server_stops [of ?p6 "Some lis"] by (simp add: process_init_def exited_def Server_Start_def)
  moreover have "runtime_step (Some lis) ?p7 ?p8"
    using runtime_step.main_drains_server [of ?p7 None "Some lis"] by (simp add: process_init_def)
  ultimately have "?step\<^sup>*\<^sup>* ?init ?p8"
    by (meson converse_rtranclp_into_rtranclp rtranclp.rtrancl_refl process_step.runs)
  then show ?thesis by (intro exI [of _ ?p8] exI [of _ ?e]) (simp add: listener_start_def)
qed

theorem exit_zero_graceful_witness:
  "\<exists>p start. pr_main p = MainExit 0 \<and> pr_signalled p \<and> sy_inflight (pr_system p) = 0 \<and>
     sy_running (pr_system p) = [(start, False)] \<and> sv_sem (sy_server (pr_system p)) = 1 \<and>
     (process_step sample_mux sample_jd (\<lambda>g u. None) (\<lambda>_. id) None)\<^sup>*\<^sup>* (process_init None NewFake ()) p"
proof -
  obtain p start where p: "(process_step sample_mux sample_jd (\<lambda>g u. None) (\<lambda>_. id) None)\<^sup>*\<^sup>* (process_init None NewFake ()) p"
      "pr_main p = MainExit 0" and left: "sy_running (pr_system p) = [(start, False)]"
    using exit_abandons_sessions [of "\<lambda>_. id"] by blast
  with exit_zero_graceful [OF p] show ?thesis by (intro exI [of _ p] exI [of _ start]) auto
qed

theorem signal_exits_witness:
  "\<exists>p'. runtime_step None ((process_init None NewFake ())\<lparr>pr_signal := True\<rparr>) p'"
proof -
  let ?init = "process_init None NewFake ()" and ?step = "process_step sample_mux sample_jd (\<lambda>g u. None) (\<lambda>_. id) None"
  have "?step ?init (?init\<lparr>pr_signal := True\<rparr>)"
    using process_step.signal_arrives [of ?init] by (simp add: process_init_def exited_def)
  then have "?step\<^sup>*\<^sup>* ?init (?init\<lparr>pr_signal := True\<rparr>)" by blast
  from signal_exits [OF this _ process_run.run_start] show ?thesis by (simp add: process_init_def exited_def)
qed

end
