(* ===== verification/Session_Relation.thy ===== *)
theory Session_Relation
  imports Session_Protocol
begin

text \<open>
  Lifting a relation from the calls of a session to the whole of it. The locale
  \<open>calm_relation\<close> has a reflexive and transitive relation between the states of a session that
  looks at the world, the calls and the event counter only, and that every event and every call on a
  collaborator keeps, debits and the closing of the payment session apart; then everything between
  two debits keeps it. \<open>session_relation\<close> adds the debits: then \<open>Serve\<close> keeps the relation until it
  closes the payment session, its last call, on every input sequence and through every panic.
  \<open>closing_relation\<close> adds the closing. Charging, event ids and the composition with the rest of the worker
  are instances.
\<close>

text \<open>Getting from \<open>s\<close> to \<open>s'\<close> within \<open>R\<close> and then, last, closing the payment session, with outcome \<open>c\<close>.\<close>

definition closes_from ::
  "('w session \<Rightarrow> 'w session \<Rightarrow> bool) \<Rightarrow> 'w sessionEnv \<Rightarrow> goerr option outcome \<Rightarrow> 'w session \<Rightarrow> 'w session \<Rightarrow> bool"
where
  "closes_from R env c s s' \<longleftrightarrow>
     (\<exists>t. R s t \<and> PS_Close (se_ps env) (world t) = (c, world s') \<and> calls s' = calls t @ [Called_Close c] \<and>
        idCounter s' = idCounter t)"

text \<open>How a run ends: within \<open>R\<close> if it goes on or panics before it closes the payment session, by closing it
  otherwise.\<close>

definition ends_in ::
  "('w session \<Rightarrow> 'w session \<Rightarrow> bool) \<Rightarrow> 'w sessionEnv \<Rightarrow> serve_result outcome \<Rightarrow> 'w session \<Rightarrow> 'w session \<Rightarrow> bool"
where
  "ends_in R env r s s' \<longleftrightarrow>
     R s s' \<and> (\<forall>e. r \<noteq> Ret (Returned e)) \<or>
     r \<noteq> Ret StillRunning \<and> (\<exists>c. closes_from R env c s s' \<and> (\<forall>e. r = Ret (Returned e) \<longrightarrow> (\<exists>x. c = Ret x)))"

text \<open>Emitting an event keeps a relation that looks only at the world and the calls, if the parts do.\<close>

lemma emit_keeps:
  assumes R: "step_relation R" and fields: "\<And>s s'. world s' = world s \<Longrightarrow> calls s' = calls s \<Longrightarrow> R s s'"
    and send: "\<And>ev. keeps R (invoke (Send (md_Bridge (se_cfg env)) ev) (Called_Send ev))"
    and now: "keeps R (quiet (Now (md_Clock (se_cfg env))))"
    and ids: "\<And>g. md_IDGen (se_cfg env) = Some g \<Longrightarrow> keeps R (quiet g)"
  shows "keeps R (emit env typ data)"
proof -
  have "keeps R (nextID env)"
  proof (cases "md_IDGen (se_cfg env)")
    case None
    then show ?thesis by (auto simp: nextID_def keeps_def split: prod.splits intro!: fields)
  next
    case (Some g)
    then show ?thesis by (simp add: nextID_def ids)
  qed
  then show ?thesis
    unfolding emit_def Let_def by (intro step_relation.keeps_andThen [OF R] step_relation.keeps_ret [OF R] now send)
qed

locale calm_relation = step_relation R
  for R :: "'w session \<Rightarrow> 'w session \<Rightarrow> bool" +
  fixes env :: "'w sessionEnv"
  assumes fields: "world s' = world s \<Longrightarrow> idCounter s' = idCounter s \<Longrightarrow> calls s' = calls s \<Longrightarrow> R s s'"
    and timers: "world s' = world s \<Longrightarrow> idCounter s' = idCounter s \<Longrightarrow> calls s' = calls s @ [call] \<Longrightarrow>
           call = Called_TickerStop \<or> call = Called_After d \<Longrightarrow> R s s'"
    and keeps_emit: "keeps R (emit env typ data)"
    and keeps_Bridge_Close: "keeps R (invoke (Bridge_Close (md_Bridge (se_cfg env))) Called_BridgeClose)"
    and keeps_OpenSession:
      "keeps R (invoke (Backend_OpenSession (md_Backend (se_cfg env)) req url) (Called_OpenSession url))"
    and keeps_Ticker: "keeps R (invoke (Ticker (md_Clock (se_cfg env)) d) (Called_Ticker d))"
    and keeps_RetryWait: "keeps R (quiet (RetryWait (se_ctx env) d))"
    and keeps_SelectWait: "keeps R (selectWait env i)"
    and keeps_Sufficient: "keeps R (invoke (Sufficient (se_ps env) u) (Called_Sufficient u))"
begin

lemma keeps_fields:
  "(\<And>s. world (f s) = world s \<and> idCounter (f s) = idCounter s \<and> calls (f s) = calls s) \<Longrightarrow> keeps R (modify f)"
  by (rule keeps_modify) (auto intro: fields)

lemma keeps_recordEnd: "keeps R (recordEnd reason)"
  unfolding recordEnd_def by (rule keeps_fields) simp

lemma keeps_emitEnded: "keeps R (emitEndedBest env)"
  unfolding emitEndedBest_def by (intro keeps_core) (auto intro: keeps_emit)

lemma keeps_psSufficient: "keeps R (psSufficient env)"
  unfolding psSufficient_def by (rule keeps_Sufficient)

lemma keeps_check: "keeps R (checkSufficientNoEmit env)"
  unfolding checkSufficientNoEmit_def by (intro keeps_core keeps_psSufficient)

lemma keeps_enter: "keeps R (enterLowBalance env b)"
  unfolding enterLowBalance_def
  by (intro keeps_andThen keeps_emit keeps_modify) (rule timers, simp, simp, simp, simp)

lemma keeps_exit: "keeps R (exitLowBalance env)"
  unfolding exitLowBalance_def by (intro keeps_andThen keeps_emit keeps_fields) simp

lemmas keeps_parts = keeps_core keeps_emit keeps_recordEnd keeps_psSufficient keeps_check keeps_enter keeps_exit

lemma keeps_tickSufficient: "keeps R (tickSufficient env b)"
  unfolding tickSufficient_def by (intro keeps_parts)

lemma keeps_calmStep: "i \<noteq> TickFired \<Longrightarrow> keeps R (loopStep env i)"
  unfolding loopStep_def by (cases i) (auto intro!: keeps_parts keeps_fields)

lemma keeps_stopTicker: "keeps R (stopTicker r)"
  by (auto simp: keeps_def stopTicker_def refl intro: timers)

text \<open>The way out keeps the relation until it closes the payment session, which it does if it completes.\<close>

lemma ends_in_trans: "R s t \<Longrightarrow> ends_in R env r t u \<Longrightarrow> ends_in R env r s u"
  unfolding ends_in_def closes_from_def by (meson trans)

lemma cleanup_ends:
  assumes "cleanup env err s = (r, s')"
  shows "ends_in R env r s s'"
proof -
  let ?head = "andThen (emitEndedBest env) (\<lambda>_. invoke (Bridge_Close (md_Bridge (se_cfg env))) Called_BridgeClose)"
  let ?close = "invoke (PS_Close (se_ps env)) Called_Close"
  have head: "keeps R ?head" by (intro keeps_core keeps_emitEnded keeps_Bridge_Close)
  have "cleanup env err = andThen ?head (\<lambda>_. andThen ?close (\<lambda>_. ret (Returned err)))"
    by (simp add: cleanup_def andThen_assoc)
  with assms consider p where "?head s = (Panic p, s')" "r = Panic p"
    | x t c where "?head s = (Ret x, t)" "?close t = (c, s')" "\<And>v. r = Ret v \<Longrightarrow> \<exists>e. c = Ret e" "r \<noteq> Ret StillRunning"
    by (auto simp: andThen_eq [of ?head] andThen_eq [of ?close])
  then show ?thesis
  proof cases
    case 1
    then show ?thesis using keepsD [OF head] by (auto simp: ends_in_def)
  next
    case (2 x t c)
    then have "closes_from R env c s s'"
      unfolding closes_from_def using keepsD [OF head 2(1)] by (intro exI [of _ t]) (auto simp: invoke_eq)
    with 2(3,4) show ?thesis by (auto simp: ends_in_def)
  qed
qed

lemma serveDefer_ends:
  assumes "serveDefer env r s = (r', s')"
  shows "ends_in R env r' s s'"
proof (cases r)
  case (Ret v)
  with assms cleanup_ends refl show ?thesis by (cases v) (auto simp: serveDefer_def ends_in_def)
next
  case (Panic p)
  define head where "head = andThen (recordEnd EndReasonFatalError) (\<lambda>_. emitErrorBest env ErrCodeFatal (''panic: '' @ p) False)"
  define err where "err = Some (ErrorText (''vtuber_session: panic: '' @ p))"
  have head: "keeps R head" unfolding head_def emitErrorBest_def by (intro keeps_parts)
  have "andThen head (\<lambda>_. cleanup env err) s = (r', s')"
    using assms Panic by (simp add: serveDefer_def andThen_assoc head_def err_def)
  then consider q where "head s = (Panic q, s')" "r' = Panic q" | x t where "head s = (Ret x, t)" "cleanup env err t = (r', s')"
    by (auto simp: andThen_eq)
  then show ?thesis
  proof cases
    case 1
    then show ?thesis using keepsD [OF head] by (auto simp: ends_in_def)
  next
    case (2 x t)
    from keepsD [OF head 2(1)] cleanup_ends [OF 2(2)] show ?thesis by (rule ends_in_trans)
  qed
qed

end

locale session_relation = calm_relation +
  assumes keeps_Debit: "keeps R (invoke (Debit (se_ps env) u q) (Called_Debit u q))"
begin

lemma keeps_debitAttempts: "keeps R (debitAttempts env units seq attempt)"
proof (induction "nat (md_DebitRetryBudget (se_cfg env) + 1 - attempt)" arbitrary: attempt rule: less_induct)
  case less
  show ?case
  proof (cases "attempt \<le> md_DebitRetryBudget (se_cfg env)")
    case True
    then have "keeps R (debitAttempts env units seq (attempt + 1))"
      by (intro less) simp
    then show ?thesis
      by (subst debitAttempts.simps) (intro keeps_parts keeps_Debit keeps_RetryWait keeps_fields; simp)
  next
    case False
    then show ?thesis by (subst debitAttempts.simps) (simp add: keeps_ret)
  qed
qed

lemma keeps_tick: "keeps R (tick env)"
  unfolding tick_def Let_def debitWithRetry_def
  by (intro keeps_parts keeps_debitAttempts keeps_tickSufficient keeps_fields) simp_all

lemma keeps_loopStep: "keeps R (loopStep env i)"
  by (cases "i = TickFired") (auto simp: loopStep_def intro!: keeps_parts keeps_tick keeps_calmStep [unfolded loopStep_def])

lemma keeps_loop: "keeps R (loop env is)"
  by (induction "is") (auto simp: loop.simps intro!: keeps_parts keeps_loopStep keeps_SelectWait)

lemma keeps_serveBody: "keeps R (serveBody env req url is)"
  unfolding serveBody_def runLoop_def emitErrorBest_def
  by (intro keeps_parts keeps_loop keeps_stopTicker keeps_OpenSession keeps_Ticker)

end

locale closing_relation = session_relation +
  assumes keeps_Close: "keeps R (invoke (PS_Close (se_ps env)) Called_Close)"
begin

lemma closed_related: "closes_from R env c s s' \<Longrightarrow> R s s'"
proof -
  assume "closes_from R env c s s'"
  then obtain t where t: "R s t" "PS_Close (se_ps env) (world t) = (c, world s')" "calls s' = calls t @ [Called_Close c]"
      "idCounter s' = idCounter t" by (auto simp: closes_from_def)
  let ?t = "t\<lparr>world := world s', calls := calls t @ [Called_Close c]\<rparr>"
  have "R t ?t" using t(2) by (intro keepsD [OF keeps_Close, of _ c]) (simp add: invoke_eq)
  moreover have "R ?t s'" using t(3,4) by (intro fields) simp_all
  ultimately show ?thesis using t(1) by (blast intro: trans)
qed

end

lemma Serve_until_close:
  assumes rel: "session_relation R (serve_env ctx m req ps)" and run: "Serve ctx m req (Some ps) inputs w = (r, s)"
    and url: "md_BackendURL m \<noteq> ''''"
  shows "ends_in R (serve_env ctx m req ps) r (new_session w) s"
proof -
  let ?env = "serve_env ctx m req ps"
  have calm: "calm_relation R ?env" using rel by (simp add: session_relation_def)
  obtain r1 s1 where body: "serveBody ?env req (backendURLForRequest req (md_BackendURL m)) inputs (new_session w) = (r1, s1)"
    by fastforce
  have "R (new_session w) s1" using keepsD [OF session_relation.keeps_serveBody [OF rel] body] .
  moreover have "serveDefer ?env r1 s1 = (r, s)" using run url body by (simp add: Serve_def Let_def deferred_def)
  then have "ends_in R ?env r s1 s" by (rule calm_relation.serveDefer_ends [OF calm])
  ultimately show ?thesis by (rule calm_relation.ends_in_trans [OF calm])
qed

lemma Serve_related:
  assumes rel: "closing_relation R (serve_env ctx m req ps)" and run: "Serve ctx m req (Some ps) inputs w = (r, s)"
  shows "R (new_session w) s"
proof (cases "md_BackendURL m = ''''")
  case True
  have "R (new_session w) (new_session w)"
    using rel by (simp add: closing_relation_def session_relation_def calm_relation_def step_relation.refl)
  with True run show ?thesis by (simp add: Serve_def)
next
  case False
  from Serve_until_close [OF closing_relation.axioms(1) [OF rel] run False] closing_relation.closed_related [OF rel]
  show ?thesis by (auto simp: ends_in_def)
qed

lemma Serve_closes:
  assumes "session_relation R (serve_env ctx m req ps)"
    and "Serve ctx m req (Some ps) inputs w = (Ret (Returned err), s)" and "md_BackendURL m \<noteq> ''''"
  obtains t c where "R (new_session w) t" and "PS_Close ps (world t) = (Ret c, world s)"
    and "calls s = calls t @ [Called_Close (Ret c)]"
  using Serve_until_close [OF assms] that by (auto simp: ends_in_def closes_from_def serve_env_def)

section \<open>What the others do\<close>

text \<open>Everything the session's collaborators do to the world, the payment session apart.\<close>

definition others_keep :: "('w \<Rightarrow> 'w \<Rightarrow> bool) \<Rightarrow> 'w Ctx \<Rightarrow> 'w Module \<Rightarrow> bool" where
  "others_keep Q ctx m \<longleftrightarrow>
     (\<forall>ev w. Q w (snd (Send (md_Bridge m) ev w))) \<and>
     (\<forall>w. Q w (snd (Bridge_Close (md_Bridge m) w))) \<and>
     (\<forall>req url w. Q w (snd (Backend_OpenSession (md_Backend m) req url w))) \<and>
     (\<forall>w. Q w (snd (Now (md_Clock m) w))) \<and>
     (\<forall>d w. Q w (snd (Ticker (md_Clock m) d w))) \<and>
     (\<forall>g w. md_IDGen m = Some g \<longrightarrow> Q w (snd (g w))) \<and>
     (\<forall>d w. Q w (snd (RetryWait ctx d w))) \<and>
     (\<forall>i w. Q w (SelectWait ctx i w))"

end
