(* ===== verification/Ledger_Path.thy ===== *)
theory Ledger_Path
  imports Streaming Session_Relation
begin

text \<open>
  A session's calls and the daemon's ledger side by side. \<open>ledger_path\<close> relates the ledger of one work id
  before and after a sequence of calls when every debit in it was either taken once, for the
  bound price, or left the ledger alone, and others have credited it or taken debits of their own in
  between. The locale \<open>charging\<close> states what the collaborators of a session must guarantee for
  that; it follows from the daemon client's contract \<open>payee_ledger\<close> through the payment session adapter. Closing
  the payment session is not part of a path: the daemon may forget the ledger then.
\<close>

section \<open>Ledger paths\<close>

text \<open>The ledger of one work id: what each debit left when it was taken, the balance, the price.\<close>

type_synonym ledger = "(u64 \<rightharpoonup> int) \<times> int \<times> int"

text \<open>
  The terms of a path: how an answer to a debit relates to the recorded balance, the amounts
  others may credit, and the debits others may take, as the units of each and their numbers.
\<close>

record path_terms =
  pt_answer :: "int \<Rightarrow> int \<Rightarrow> bool"
  pt_credits :: "int set"
  pt_units :: u64
  pt_others :: "u64 set"

text \<open>
  \<open>ledger_path T L cs k M\<close>: while the session made the calls \<open>cs\<close>, the ledger went from \<open>L\<close> to \<open>M\<close>.
  A debit call took the debit or left the ledger alone; a debit that was answered is recorded. In
  between others credited the work id, by \<open>k\<close> in total, and took debits.
\<close>

inductive ledger_path :: "path_terms \<Rightarrow> ledger \<Rightarrow> call list \<Rightarrow> int \<Rightarrow> ledger \<Rightarrow> bool" for T :: path_terms where
  lp_nil: "ledger_path T L [] 0 L"
| lp_same: "ledger_path T L cs k (C, b, p) \<Longrightarrow>
    (\<And>u q r. c = Called_Debit u q r \<Longrightarrow>
       \<exists>v. r = Ret v \<and> (\<forall>x. v = Inr x \<longrightarrow> (\<exists>b'. C q = Some b' \<and> pt_answer T x b'))) \<Longrightarrow>
    ledger_path T L (cs @ [c]) k (C, b, p)"
| lp_took: "ledger_path T L cs k (C, b, p) \<Longrightarrow> C q = None \<Longrightarrow> b' = b - p * sint u \<Longrightarrow>
    (\<And>x. v = Inr x \<Longrightarrow> pt_answer T x b') \<Longrightarrow>
    ledger_path T L (cs @ [Called_Debit u q (Ret v)]) k (C(q \<mapsto> b'), b', p)"
| lp_credit: "ledger_path T L cs k (C, b, p) \<Longrightarrow> j \<in> pt_credits T \<Longrightarrow> ledger_path T L cs (k + j) (C, b + j, p)"
| lp_other: "ledger_path T L cs k (C, b, p) \<Longrightarrow> q \<in> pt_others T \<Longrightarrow> C q = None \<Longrightarrow> b' = b - p * sint (pt_units T) \<Longrightarrow>
    ledger_path T L cs k (C(q \<mapsto> b'), b', p)"

lemma ledger_path_append:
  assumes "ledger_path T M ds k N" and "ledger_path T L cs j M"
  shows "ledger_path T L (cs @ ds) (j + k) N"
  using assms
proof (induction rule: ledger_path.induct)
  case (lp_same M ds k C b p c)
  then have "ledger_path T L ((cs @ ds) @ [c]) (j + k) (C, b, p)" by (intro ledger_path.lp_same) auto
  then show ?case by simp
next
  case (lp_took M ds k C b p q b' u v)
  then have "ledger_path T L ((cs @ ds) @ [Called_Debit u q (Ret v)]) (j + k) (C(q \<mapsto> b'), b', p)"
    by (intro ledger_path.lp_took) auto
  then show ?case by simp
next
  case (lp_credit M ds k C b p i)
  then have "ledger_path T L (cs @ ds) (j + k + i) (C, b + i, p)" by (intro ledger_path.lp_credit)
  then show ?case by (simp add: add.assoc)
next
  case (lp_other M ds k C b p q b')
  then show ?case by (intro ledger_path.lp_other)
qed simp

text \<open>What others do to the ledger while the session makes no call.\<close>

definition others_path :: "path_terms \<Rightarrow> ledger \<Rightarrow> ledger \<Rightarrow> bool" where
  "others_path T L M \<longleftrightarrow> (\<exists>k. ledger_path T L [] k M)"

definition not_debit :: "call \<Rightarrow> bool" where
  "not_debit c \<longleftrightarrow> (\<forall>u q r. c \<noteq> Called_Debit u q r)"

lemma ledger_path_quiet: "not_debit c \<Longrightarrow> ledger_path T L [c] 0 L"
  by (cases L) (use ledger_path.lp_same [OF lp_nil, of c] in \<open>auto simp: not_debit_def\<close>)

lemma ledger_path_others_quiet: "others_path T L M \<Longrightarrow> not_debit c \<Longrightarrow> \<exists>k. ledger_path T L [c] k M"
  using ledger_path_append [OF ledger_path_quiet [of c T M]] unfolding others_path_def by fastforce

lemma ledger_path_total_credit:
  assumes "ledger_path T L cs k M" and "0 \<in> pt_credits T"
    and "\<And>a b. a \<in> pt_credits T \<Longrightarrow> b \<in> pt_credits T \<Longrightarrow> a + b \<in> pt_credits T"
  shows "k \<in> pt_credits T"
  using assms(1) by (induction rule: ledger_path.induct) (auto intro: assms)

definition debit_seqs :: "call list \<Rightarrow> u64 set" where
  "debit_seqs cs = {q. \<exists>u r. Called_Debit u q r \<in> set cs}"

definition taken_seqs :: "call list \<Rightarrow> u64 set" where
  "taken_seqs cs = {q. \<exists>u b. Called_Debit u q (Ret (Inr b)) \<in> set cs}"

lemma debit_seqs_snoc: "debit_seqs (cs @ [Called_Debit u q r]) = insert q (debit_seqs cs)"
  by (auto simp: debit_seqs_def)

text \<open>Along a path whose debits are all for the same units, the balance falls by the price of these
  units for each debit that is new in the ledger, credits apart; and when all credits are
  positive, some new debit recorded at most what would be left if they had come first.\<close>

definition path_total :: "path_terms \<Rightarrow> u64 \<Rightarrow> ledger \<Rightarrow> u64 set \<Rightarrow> int \<Rightarrow> u64 set \<Rightarrow> ledger \<Rightarrow> bool" where
  "path_total T units L Q k D M \<longleftrightarrow>
     dom (fst M) = dom (fst L) \<union> D \<and> dom (fst L) \<inter> D = {} \<and> finite D \<and> D \<subseteq> Q \<union> pt_others T \<and>
     snd (snd M) = snd (snd L) \<and>
     fst (snd M) = fst (snd L) + k - snd (snd L) * sint units * int (card D) \<and>
     (pt_credits T \<subseteq> {0..} \<longrightarrow> D \<noteq> {} \<longrightarrow> (\<exists>q \<in> D. the (fst M q) \<le> fst (snd M)))"

lemma path_total_took:
  assumes "path_total T units L Q k D (C, b, p)" and "C q = None" and "q \<in> Q' \<union> pt_others T" and "Q \<subseteq> Q'"
  shows "path_total T units L Q' k (insert q D) (C(q \<mapsto> b - p * sint units), b - p * sint units, p)"
proof -
  let ?b' = "b - p * sint units"
  have D: "dom C = dom (fst L) \<union> D" "dom (fst L) \<inter> D = {}" "finite D" "D \<subseteq> Q \<union> pt_others T" "p = snd (snd L)"
      "b = fst (snd L) + k - p * sint units * int (card D)"
    using assms(1) by (auto simp: path_total_def)
  have new: "q \<notin> D" "q \<notin> dom (fst L)" using D(1) assms(2) by (auto simp del: domIff)
  have "dom (C(q \<mapsto> ?b')) = dom (fst L) \<union> insert q D" using D(1) by simp
  moreover have "dom (fst L) \<inter> insert q D = {}" using D(2) new by blast
  moreover have "insert q D \<subseteq> Q' \<union> pt_others T" using D(4) assms(3,4) by blast
  moreover have "?b' = fst (snd L) + k - p * sint units * int (card (insert q D))"
    using D(3,6) new(1) by (simp add: algebra_simps)
  ultimately show ?thesis using D(3,5) by (simp add: path_total_def)
qed

lemma ledger_path_total:
  assumes "ledger_path T L cs k M" and "\<forall>u q r. Called_Debit u q r \<in> set cs \<longrightarrow> u = units"
    and "pt_units T = units \<or> pt_others T = {}"
  shows "\<exists>D. path_total T units L (debit_seqs cs) k D M"
  using assms(1,2)
proof (induction rule: ledger_path.induct)
  case (lp_nil L)
  then show ?case by (intro exI [of _ "{}"]) (auto simp: path_total_def)
next
  case (lp_same L cs k C b p c)
  then have "\<forall>u q r. Called_Debit u q r \<in> set cs \<longrightarrow> u = units" by auto
  from lp_same.IH [OF this] obtain D where D: "path_total T units L (debit_seqs cs) k D (C, b, p)" by blast
  have "debit_seqs cs \<subseteq> debit_seqs (cs @ [c])" by (auto simp: debit_seqs_def)
  with D have "path_total T units L (debit_seqs (cs @ [c])) k D (C, b, p)" unfolding path_total_def by blast
  then show ?case by blast
next
  case (lp_took L cs k C b p q b' u v)
  have "u = units" using lp_took.prems by simp
  moreover have "\<forall>u q r. Called_Debit u q r \<in> set cs \<longrightarrow> u = units"
    using lp_took.prems unfolding set_append by blast
  ultimately obtain D where "path_total T units L (debit_seqs cs) k D (C, b, p)" using lp_took.IH by blast
  from path_total_took [OF this lp_took.hyps(2), of "debit_seqs (cs @ [Called_Debit u q (Ret v)])"]
  have "path_total T units L (debit_seqs (cs @ [Called_Debit u q (Ret v)])) k (insert q D) (C(q \<mapsto> b'), b', p)"
    unfolding lp_took.hyps(3) \<open>u = units\<close> debit_seqs_snoc by blast
  then show ?case by blast
next
  case (lp_credit L cs k C b p j)
  then obtain D where D: "path_total T units L (debit_seqs cs) k D (C, b, p)" by blast
  have "\<exists>q \<in> D. the (C q) \<le> b + j" if "pt_credits T \<subseteq> {0..}" "D \<noteq> {}"
    using D that lp_credit.hyps(2) unfolding path_total_def by force
  with D have "path_total T units L (debit_seqs cs) (k + j) D (C, b + j, p)" by (simp add: path_total_def)
  then show ?case by blast
next
  case (lp_other L cs k C b p q b')
  then have units: "pt_units T = units" using assms(3) by auto
  from lp_other obtain D where "path_total T units L (debit_seqs cs) k D (C, b, p)" by blast
  from path_total_took [OF this lp_other.hyps(3)] lp_other.hyps(2)
  have "path_total T units L (debit_seqs cs) k (insert q D) (C(q \<mapsto> b'), b', p)"
    unfolding lp_other.hyps(4) units by blast
  then show ?case by blast
qed

text \<open>What the session was answered is in the ledger.\<close>

lemma ledger_path_answers:
  assumes "ledger_path T L cs k M" and "Called_Debit u q d \<in> set cs"
  shows "\<exists>v. d = Ret v \<and> (\<forall>x. v = Inr x \<longrightarrow> (\<exists>b'. fst M q = Some b' \<and> pt_answer T x b'))"
  using assms
proof (induction rule: ledger_path.induct)
  case (lp_took L cs k C b p q' b' u' v')
  then show ?case by (cases "Called_Debit u q d \<in> set cs") fastforce+
next
  case (lp_other L cs k C b p q' b')
  then show ?case by fastforce
qed auto

lemma ledger_path_no_panic:
  "ledger_path T L cs k M \<Longrightarrow> \<forall>u q d. Called_Debit u q d \<in> set cs \<longrightarrow> \<not> panicked d"
  using ledger_path_answers by fastforce

lemma ledger_path_taken: "ledger_path T L cs k M \<Longrightarrow> taken_seqs cs \<subseteq> dom (fst M)"
  using ledger_path_answers by (fastforce simp: taken_seqs_def)

section \<open>Sessions whose collaborators respect the ledger\<close>

definition charge_rel :: "path_terms \<Rightarrow> ('w \<Rightarrow> ledger) \<Rightarrow> 'w session \<Rightarrow> 'w session \<Rightarrow> bool" where
  "charge_rel T led s s' \<longleftrightarrow>
     (\<exists>new k. calls s' = calls s @ new \<and> ledger_path T (led (world s)) new k (led (world s')))"

interpretation charge: step_relation "charge_rel T led" for T :: path_terms and led :: "'w \<Rightarrow> ledger"
proof
  fix s :: "'w session"
  show "charge_rel T led s s" by (auto simp: charge_rel_def intro: lp_nil)
next
  fix s t u :: "'w session"
  assume "charge_rel T led s t" and "charge_rel T led t u"
  then obtain new k new' k' where "calls t = calls s @ new" "calls u = calls t @ new'"
      "ledger_path T (led (world s)) new k (led (world t))" "ledger_path T (led (world t)) new' k' (led (world u))"
    unfolding charge_rel_def by blast
  then show "charge_rel T led s u"
    unfolding charge_rel_def by (intro exI [of _ "new @ new'"] exI [of _ "k + k'"]) (auto intro: ledger_path_append)
qed

locale charging =
  fixes T :: path_terms and led :: "'w \<Rightarrow> ledger" and env :: "'w sessionEnv"
  assumes others_led: "others_keep (\<lambda>w w'. others_path T (led w) (led w')) (se_ctx env) (se_cfg env)"
    and sufficient_led: "Sufficient (se_ps env) u w = (rs, w') \<Longrightarrow> led w' = led w"
    and debit_led: "Debit (se_ps env) u q w = (rd, w') \<Longrightarrow> ledger_path T (led w) [Called_Debit u q rd] 0 (led w')"
begin

lemma keeps_invoke_others:
  assumes "\<And>w. others_path T (led w) (led (snd (op w)))" and "\<And>x. not_debit (mk x)"
  shows "keeps (charge_rel T led) (invoke op mk)"
  unfolding keeps_def charge_rel_def invoke_eq
proof clarify
  fix s r w
  assume "op (world s) = (r, w)"
  with assms(1) [of "world s"] show "\<exists>new k. calls (s\<lparr>world := w, calls := calls s @ [mk r]\<rparr>) = calls s @ new \<and>
      ledger_path T (led (world s)) new k (led (world (s\<lparr>world := w, calls := calls s @ [mk r]\<rparr>)))"
    using ledger_path_others_quiet [OF _ assms(2)] by auto
qed

lemma keeps_invoke_path:
  assumes "\<And>w r w'. op w = (r, w') \<Longrightarrow> ledger_path T (led w) [mk r] 0 (led w')"
  shows "keeps (charge_rel T led) (invoke op mk)"
  using assms by (fastforce simp: keeps_def charge_rel_def invoke_eq)

lemma keeps_quiet_others:
  assumes "\<And>w. others_path T (led w) (led (snd (f w)))"
  shows "keeps (charge_rel T led) (quiet f)"
  unfolding keeps_def charge_rel_def quiet_eq
proof clarify
  fix s x w
  assume "f (world s) = (x, w)"
  with assms [of "world s"] show "\<exists>new k. calls (s\<lparr>world := w\<rparr>) = calls s @ new \<and>
      ledger_path T (led (world s)) new k (led (world (s\<lparr>world := w\<rparr>)))"
    by (auto simp: others_path_def)
qed

lemma charge_timers:
  assumes "world s' = world s" and "calls s' = calls s @ [c]" and "c = Called_TickerStop \<or> c = Called_After d"
  shows "charge_rel T led s s'"
  using assms ledger_path_quiet [of c T "led (world s)"] by (auto simp: charge_rel_def not_debit_def)

end

sublocale charging \<subseteq> charge_session: session_relation "charge_rel T led" env
proof
  note led = others_led [unfolded others_keep_def]
  fix s s' :: "'w session" and call d ev req url g i u q
  have fields: "charge_rel T led s s'" if "world s' = world s" "calls s' = calls s" for s s' :: "'w session"
    using that by (auto simp: charge_rel_def intro: lp_nil)
  then show "world s' = world s \<Longrightarrow> calls s' = calls s \<Longrightarrow> charge_rel T led s s'" .
  show "world s' = world s \<Longrightarrow> calls s' = calls s @ [call] \<Longrightarrow> call = Called_TickerStop \<or> call = Called_After d \<Longrightarrow>
      charge_rel T led s s'"
    by (rule charge_timers)
  show "keeps (charge_rel T led) (emit env et ed)" for et ed
    using led
    by (intro emit_keeps charge.step_relation_axioms fields)
       (auto intro!: keeps_invoke_others keeps_quiet_others simp: not_debit_def)
  show "keeps (charge_rel T led) (invoke (Bridge_Close (md_Bridge (se_cfg env))) Called_BridgeClose)"
    and "keeps (charge_rel T led)
      (invoke (Backend_OpenSession (md_Backend (se_cfg env)) req url) (Called_OpenSession url))"
    and "keeps (charge_rel T led) (invoke (Ticker (md_Clock (se_cfg env)) d) (Called_Ticker d))"
    using led by (auto intro!: keeps_invoke_others simp: not_debit_def)
  show "keeps (charge_rel T led) (quiet (RetryWait (se_ctx env) d))"
    and "keeps (charge_rel T led) (selectWait env i)"
    using led by (auto intro!: keeps_quiet_others simp: selectWait_def)
  show "keeps (charge_rel T led) (invoke (Sufficient (se_ps env) u) (Called_Sufficient u))"
    using sufficient_led by (auto intro!: keeps_invoke_path simp: ledger_path_quiet not_debit_def)
  show "keeps (charge_rel T led) (invoke (Debit (se_ps env) u q) (Called_Debit u q))"
    by (rule keeps_invoke_path) (rule debit_led)
qed

context charging
begin

lemmas charge_session_relation = charge_session.session_relation_axioms

end

text \<open>
  A run of \<open>Serve\<close> follows a path to a world \<open>w'\<close>. It ends there, unless it closed the payment session:
  then that is what it did last, in \<open>w'\<close>.
\<close>

definition closed_in :: "call list \<Rightarrow> bool" where
  "closed_in cs \<longleftrightarrow> (\<exists>c. Called_Close c \<in> set cs)"

definition unclosed :: "'w session \<Rightarrow> 'w session \<Rightarrow> bool" where
  "unclosed s s' \<longleftrightarrow> (\<exists>new. calls s' = calls s @ new \<and> \<not> closed_in new)"

lemma unclosed_invoke: "(\<And>x. \<not> closed_in [mk x]) \<Longrightarrow> keeps unclosed (invoke op mk)"
  by (auto simp: keeps_def unclosed_def invoke_eq)

lemma unclosed_quiet: "keeps unclosed (quiet f)"
  by (auto simp: keeps_def unclosed_def quiet_eq closed_in_def)

interpretation unclosed: session_relation unclosed env for env :: "'w sessionEnv"
proof
  have trans: "unclosed s u" if st: "unclosed s t" "unclosed t u" for s t u :: "'w session"
  proof -
    from st obtain new new' where "calls u = calls s @ new @ new'" "\<not> closed_in new" "\<not> closed_in new'"
      by (auto simp: unclosed_def)
    then show ?thesis unfolding unclosed_def by (intro exI [of _ "new @ new'"]) (auto simp: closed_in_def)
  qed
  then show "unclosed s t \<Longrightarrow> unclosed t u \<Longrightarrow> unclosed s u" for s t u :: "'w session" .
  fix et ed
  show "keeps unclosed (emit env et ed)"
    by (rule emit_keeps)
       (unfold_locales, auto simp: unclosed_def closed_in_def intro: trans intro!: unclosed_quiet unclosed_invoke)
qed (auto simp: selectWait_def closed_in_def unclosed_def intro!: unclosed_quiet unclosed_invoke)

lemma keeps_both: "keeps R p \<Longrightarrow> keeps Q p \<Longrightarrow> keeps (\<lambda>s s'. R s s' \<and> Q s s') p"
  by (simp add: keeps_def)

lemma session_relation_both:
  assumes R: "session_relation R env" and Q: "session_relation Q env"
  shows "session_relation (\<lambda>s s'. R s s' \<and> Q s s') env"
proof -
  have calm: "calm_relation R env" "calm_relation Q env" using R Q by (simp_all add: session_relation_def)
  then have step: "step_relation R" "step_relation Q" by (simp_all add: calm_relation_def)
  show ?thesis
    by (unfold_locales; (intro conjI keeps_both)?)
       (blast intro: step [THEN step_relation.refl] step [THEN step_relation.trans]
          calm [THEN calm_relation.fields] calm [THEN calm_relation.timers] calm [THEN calm_relation.keeps_emit]
          calm [THEN calm_relation.keeps_Bridge_Close] calm [THEN calm_relation.keeps_OpenSession]
          calm [THEN calm_relation.keeps_Ticker] calm [THEN calm_relation.keeps_RetryWait]
          calm [THEN calm_relation.keeps_SelectWait] calm [THEN calm_relation.keeps_Sufficient]
          session_relation.keeps_Debit [OF R] session_relation.keeps_Debit [OF Q])+
qed

definition closed_last :: "'w PaymentSession \<Rightarrow> call list \<Rightarrow> 'w \<Rightarrow> 'w \<Rightarrow> bool" where
  "closed_last ps cs w' w'' \<longleftrightarrow>
     (if closed_in cs then (\<exists>c. last cs = Called_Close c \<and> PS_Close ps w' = (c, w'')) else w'' = w')"

lemma Serve_path:
  assumes ch: "charging T led (serve_env ctx m req ps)" and run: "Serve ctx m req (Some ps) inputs w = (r, s)"
  obtains w' k where "ledger_path T (led w) (calls s) k (led w')" "closed_last ps (calls s) w' (world s)"
    "r = Ret StillRunning \<Longrightarrow> w' = world s"
proof (cases "md_BackendURL m = ''''")
  case True
  with run that [where w' = w and k = 0] lp_nil [of T "led w"] show thesis
    by (auto simp: Serve_def new_session_def closed_last_def closed_in_def)
next
  case False
  let ?env = "serve_env ctx m req ps" and ?R = "\<lambda>s s'. charge_rel T led s s' \<and> unclosed s s'"
  have "session_relation ?R ?env"
    using charging.charge_session_relation [OF ch] unclosed.session_relation_axioms by (rule session_relation_both)
  from Serve_until_close [OF this run False]
  consider "charge_rel T led (new_session w) s" "unclosed (new_session w) s"
    | c where "r \<noteq> Ret StillRunning" "closes_from ?R ?env c (new_session w) s"
    by (auto simp: ends_in_def)
  then show thesis
  proof cases
    case 1
    with that [where w' = "world s"] show thesis
      by (auto simp: charge_rel_def unclosed_def new_session_def closed_last_def)
  next
    case (2 c)
    then obtain t where t: "charge_rel T led (new_session w) t" "PS_Close ps (world t) = (c, world s)"
        "calls s = calls t @ [Called_Close c]" by (auto simp: closes_from_def serve_env_def)
    then obtain k where "ledger_path T (led w) (calls t) k (led (world t))" by (auto simp: charge_rel_def new_session_def)
    from ledger_path_append [OF ledger_path_quiet this, of "Called_Close c"]
    have "ledger_path T (led w) (calls s) k (led (world t))" by (simp add: t(3) not_debit_def)
    moreover have "closed_in (calls s)" "last (calls s) = Called_Close c" by (auto simp: t(3) closed_in_def)
    then have "closed_last ps (calls s) (world t) (world s)" using t(2) by (simp add: closed_last_def)
    ultimately show thesis using 2(1) that [where w' = "world t" and k = k] by blast
  qed
qed

section \<open>From the client's contract to the session's ledger\<close>

definition session_ledger ::
  "('d \<Rightarrow> string \<Rightarrow> int) \<Rightarrow> ('d \<Rightarrow> string \<Rightarrow> u64 \<rightharpoonup> int) \<Rightarrow> ('d \<Rightarrow> string \<Rightarrow> int) \<Rightarrow> string \<Rightarrow>
   ('d, 'r) stream_world \<Rightarrow> ledger"
where
  "session_ledger balance charged price workID w =
     (let d = sv_payee (st_server w) in (charged d workID, balance d workID, price d workID))"

lemma on_payee_eq:
  "on_payee f w = (x, w') \<longleftrightarrow>
     (\<exists>d. f (sv_payee (st_server w)) = (x, d) \<and> w' = w\<lparr>st_server := st_server w\<lparr>sv_payee := d\<rparr>\<rparr>)"
  by (auto simp: on_payee_def split: prod.splits)

lemma adapter_Debit_path:
  assumes c: "payee_ledger c sender balance charged price"
    and answers: "\<And>u q d b d' v. DebitBalance c sender workID u q d = (Inr b, d') \<Longrightarrow> charged d' workID q = Some v \<Longrightarrow>
       pt_answer T (wei64 b) v"
    and "adapter_Debit c sender workID u q w = (r, w')"
  shows "ledger_path T (session_ledger balance charged price workID w) [Called_Debit u q r] 0
           (session_ledger balance charged price workID w')"
proof -
  let ?d = "sv_payee (st_server w)"
  obtain res d where db: "DebitBalance c sender workID (sint u) q ?d = (res, d)" by fastforce
  have w': "w' = w\<lparr>st_server := st_server w\<lparr>sv_payee := d\<rparr>\<rparr>"
    and r: "r = Ret (case res of Inl e \<Rightarrow> Inl e | Inr b \<Rightarrow> Inr (wei64 b))"
    using assms(3) db by (auto simp: adapter_Debit_def on_payee_def split: sum.splits)
  let ?C = "charged ?d workID" and ?b = "balance ?d workID" and ?p = "price ?d workID"
  have answer: "\<exists>b'. charged d workID q = Some b' \<and> pt_answer T (wei64 b) b'" if "res = Inr b" for b
    using payee_ledger.debit_recorded [OF c db [unfolded that]] answers [OF db [unfolded that]] by auto
  have w: "session_ledger balance charged price workID w = (?C, ?b, ?p)"
    by (simp add: session_ledger_def Let_def)
  show ?thesis
  proof (cases "ledger_same balance charged price ?d d")
    case True
    then have "ledger_path T (?C, ?b, ?p) ([] @ [Called_Debit u q r]) 0 (?C, ?b, ?p)"
      using answer by (intro lp_same lp_nil) (auto simp: r ledger_same_def split: sum.splits)
    with True show ?thesis by (simp add: session_ledger_def w' ledger_same_def Let_def)
  next
    case False
    with payee_ledger.debit_cases [OF c db] have took: "ledger_took balance charged price workID q (sint u) ?d d"
      by blast
    let ?b' = "?b - ?p * sint u"
    have "ledger_path T (?C, ?b, ?p) ([] @ [Called_Debit u q r]) 0 (?C(q \<mapsto> ?b'), ?b', ?p)"
      using took answer unfolding r
      by (intro ledger_path.lp_took [OF lp_nil]) (auto simp: ledger_took_def split: sum.splits)
    moreover have "session_ledger balance charged price workID w' = (?C(q \<mapsto> ?b'), ?b', ?p)"
      using took by (auto simp: session_ledger_def w' Let_def ledger_took_def)
    ultimately show ?thesis by (simp add: w)
  qed
qed

lemma adapter_charging:
  assumes c: "payee_ledger c sender balance charged price"
    and answers: "\<And>u q d b d' v. DebitBalance c sender workID u q d = (Inr b, d') \<Longrightarrow> charged d' workID q = Some v \<Longrightarrow>
       pt_answer T (wei64 b) v"
    and q: "others_keep (\<lambda>w w'. others_path T (session_ledger balance charged price workID w)
       (session_ledger balance charged price workID w')) ctx m"
  shows "charging T (session_ledger balance charged price workID)
           (serve_env ctx m req (newPaymentSessionAdapter c sender workID onClose))"
proof
  let ?led = "session_ledger balance charged price workID"
  let ?env = "serve_env ctx m req (newPaymentSessionAdapter c sender workID onClose)"
  show "others_keep (\<lambda>w w'. others_path T (?led w) (?led w')) (se_ctx ?env) (se_cfg ?env)"
    using q by (simp add: serve_env_def)
  show "Sufficient (se_ps ?env) u w = (rs, w') \<Longrightarrow> ?led w' = ?led w" for u w rs w'
    using payee_ledger.sufficient_frame [OF c]
    by (auto simp: serve_env_def newPaymentSessionAdapter_def adapter_Sufficient_def on_payee_def session_ledger_def
        Let_def ledger_same_def split: prod.splits sum.splits)
  show "Debit (se_ps ?env) u q w = (rd, w') \<Longrightarrow> ledger_path T (?led w) [Called_Debit u q rd] 0 (?led w')" for u q w rd w'
    by (simp add: serve_env_def newPaymentSessionAdapter_def adapter_Debit_path [OF c answers])
qed

text \<open>
  The daemon's state when a session was over: the last state, or, when the session closed its
  payment session, the state that \<open>CloseSession\<close> found. An adapter that was closed before does not call it.
\<close>

definition at_close :: "'d Client \<Rightarrow> bytes \<Rightarrow> string \<Rightarrow> call list \<Rightarrow> 'd \<Rightarrow> 'd \<Rightarrow> bool" where
  "at_close c sender workID cs d d' \<longleftrightarrow>
     d' = d \<or> closed_in cs \<and> (\<exists>e. CloseSession c sender workID d = (e, d'))"

lemma closed_last_at_close:
  fixes w' :: "('d, 'r) stream_world"
  assumes "closed_last (newPaymentSessionAdapter c sender workID onClose) cs w' w''"
  shows "at_close c sender workID cs (sv_payee (st_server w')) (sv_payee (st_server w''))"
  using assms
  by (auto simp: closed_last_def at_close_def newPaymentSessionAdapter_def adapter_Close_def on_payee_def
      split: if_split_asm prod.split_asm)

end
