(* ===== verification/Charging.thy ===== *)
theory Charging
  imports Ledger_Path
begin

text \<open>
  What a whole streaming session costs its payer, from the paths of theory \<open>Ledger_Path\<close> and the session
  protocol: lost answers, retries and top-ups included, every debit is charged once, and a session
  that goes on has been charged for every tick. Nothing is assumed of what closing the payment
  session does to the ledger; the theorems speak of the ledger as the closing finds it.
\<close>

section \<open>Collaborators that only credit\<close>

definition credited :: "int set \<Rightarrow> ledger \<Rightarrow> ledger \<Rightarrow> bool" where
  "credited K L M \<longleftrightarrow> (\<exists>j \<in> K. M = (fst L, fst (snd L) + j, snd (snd L)))"

text \<open>The collaborators other than the payment session, and the rest of the worker while the session
  waits, do nothing to the ledger of the work id but credit it with amounts from \<open>K\<close>.\<close>

definition credits_ledger :: "int set \<Rightarrow> ('w \<Rightarrow> ledger) \<Rightarrow> 'w Ctx \<Rightarrow> 'w Module \<Rightarrow> bool" where
  "credits_ledger K led ctx m \<longleftrightarrow> others_keep (\<lambda>w w'. credited K (led w) (led w')) ctx m"

text \<open>Answers with the sign of the recorded balance.\<close>

definition same_sign :: "int \<Rightarrow> int \<Rightarrow> bool" where
  "same_sign x b \<longleftrightarrow> (x < 0 \<longleftrightarrow> b < 0)"

abbreviation own_terms :: "(int \<Rightarrow> int \<Rightarrow> bool) \<Rightarrow> int set \<Rightarrow> path_terms" where
  "own_terms A K \<equiv> \<lparr>pt_answer = A, pt_credits = K, pt_units = 0, pt_others = {}\<rparr>"

lemma credited_path: "credited (pt_credits T) L M \<Longrightarrow> others_path T L M"
proof -
  assume "credited (pt_credits T) L M"
  then obtain j where "j \<in> pt_credits T" "M = (fst L, fst (snd L) + j, snd (snd L))" by (auto simp: credited_def)
  moreover have "ledger_path T L [] 0 (fst L, fst (snd L), snd (snd L))" by (simp add: lp_nil)
  ultimately show ?thesis unfolding others_path_def by (metis ledger_path.lp_credit)
qed

lemma credits_path:
  "credits_ledger (pt_credits T) led ctx m \<Longrightarrow> others_keep (\<lambda>w w'. others_path T (led w) (led w')) ctx m"
  unfolding credits_ledger_def others_keep_def by (simp add: credited_path)

lemma ledger_charging:
  assumes "payee_ledger c sender balance charged price"
    and "credits_ledger K (session_ledger balance charged price workID) ctx m"
  shows "charging (own_terms (\<lambda>x b. True) K) (session_ledger balance charged price workID)
           (serve_env ctx m req (newPaymentSessionAdapter c sender workID onClose))"
  by (rule adapter_charging [OF assms(1)]) (use assms(2) in \<open>auto intro: credits_path\<close>)

lemma answers_charging:
  assumes c: "payee_answers c sender balance charged price"
    and "credits_ledger K (session_ledger balance charged price workID) ctx m"
  shows "charging (own_terms same_sign K) (session_ledger balance charged price workID)
           (serve_env ctx m req (newPaymentSessionAdapter c sender workID onClose))"
proof (rule adapter_charging)
  show "payee_ledger c sender balance charged price"
    using c by (simp add: payee_answers_def payee_sufficiency_def)
  show "pt_answer (own_terms same_sign K) (wei64 b) v"
    if "DebitBalance c sender workID u q d = (Inr b, d')" "charged d' workID q = Some v" for u q d b d' v
    using payee_answers.debit_answer [OF c that(1)] that(2) by (auto simp: same_sign_def wei64_clamps)
qed (use assms(2) in \<open>auto intro: credits_path\<close>)

section \<open>Counting the debits of a session\<close>

lemma count_Cons [simp]: "count P (c # cs) = of_bool (P c) + count P cs"
  by (simp add: count_def)

lemma count_append [simp]: "count P (xs @ ys) = count P xs + count P ys"
  by (simp add: count_def)

lemma count_nth:
  "i < count P cs \<Longrightarrow> \<exists>pre c post. cs = pre @ c # post \<and> P c \<and> count P pre = i"
proof (induction cs rule: rev_induct)
  case (snoc c cs)
  show ?case
  proof (cases "i < count P cs")
    case True
    with snoc.IH obtain pre c' post where "cs = pre @ c' # post \<and> P c' \<and> count P pre = i" by blast
    then have "cs @ [c] = pre @ c' # (post @ [c]) \<and> P c' \<and> count P pre = i" by simp
    then show ?thesis by blast
  next
    case False
    with snoc.prems have "P c \<and> count P cs = i" by (cases "P c") auto
    then show ?thesis by blast
  qed
qed simp

lemma failed_since_pos:
  assumes "is_failed c" and "count is_taken post = 0"
  shows "0 < failed_since (pre @ c # post)"
  using assms(2)
proof (induction post rule: rev_induct)
  case Nil
  have "\<not> is_taken c" using assms(1) by (cases c rule: is_failed.cases) auto
  then show ?case using assms(1) failed_since_snoc [of pre c] by simp
next
  case (snoc d post)
  then show ?case using failed_since_snoc [of "pre @ c # post" d] by (auto split: if_splits)
qed

lemma is_taken_iff: "is_taken c \<longleftrightarrow> (\<exists>u q b. c = Called_Debit u q (Ret (Inr b)))"
  by (cases c rule: is_taken.cases) auto

lemma card_seqs: "n < 2 ^ 64 \<Longrightarrow> card ((\<lambda>i. of_nat i + 1 :: u64) ` {0..<n}) = n"
proof -
  assume n: "n < 2 ^ 64"
  have "inj_on (\<lambda>i. of_nat i + 1 :: u64) {0..<n}"
    using n by (intro inj_onI) (metis add_right_cancel atLeastLessThan_iff less_trans unat_of_nat64)
  then show ?thesis by (simp add: card_image)
qed

text \<open>The sequence numbers a session has used, in terms of the number \<open>n\<close> of debits taken.\<close>

lemma Serve_debit_seqs:
  assumes "Serve ctx m req (Some ps) inputs w = (r, s)"
  shows "debit_seqs (calls s) \<subseteq> (\<lambda>i. of_nat i + 1) ` {0..<count is_taken (calls s) + 1}"
    and "(\<lambda>i. of_nat i + 1) ` {0..<count is_taken (calls s)} \<subseteq> taken_seqs (calls s)"
    and "(\<forall>u q d. Called_Debit u q d \<in> set (calls s) \<longrightarrow> \<not> panicked d) \<Longrightarrow> failed_since (calls s) = 0 \<Longrightarrow>
         debit_seqs (calls s) \<subseteq> (\<lambda>i. of_nat i + 1) ` {0..<count is_taken (calls s)}"
proof -
  have at: "seq = of_nat (count is_taken pre) + 1"
    if "calls s = pre @ Called_Debit u seq d # post" for pre u seq d post
    using serve_debit_at [OF assms that] by simp
  have in_seqs: "\<exists>pre u d post. calls s = pre @ Called_Debit u q d # post" if "q \<in> debit_seqs (calls s)" for q
    using that by (auto simp: debit_seqs_def dest!: split_list)
  show "debit_seqs (calls s) \<subseteq> (\<lambda>i. of_nat i + 1) ` {0..<count is_taken (calls s) + 1}"
  proof
    fix q
    assume "q \<in> debit_seqs (calls s)"
    then obtain pre u d post where cs: "calls s = pre @ Called_Debit u q d # post" using in_seqs by blast
    then have "count is_taken pre < count is_taken (calls s) + 1" by simp
    with at [OF cs] show "q \<in> (\<lambda>i. of_nat i + 1) ` {0..<count is_taken (calls s) + 1}" by auto
  qed
  show "(\<lambda>i. of_nat i + 1) ` {0..<count is_taken (calls s)} \<subseteq> taken_seqs (calls s)"
  proof clarify
    fix i
    assume "i \<in> {0..<count is_taken (calls s)}"
    then obtain pre c post where cs: "calls s = pre @ c # post" "is_taken c" "count is_taken pre = i"
      using count_nth [of i is_taken "calls s"] by auto
    then obtain u q b where "c = Called_Debit u q (Ret (Inr b))" by (auto simp: is_taken_iff)
    with cs have "Called_Debit u q (Ret (Inr b)) \<in> set (calls s)" and "q = of_nat i + 1"
      using at [of pre u q "Ret (Inr b)" post] by auto
    then show "of_nat i + 1 \<in> taken_seqs (calls s)" unfolding taken_seqs_def by blast
  qed
  show "debit_seqs (calls s) \<subseteq> (\<lambda>i. of_nat i + 1) ` {0..<count is_taken (calls s)}"
    if np: "\<forall>u q d. Called_Debit u q d \<in> set (calls s) \<longrightarrow> \<not> panicked d" and fs: "failed_since (calls s) = 0"
  proof
    fix q
    assume "q \<in> debit_seqs (calls s)"
    then obtain pre u d post where cs: "calls s = pre @ Called_Debit u q d # post" using in_seqs by blast
    have "count is_taken pre < count is_taken (calls s)"
    proof (rule ccontr)
      assume "\<not> ?thesis"
      with cs have "\<not> is_taken (Called_Debit u q d)" and post: "count is_taken post = 0" by auto
      moreover have "\<not> panicked d" using np cs by simp
      ultimately have "is_failed (Called_Debit u q d)"
        by (cases "Called_Debit u q d" rule: is_failed.cases) (auto elim: panicked.elims)
      from failed_since_pos [OF this post, of pre] fs cs show False by simp
    qed
    with at [OF cs] show "q \<in> (\<lambda>i. of_nat i + 1) ` {0..<count is_taken (calls s)}" by auto
  qed
qed

abbreviation first_seqs :: "nat \<Rightarrow> u64 set" where
  "first_seqs n \<equiv> (\<lambda>i. of_nat i + 1) ` {0..<n}"

text \<open>How the debits a session has counted and the debits the ledger has taken correspond, up to the
  world \<open>w'\<close> in which the session ended or closed its payment session: the first \<open>n\<close> numbers are those it saw
  succeed, \<open>e\<close> is one when the last attempts failed.\<close>

lemma session_total:
  fixes w :: "('d, 'r) stream_world"
  assumes ch: "charging T (session_ledger balance charged price workID)
      (serve_env ctx m req (newPaymentSessionAdapter c sender workID onClose))"
    and terms: "pt_units T = tick_units m \<or> pt_others T = {}"
    and run: "Serve ctx m req (Some (newPaymentSessionAdapter c sender workID onClose)) inputs w = (r, s)"
    and fresh: "\<forall>q. charged (sv_payee (st_server w)) workID q = None"
    and ne: "n = count is_taken (calls s)" "e = of_bool (failed_since (calls s) \<noteq> 0)"
  obtains d k D where
    "at_close c sender workID (calls s) d (sv_payee (st_server (world s)))"
    "r = Ret StillRunning \<Longrightarrow> d = sv_payee (st_server (world s))"
    "ledger_path T (session_ledger balance charged price workID w) (calls s) k
       (charged d workID, balance d workID, price d workID)"
    "balance d workID = balance (sv_payee (st_server w)) workID + k
       - price (sv_payee (st_server w)) workID * sint (tick_units m) * int (card D)"
    "price d workID = price (sv_payee (st_server w)) workID"
    "finite D" "first_seqs n \<subseteq> D" "D \<subseteq> first_seqs (n + e) \<union> pt_others T"
    "pt_credits T \<subseteq> {0..} \<Longrightarrow> D \<noteq> {} \<Longrightarrow> \<exists>q \<in> D. the (charged d workID q) \<le> balance d workID"
proof (rule Serve_path [OF ch run])
  let ?led = "session_ledger balance charged price workID :: ('d, 'r) stream_world \<Rightarrow> ledger"
  fix w' k
  assume path: "ledger_path T (?led w) (calls s) k (?led w')"
    and last: "closed_last (newPaymentSessionAdapter c sender workID onClose) (calls s) w' (world s)"
    and running: "r = Ret StillRunning \<Longrightarrow> w' = world s"
  let ?d = "sv_payee (st_server w')"
  have led': "?led w' = (charged ?d workID, balance ?d workID, price ?d workID)" by (simp add: session_ledger_def Let_def)
  have units: "\<forall>u q d. Called_Debit u q d \<in> set (calls s) \<longrightarrow> u = tick_units m"
    using serve_debit_at [OF run] by (metis split_list)
  obtain D where D: "path_total T (tick_units m) (?led w) (debit_seqs (calls s)) k D (?led w')"
    using ledger_path_total [OF path units terms] by blast
  have "dom (fst (?led w)) = {}" using fresh by (auto simp: session_ledger_def Let_def)
  with D have dom: "dom (charged ?d workID) = D" by (simp add: path_total_def led')
  have low: "first_seqs n \<subseteq> D"
    using ledger_path_taken [OF path] Serve_debit_seqs(2) [OF run] dom unfolding ne led' by auto
  have "debit_seqs (calls s) \<subseteq> first_seqs (n + e)"
    using Serve_debit_seqs(1) [OF run] Serve_debit_seqs(3) [OF run ledger_path_no_panic [OF path]]
    unfolding ne by (cases "failed_since (calls s) = 0") simp_all
  with D have high: "D \<subseteq> first_seqs (n + e) \<union> pt_others T" by (auto simp: path_total_def)
  show thesis
    by (rule that [OF closed_last_at_close [OF last] _ path [unfolded led'] _ _ _ low high])
       (use D running in \<open>auto simp: path_total_def led' session_ledger_def Let_def\<close>)
qed

lemma card_between:
  assumes "first_seqs n \<subseteq> D" and "D \<subseteq> first_seqs k" and "finite D" and "k < 2 ^ 64" and "n \<le> k"
  shows "n \<le> card D" and "card D \<le> k"
  using card_mono [OF assms(3,1)] card_mono [of "first_seqs k" D] assms(2,4,5) card_seqs [of n] card_seqs [of k] by auto

section \<open>Sessions that go on\<close>

text \<open>A session that is still running has made one successful debit per tick, none of which
  left the work id overdrawn.\<close>

definition no_debits :: "'w session \<Rightarrow> 'w session \<Rightarrow> bool" where
  "no_debits s s' \<longleftrightarrow> (\<exists>new. calls s' = calls s @ new \<and> list_all not_debit new)"

lemma no_debits_invoke: "(\<And>x. not_debit (mk x)) \<Longrightarrow> keeps no_debits (invoke op mk)"
  by (auto simp: keeps_def no_debits_def invoke_eq)

lemma no_debits_quiet: "keeps no_debits (quiet f)"
  by (auto simp: keeps_def no_debits_def quiet_eq)

interpretation calm: calm_relation no_debits env for env :: "'w sessionEnv"
proof
  show "no_debits s t \<Longrightarrow> no_debits t u \<Longrightarrow> no_debits s u" for s t u :: "'w session"
    by (auto simp: no_debits_def)
  fix et ed
  show "keeps no_debits (emit env et ed)"
    by (rule emit_keeps)
       (unfold_locales, auto simp: no_debits_def not_debit_def intro!: no_debits_quiet no_debits_invoke)
qed (auto simp: selectWait_def not_debit_def no_debits_def intro!: no_debits_quiet no_debits_invoke)

definition paid_ticks :: "nat \<Rightarrow> 'w session \<Rightarrow> 'w session \<Rightarrow> bool" where
  "paid_ticks n s s' \<longleftrightarrow>
     (\<exists>new. calls s' = calls s @ new \<and> count is_taken new = n \<and>
        (\<forall>u q b. Called_Debit u q (Ret (Inr b)) \<in> set new \<longrightarrow> 0 \<le> b))"

lemma not_debit_not_taken: "list_all not_debit new \<Longrightarrow> count is_taken new = 0"
  by (induction new) (auto simp: count_def not_debit_def is_taken_iff)

lemma no_debits_paid: "no_debits s s' \<Longrightarrow> paid_ticks 0 s s'"
  by (fastforce simp: no_debits_def paid_ticks_def not_debit_not_taken list_all_iff not_debit_def)

lemma paid_ticks_trans: "paid_ticks j s t \<Longrightarrow> paid_ticks k t u \<Longrightarrow> paid_ticks (j + k) s u"
  by (fastforce simp: paid_ticks_def)

lemma debit_failed_paid: "calls s' = calls s @ [Called_Debit u q (Ret (Inl e))] \<Longrightarrow> paid_ticks 0 s s'"
  by (auto simp: paid_ticks_def)

lemma keeps_paid: "keeps no_debits p \<Longrightarrow> p s = (r, s') \<Longrightarrow> paid_ticks 0 s s'"
  by (auto dest: keepsD intro: no_debits_paid)

text \<open>One round of the retry loop that ends in success: this attempt succeeded, or it failed and a
  later one succeeded, with no other debit in between.\<close>

lemma debitAttempts_round:
  assumes "debitAttempts env u q attempt s = (Ret (Inr b), s')"
  obtains (taken) "calls s' = calls s @ [Called_Debit u q (Ret (Inr b))]"
  | (retried) t where "attempt \<le> md_DebitRetryBudget (se_cfg env)"
      "paid_ticks 0 s t" "debitAttempts env u q (attempt + 1) t = (Ret (Inr b), s')"
proof -
  let ?m = md_DebitRetryBudget
  have att: "attempt \<le> ?m (se_cfg env)"
    using assms by (subst (asm) debitAttempts.simps) (auto split: if_split_asm)
  obtain d w where op: "Debit (se_ps env) u q (world s) = (d, w)" by fastforce
  let ?s = "s\<lparr>world := w, calls := calls s @ [Called_Debit u q d]\<rparr>"
  note eq = assms [unfolded debitAttempts.simps [of env u q attempt] andThen_eq invoke_eq]
  consider (panic) p where "d = Panic p" | (ok) b' where "d = Ret (Inr b')" | (fail) e where "d = Ret (Inl e)"
    by (metis outcome.exhaust sum.exhaust)
  then show thesis
  proof cases
    case panic
    with eq op att show thesis by (auto simp: andThen_eq invoke_eq)
  next
    case ok
    with eq op att show thesis by (auto simp: andThen_eq invoke_eq intro: taken)
  next
    case (fail e)
    let ?emit = "if attempt = 1 then emit env EventSessionError (ErrorData ErrCodePaymentUnreachable (error_text e) True)
                 else ret ()"
    let ?wait = "if attempt < ?m (se_cfg env) then quiet (RetryWait (se_ctx env) (md_DebitRetryInterval (se_cfg env)))
                 else ret None"
    let ?s1 = "?s\<lparr>consecutiveDebitFailures := consecutiveDebitFailures s + 1\<rparr>"
    from eq op att fail obtain t1 t2 where "?emit ?s1 = (Ret (), t1)" "?wait t1 = (Ret None, t2)"
        and rest: "debitAttempts env u q (attempt + 1) t2 = (Ret (Inr b), s')"
      by (auto simp: andThen_eq invoke_eq split: option.split_asm)
    moreover have "keeps no_debits ?emit" "keeps no_debits ?wait"
      by (auto intro!: calm.keeps_core calm.keeps_emit no_debits_quiet)
    ultimately have "paid_ticks 0 ?s1 t1" "paid_ticks 0 t1 t2" by (auto dest: keeps_paid)
    moreover have "paid_ticks 0 s ?s1" using fail by (intro debit_failed_paid) simp
    ultimately have "paid_ticks (0 + 0 + 0) s t2" by (intro paid_ticks_trans)
    with att rest retried show thesis by simp
  qed
qed

lemma debitAttempts_paid:
  assumes "debitAttempts env u q attempt s = (Ret (Inr b), s')" and "0 \<le> b"
  shows "paid_ticks 1 s s'"
  using assms
proof (induction "nat (md_DebitRetryBudget (se_cfg env) + 1 - attempt)" arbitrary: attempt s rule: less_induct)
  case less
  from less.prems(1) show ?case
  proof (cases rule: debitAttempts_round)
    case taken
    with less.prems(2) show ?thesis by (auto simp: paid_ticks_def)
  next
    case (retried t)
    then have "paid_ticks 1 t s'" by (intro less.hyps [OF _ retried(3) less.prems(2)]) simp
    with retried(2) paid_ticks_trans [of 0 s t 1 s'] show ?thesis by simp
  qed
qed

lemma tick_paid_once:
  assumes "tick env s = (Ret None, s')"
  shows "paid_ticks 1 s s'"
proof -
  let ?u = "tick_units (se_cfg env)"
  obtain r t where da: "debitWithRetry env ?u s = (r, t)" by fastforce
  from assms da obtain b where b: "r = Ret (Inr b)" "0 \<le> b"
    by (auto simp: tick_def andThen_eq Let_def split_sum_ex split: sum.split_asm if_split_asm)
  have "paid_ticks 1 s t"
    using da b debitAttempts_paid by (fastforce simp: debitWithRetry_def andThen_eq)
  moreover have "paid_ticks 0 t s'"
  proof -
    let ?rest = "andThen (modify (\<lambda>s. s\<lparr>cumulativeUnits := cumulativeUnits s + ?u\<rparr>)) (\<lambda>_.
      andThen (gets (\<lambda>s. \<lparr>ut_WorkerSessionID = se_workerSessionID env, ut_WorkID = se_workID env,
                 ut_UsageSeq = debitSeq s, ut_WorkUnits = ?u, ut_WorkUnitKind = ''second'',
                 ut_CumulativeWorkUnits = cumulativeUnits s\<rparr>)) (\<lambda>data.
      andThen (emit env EventSessionUsageTick (UsageTick data)) (\<lambda>_. tickSufficient env b)))"
    have "?rest t = (Ret None, s')"
      using assms da b by (auto simp: tick_def andThen_def Let_def split: if_split_asm)
    moreover have "keeps no_debits ?rest"
      by (intro calm.keeps_core calm.keeps_emit calm.keeps_tickSufficient calm.keeps_fields) simp
    ultimately show ?thesis by (rule keeps_paid [rotated])
  qed
  ultimately show ?thesis using paid_ticks_trans [of 1 s t 0 s'] by simp
qed

lemma loop_paid:
  assumes "loop env is s = (Ret StillRunning, s')"
  shows "paid_ticks (count_list is TickFired) s s'"
  using assms
proof (induction "is" arbitrary: s)
  case Nil
  then show ?case by (auto simp: paid_ticks_def)
next
  case (Cons i "is")
  let ?s = "s\<lparr>world := SelectWait (se_ctx env) i (world s)\<rparr>"
  from Cons.prems obtain t where st: "loopStep env i ?s = (Ret None, t)" and rest: "loop env is t = (Ret StillRunning, s')"
    by (auto simp: loop_Cons andThen_eq split: option.split_asm)
  have "paid_ticks (of_bool (i = TickFired)) ?s t"
  proof (cases "i = TickFired")
    case True
    with st have "tick env ?s = (Ret None, t)" by (auto simp: loopStep_def andThen_eq split: option.split_asm)
    with True show ?thesis using tick_paid_once [of env ?s t] by simp
  next
    case False
    with st show ?thesis by (auto dest!: keeps_paid [OF calm.keeps_calmStep])
  qed
  moreover have "paid_ticks 0 s ?s" by (auto simp: paid_ticks_def)
  ultimately have "paid_ticks (0 + of_bool (i = TickFired) + count_list is TickFired) s s'"
    by (intro paid_ticks_trans [OF paid_ticks_trans Cons.IH [OF rest]])
  then show ?case by (auto simp: of_bool_def split: if_split_asm)
qed

lemma deferred_eq: "deferred p h s = (r, s') \<longleftrightarrow> (\<exists>x t. p s = (x, t) \<and> h x t = (r, s'))"
  by (auto simp: deferred_def split: prod.splits)

lemma Serve_running:
  assumes "Serve ctx m req (Some ps) inputs w = (Ret StillRunning, s)"
  shows "count is_taken (calls s) = count_list inputs TickFired" and "failed_since (calls s) = 0"
    and "\<And>u q b. Called_Debit u q (Ret (Inr b)) \<in> set (calls s) \<Longrightarrow> 0 \<le> b"
proof -
  let ?env = "serve_env ctx m req ps"
  have url: "md_BackendURL m \<noteq> ''''" using assms by (auto simp: Serve_def)
  have "idle ?env s" using Serve_run [OF assms url] by (simp add: serve_post_def)
  then show "failed_since (calls s) = 0"
    by (auto simp: idle_def counted_def dest!: proto_run_counted)
  obtain r1 s1 where body: "serveBody ?env req (backendURLForRequest req (md_BackendURL m)) inputs (new_session w) = (r1, s1)"
    by fastforce
  have "serveDefer ?env r1 s1 = (Ret StillRunning, s)"
    using assms body url by (auto simp: Serve_def deferred_def Let_def)
  then have "r1 = Ret StillRunning \<and> s1 = s"
    by (auto simp: serveDefer_def cleanup_def andThen_eq split: outcome.split_asm serve_result.split_asm)
  then obtain t where lp: "loop ?env inputs t = (Ret StillRunning, s)" and t: "paid_ticks 0 (new_session w) t"
  proof -
    assume run: "r1 = Ret StillRunning \<and> s1 = s"
    let ?env = "serve_env ctx m req ps"
    have emit: "keeps no_debits (emit ?env EventSessionReady NoData)" by (rule calm.keeps_emit)
    have op: "keeps no_debits (invoke (Backend_OpenSession (md_Backend (se_cfg ?env)) req u) (Called_OpenSession u))"
      and ticker: "keeps no_debits (invoke (Ticker (md_Clock (se_cfg ?env)) d) (Called_Ticker d))" for u d
      by (auto intro!: no_debits_invoke simp: not_debit_def)
    from body run obtain x t0 t1 t2 where
        "invoke (Backend_OpenSession (md_Backend (se_cfg ?env)) req (backendURLForRequest req (md_BackendURL m)))
           (Called_OpenSession (backendURLForRequest req (md_BackendURL m))) (new_session w) = (x, t0)"
        "emit ?env EventSessionReady NoData t0 = (Ret (), t1)"
        "invoke (Ticker (md_Clock (se_cfg ?env)) (md_DebitCadence (se_cfg ?env))) (Called_Ticker (md_DebitCadence (se_cfg ?env))) t1 = (Ret (), t2)"
        "loop ?env inputs t2 = (Ret StillRunning, s)"
      by (cases r1)
         (auto simp: serveBody_def runLoop_def andThen_eq deferred_eq stopTicker_def emitErrorBest_def
           split: option.split_asm if_split_asm)
    with that keepsD [OF op] keepsD [OF emit] keepsD [OF ticker] show thesis
      by (meson calm.trans no_debits_paid)
  qed
  from paid_ticks_trans [OF t loop_paid [OF lp]]
  obtain new where "calls s = new" "count is_taken new = count_list inputs TickFired"
      "\<forall>u q b. Called_Debit u q (Ret (Inr b)) \<in> set new \<longrightarrow> 0 \<le> b"
    by (auto simp: paid_ticks_def new_session_def)
  then show "count is_taken (calls s) = count_list inputs TickFired"
    and "\<And>u q b. Called_Debit u q (Ret (Inr b)) \<in> set (calls s) \<Longrightarrow> 0 \<le> b" by blast+
qed

text \<open>As long as a session runs, every tick has been charged once; and when the answers to the debits have
  the sign of the balance, the work id is not overdrawn after the first tick.\<close>

lemma running_balance:
  fixes w :: "('d, 'r) stream_world"
  assumes client: "payee_ledger c sender balance charged price"
    and others: "credits_ledger K (session_ledger balance charged price workID) ctx m"
    and K: "0 \<in> K" "\<And>a b. a \<in> K \<Longrightarrow> b \<in> K \<Longrightarrow> a + b \<in> K"
    and run: "Serve ctx m req (Some (newPaymentSessionAdapter c sender workID onClose)) inputs w = (Ret StillRunning, s)"
    and fresh: "\<forall>q. charged (sv_payee (st_server w)) workID q = None"
    and no_wrap: "count_list inputs TickFired < 2 ^ 64"
  shows "\<exists>credit \<in> K. balance (sv_payee (st_server (world s))) workID =
       balance (sv_payee (st_server w)) workID + credit
         - price (sv_payee (st_server w)) workID * sint (tick_units m) * int (count_list inputs TickFired)"
    and "price (sv_payee (st_server (world s))) workID = price (sv_payee (st_server w)) workID"
proof -
  note running = Serve_running [OF run]
  obtain k D where path: "ledger_path (own_terms (\<lambda>x b. True) K) (session_ledger balance charged price workID w) (calls s) k
      (charged (sv_payee (st_server (world s))) workID, balance (sv_payee (st_server (world s))) workID,
       price (sv_payee (st_server (world s))) workID)"
    and total: "balance (sv_payee (st_server (world s))) workID = balance (sv_payee (st_server w)) workID + k
       - price (sv_payee (st_server w)) workID * sint (tick_units m) * int (card D)"
    and price: "price (sv_payee (st_server (world s))) workID = price (sv_payee (st_server w)) workID"
    and D: "finite D" "first_seqs (count_list inputs TickFired) \<subseteq> D" "D \<subseteq> first_seqs (count_list inputs TickFired)"
    by (rule session_total [OF ledger_charging [OF client others] _ run fresh refl refl]) (auto simp: running)
  have "k \<in> K" using ledger_path_total_credit [OF path] K by simp
  moreover have "card D = count_list inputs TickFired"
    using D card_seqs [OF no_wrap] by (metis subset_antisym)
  ultimately show "\<exists>credit \<in> K. balance (sv_payee (st_server (world s))) workID =
       balance (sv_payee (st_server w)) workID + credit
         - price (sv_payee (st_server w)) workID * sint (tick_units m) * int (count_list inputs TickFired)"
    and "price (sv_payee (st_server (world s))) workID = price (sv_payee (st_server w)) workID"
    using total price by auto
qed

lemma running_not_overdrawn:
  fixes w :: "('d, 'r) stream_world"
  assumes client: "payee_answers c sender balance charged price"
    and others: "credits_ledger K (session_ledger balance charged price workID) ctx m" and K: "K \<subseteq> {0..}"
    and run: "Serve ctx m req (Some (newPaymentSessionAdapter c sender workID onClose)) inputs w = (Ret StillRunning, s)"
    and fresh: "\<forall>q. charged (sv_payee (st_server w)) workID q = None"
    and ticks: "TickFired \<in> set inputs"
  shows "0 \<le> balance (sv_payee (st_server (world s))) workID"
proof -
  note running = Serve_running [OF run]
  let ?n = "count_list inputs TickFired"
  obtain k D where path: "ledger_path (own_terms same_sign K) (session_ledger balance charged price workID w) (calls s) k
      (charged (sv_payee (st_server (world s))) workID, balance (sv_payee (st_server (world s))) workID,
       price (sv_payee (st_server (world s))) workID)"
    and D: "first_seqs ?n \<subseteq> D" "D \<subseteq> first_seqs ?n"
      "D \<noteq> {} \<longrightarrow> (\<exists>q \<in> D. the (charged (sv_payee (st_server (world s))) workID q) \<le>
         balance (sv_payee (st_server (world s))) workID)"
  proof (rule session_total [OF answers_charging [OF client others] _ run fresh refl refl])
    fix d k D
    assume d: "Ret StillRunning = Ret StillRunning \<Longrightarrow> d = sv_payee (st_server (world s))"
      and rest: "ledger_path (own_terms same_sign K) (session_ledger balance charged price workID w) (calls s) k
         (charged d workID, balance d workID, price d workID)"
        "first_seqs (count is_taken (calls s)) \<subseteq> D"
        "D \<subseteq> first_seqs (count is_taken (calls s) + of_bool (failed_since (calls s) \<noteq> 0)) \<union> pt_others (own_terms same_sign K)"
        "pt_credits (own_terms same_sign K) \<subseteq> {0..} \<Longrightarrow> D \<noteq> {} \<Longrightarrow> \<exists>q \<in> D. the (charged d workID q) \<le> balance d workID"
    from d [OF refl] rest K show thesis by (intro that [of k D]) (simp_all add: running)
  qed simp
  have "0 < ?n" using ticks by (metis count_list_0_iff gr0I)
  then have "D \<noteq> {}" using D(1) by auto
  then obtain q where q: "q \<in> first_seqs ?n"
      "the (charged (sv_payee (st_server (world s))) workID q) \<le> balance (sv_payee (st_server (world s))) workID"
    using D by blast
  then have "q \<in> taken_seqs (calls s)" using Serve_debit_seqs(2) [OF run] by (auto simp: running)
  then obtain u b where call: "Called_Debit u q (Ret (Inr b)) \<in> set (calls s)" by (auto simp: taken_seqs_def)
  from ledger_path_answers [OF path call] running(3) [OF call] q(2) show ?thesis by (auto simp: same_sign_def)
qed

section \<open>Properties\<close>

text \<open>C2: What a session costs. Take any daemon client that keeps the ledger contract, which says nothing of the
  balances it answers and nothing of \<open>CloseSession\<close>; a work id with no debit in the ledger yet; and
  suppose that the collaborators, and the rest of the worker while the session waits, do nothing to
  that ledger but credit it, with amounts from a set \<open>K\<close> closed under addition (none at all when \<open>K\<close> is
  just zero). After any run of \<open>Serve\<close>, whatever answers were lost and however often debits were retried,
  the balance of the work id, in the state \<open>d\<close> of the daemon at the end or, if the run closed
  its payment session, in the state that \<open>CloseSession\<close> found, has, apart from such credits, fallen by the
  bound price times the units of a tick for each debit the session saw succeed, plus at most one
  more: the last one, when its answers were lost. If no attempt has failed since the last success, it
  is exactly the debits the session counts.\<close>

theorem session_charged_once_per_debit:
  fixes w :: "('d, 'r) stream_world"
  assumes client: "payee_ledger c sender balance charged price"
    and others: "credits_ledger K (session_ledger balance charged price workID) ctx m"
    and K: "0 \<in> K" "\<And>a b. a \<in> K \<Longrightarrow> b \<in> K \<Longrightarrow> a + b \<in> K"
    and run: "Serve ctx m req (Some (newPaymentSessionAdapter c sender workID onClose)) inputs w = (r, s)"
    and fresh: "\<forall>q. charged (sv_payee (st_server w)) workID q = None"
    and no_wrap: "count is_taken (calls s) + 1 < 2 ^ 64"
  shows "\<exists>d N credit. credit \<in> K \<and>
     at_close c sender workID (calls s) d (sv_payee (st_server (world s))) \<and>
     balance d workID = balance (sv_payee (st_server w)) workID + credit
         - price (sv_payee (st_server w)) workID * sint (tick_units m) * int N \<and>
     count is_taken (calls s) \<le> N \<and> N \<le> count is_taken (calls s) + 1 \<and>
     (failed_since (calls s) = 0 \<longrightarrow> N = count is_taken (calls s))"
proof (rule session_total [OF ledger_charging [OF client others] _ run fresh refl refl])
  let ?T = "own_terms (\<lambda>x b. True) K" and ?n = "count is_taken (calls s)" and ?e = "of_bool (failed_since (calls s) \<noteq> 0) :: nat"
  fix d k D
  assume path: "ledger_path ?T (session_ledger balance charged price workID w) (calls s) k
      (charged d workID, balance d workID, price d workID)"
    and close: "at_close c sender workID (calls s) d (sv_payee (st_server (world s)))"
    and total: "balance d workID = balance (sv_payee (st_server w)) workID + k
       - price (sv_payee (st_server w)) workID * sint (tick_units m) * int (card D)"
    and D: "finite D" "first_seqs ?n \<subseteq> D" "D \<subseteq> first_seqs (?n + ?e) \<union> pt_others ?T"
  have "k \<in> K" using ledger_path_total_credit [OF path] K by simp
  moreover have "?n \<le> card D" "card D \<le> ?n + ?e"
    using card_between [of ?n D "?n + ?e"] D no_wrap by (auto split: if_split_asm)
  ultimately show ?thesis
    using close total
    by (intro exI [of _ d] exI [of _ "card D"] exI [of _ k]) (auto simp: of_bool_def split: if_split_asm)
qed simp

text \<open>C4: A session that goes on is paid for. Under the same conditions (the ledger contract, a work id
  without earlier debits, others that only credit), with credits that are not negative: as long as a
  session runs, every tick so far has been charged exactly once, whether or not the client's answers
  show it; and with a client whose answers carry the balance with its sign, the work id is not
  overdrawn after the first tick. The in-memory client is of that kind, the production client is
  not.\<close>

theorem running_session_funded:
  fixes w :: "('d, 'r) stream_world"
  assumes client: "payee_ledger c sender balance charged price"
    and others: "credits_ledger {0..} (session_ledger balance charged price workID) ctx m"
    and run: "Serve ctx m req (Some (newPaymentSessionAdapter c sender workID onClose)) inputs w = (Ret StillRunning, s)"
    and fresh: "\<forall>q. charged (sv_payee (st_server w)) workID q = None"
    and no_wrap: "count_list inputs TickFired < 2 ^ 64"
  shows "(\<exists>credit \<ge> 0. balance (sv_payee (st_server (world s))) workID =
       balance (sv_payee (st_server w)) workID + credit
         - price (sv_payee (st_server w)) workID * sint (tick_units m) * int (count_list inputs TickFired)) \<and>
     (payee_answers c sender balance charged price \<and> TickFired \<in> set inputs \<longrightarrow>
        0 \<le> balance (sv_payee (st_server (world s))) workID)"
proof -
  have "\<And>a b :: int. a \<in> {0..} \<Longrightarrow> b \<in> {0..} \<Longrightarrow> a + b \<in> {0..}" by simp
  from running_balance(1) [OF client others _ this run fresh no_wrap] running_not_overdrawn [OF _ others _ run fresh]
  show ?thesis by fastforce
qed

section \<open>The in-memory daemon behind a default module\<close>

definition demo_http :: "'w HTTPClient" where
  "demo_http =
     \<lparr>ht_ReqErr = (\<lambda>u. None),
      ht_Do = (\<lambda>q. ret (Inr \<lparr>rs_StatusCode = 202, rs_Header = Map.empty, rs_Body = []\<rparr>)),
      ht_StopURL = (\<lambda>u p. Inr (u @ p)), ht_PathEscape = (\<lambda>s. s)\<rparr>"

definition demo_module :: "'w Module" where
  "demo_module =
     withDefaults (NewHTTPBackend demo_http) \<lparr>Now = (\<lambda>w. (0, w)), Ticker = SystemClock_Ticker\<rparr>
       \<lparr>mc_BackendURL = ''http://r/s'', mc_DebitCadence = 0, mc_RunwayMinUnits = 0, mc_GraceWindow = 0,
        mc_DebitRetryBudget = 0, mc_DebitRetryInterval = 0, mc_Bridge = None, mc_Backend = None,
        mc_Clock = None, mc_IDGen = None\<rparr>"

definition demo_ctx :: "'w Ctx" where
  "demo_ctx = \<lparr>RetryWait = (\<lambda>d w. (None, w)), SelectWait = (\<lambda>i w. w)\<rparr>"

lemma demo_credits: "0 \<in> K \<Longrightarrow> credits_ledger K led demo_ctx demo_module"
  by (simp add: credits_ledger_def others_keep_def credited_def demo_module_def withDefaults_def demo_ctx_def
      NewStubBridge_def ret_def NewHTTPBackend_def HTTPBackend_OpenSession_def demo_http_def SystemClock_Ticker_def
      andThen_def Let_def bexI [of _ 0] split: option.split)

interpretation demo_charging:
  charging "own_terms same_sign {0}" "session_ledger (\<lambda>d w. BalanceFor d sender w) (fake_charged sender) fake_price workID"
    "serve_env demo_ctx demo_module req (newPaymentSessionAdapter fakeClient sender workID onClose)"
  for sender :: bytes and workID :: string and req :: "Request option" and onClose :: "registry \<Rightarrow> registry"
  by (rule answers_charging [OF fake_ledger.payee_answers_axioms demo_credits]) simp

definition demo_run :: "serve_result outcome \<times> (Fake, unit) stream_world session" where
  "demo_run = Serve demo_ctx demo_module (Some sample_request)
     (Some (newPaymentSessionAdapter fakeClient ''s'' ''w'' (\<lambda>r. r))) [TickFired, CtxDone context_Canceled]
     \<lparr>st_server = sample_running, st_closed = False\<rparr>"

lemma demo_run_counts: "count is_taken (calls (snd demo_run)) = 1 \<and> failed_since (calls (snd demo_run)) = 0"
  by code_simp

lemma demo_start:
  "\<forall>q. fake_charged ''s'' (sv_payee (sample_running :: (Fake, unit) server)) ''w'' q = None"
  "BalanceFor (sv_payee (sample_running :: (Fake, unit) server)) ''s'' ''w'' = 1000000"
  "fake_price (sv_payee (sample_running :: (Fake, unit) server)) ''w'' = 6250"
  by (simp_all add: fake_charged_def BalanceFor_def sample_running_def sample_fake_def fake_price_def bound_price_def
      NewFake_def)

lemma demo_units: "sint (tick_units (demo_module :: (Fake, unit) stream_world Module)) = 5"
  by code_simp

lemma fake_Close_balance: "CloseSession fakeClient s w d = (e, d') \<Longrightarrow> BalanceFor d' s' w' = BalanceFor d s' w'"
  by (auto simp: fakeClient_def fake_CloseSession_def BalanceFor_def Let_def split: option.split_asm if_split_asm)

theorem session_charged_once_per_debit_witness:
  "BalanceFor (sv_payee (st_server (world (snd demo_run)))) ''s'' ''w'' = 1000000 - 6250 * 5"
proof -
  let ?w = "\<lparr>st_server = sample_running, st_closed = False\<rparr> :: (Fake, unit) stream_world"
  have run: "Serve demo_ctx demo_module (Some sample_request)
      (Some (newPaymentSessionAdapter fakeClient ''s'' ''w'' (\<lambda>r. r))) [TickFired, CtxDone context_Canceled] ?w
      = (fst demo_run, snd demo_run)" by (simp add: demo_run_def)
  have fresh: "\<forall>q. fake_charged ''s'' (sv_payee (st_server ?w)) ''w'' q = None" by (simp add: demo_start)
  show ?thesis
    using session_charged_once_per_debit [OF fake_ledger.payee_ledger_axioms demo_credits [of "{0}"] _ _ run fresh]
      demo_run_counts demo_units
    by (auto simp: demo_start at_close_def fake_Close_balance split: if_split_asm)
qed

lemma count_replicate [simp]: "count_list (replicate n x) x = n"
  by (induction n) auto

definition demo_ticks :: "nat \<Rightarrow> serve_result outcome \<times> (Fake, unit) stream_world session" where
  "demo_ticks n = Serve demo_ctx demo_module (Some sample_request)
     (Some (newPaymentSessionAdapter fakeClient ''s'' ''w'' (\<lambda>r. r))) (replicate n TickFired)
     \<lparr>st_server = sample_running, st_closed = False\<rparr>"

lemma demo_two_ticks: "fst (demo_ticks 2) = Ret StillRunning"
  by code_simp

theorem running_session_funded_witness:
  "fst (demo_ticks 2) = Ret StillRunning \<and>
   0 \<le> BalanceFor (sv_payee (st_server (world (snd (demo_ticks 2))))) ''s'' ''w''"
proof -
  let ?w = "\<lparr>st_server = sample_running, st_closed = False\<rparr> :: (Fake, unit) stream_world"
  have run: "Serve demo_ctx demo_module (Some sample_request)
      (Some (newPaymentSessionAdapter fakeClient ''s'' ''w'' (\<lambda>r. r))) (replicate 2 TickFired) ?w
      = (Ret StillRunning, snd (demo_ticks 2))"
    using demo_two_ticks by (simp add: demo_ticks_def prod_eq_iff)
  have fresh: "\<forall>q. fake_charged ''s'' (sv_payee (st_server ?w)) ''w'' q = None" by (simp add: demo_start)
  have two: "count_list (replicate 2 TickFired) TickFired < 2 ^ 64" by simp
  show ?thesis
    using running_session_funded [OF fake_ledger.payee_ledger_axioms demo_credits [of "{0..}"] run fresh two]
      demo_two_ticks fake_ledger.payee_answers_axioms by simp
qed

end
