(* ===== verification/Session_In_System.thy ===== *)
theory Session_In_System
  imports System Charging
begin

text \<open>
  A run of \<open>Serve\<close> as part of the whole worker. The world of the session is now the state of the
  system, seen from one of its sessions; what the collaborators do to it, and what happens while
  the session waits, are steps of the system taken by the others. Then the run of the session itself is a
  sequence of steps of the system, so the invariant of theory System holds all along, and a session
  that returns has asked the daemon to close its payment session and leaves neither its slot nor its
  registry entry behind.
\<close>

section \<open>The system seen from a session\<close>

record ('d, 'r) worker_world = "('d, 'r) stream_world" +
  ww_start :: stream_start
  ww_before :: "(stream_start \<times> bool) list"
  ww_after :: "(stream_start \<times> bool) list"
  ww_inflight :: nat
  ww_leaked :: bool

definition system_of :: "('d, 'r) worker_world \<Rightarrow> ('d, 'r) system" where
  "system_of w =
     \<lparr>sy_server = st_server w, sy_running = ww_before w @ (ww_start w, st_closed w) # ww_after w,
      sy_inflight = ww_inflight w, sy_leaked = ww_leaked w\<rparr>"

definition own_steps ::
  "'d Mux \<Rightarrow> jsonDecoder \<Rightarrow> (string \<Rightarrow> string \<Rightarrow> goerr option) \<Rightarrow> ('d, 'r) worker_world \<Rightarrow> ('d, 'r) worker_world \<Rightarrow> bool"
where
  "own_steps mx jd stop w w' \<longleftrightarrow>
     (system_step mx jd stop)\<^sup>*\<^sup>* (system_of w) (system_of w') \<and> ww_start w' = ww_start w"

text \<open>What the others do: steps of the system that are not this session's closing.\<close>

definition others_steps ::
  "'d Mux \<Rightarrow> jsonDecoder \<Rightarrow> (string \<Rightarrow> string \<Rightarrow> goerr option) \<Rightarrow> ('d, 'r) worker_world \<Rightarrow> ('d, 'r) worker_world \<Rightarrow> bool"
where
  "others_steps mx jd stop w w' \<longleftrightarrow> own_steps mx jd stop w w' \<and> st_closed w' = st_closed w"

definition session_ps :: "'d Mux \<Rightarrow> stream_start \<Rightarrow> ('d, 'r) worker_world PaymentSession" where
  "session_ps mx start =
     newPaymentSessionAdapter (mx_payee mx) (ss_Sender start) (ss_WorkID start)
       (registry_Delete (ss_GatewaySessionID start))"

lemma system_of_own: "(ww_start w, st_closed w) \<in> set (sy_running (system_of w))"
  by (simp add: system_of_def)

section \<open>The session's own calls are steps\<close>

definition plain :: "('d, 'r) worker_world \<Rightarrow> ('d, 'r) stream_world" where
  "plain w = \<lparr>st_server = st_server w, st_closed = st_closed w\<rparr>"

lemma session_world_of: "session_world (system_of w) (st_closed w) = plain w"
  by (simp add: session_world_def system_of_def plain_def)

lemma on_payee_plain:
  "on_payee f w = (x, w') \<Longrightarrow> \<exists>d. on_payee f (plain w) = (x, plain w') \<and>
     w' = w\<lparr>st_server := st_server w\<lparr>sv_payee := d\<rparr>\<rparr>"
  by (auto simp: on_payee_def plain_def split: prod.split_asm)

lemma adapter_Debit_step:
  assumes "adapter_Debit (mx_payee mx) (ss_Sender (ww_start w)) (ss_WorkID (ww_start w)) u q w = (r, w')"
  shows "system_step mx jd stop (system_of w) (system_of w') \<and> ww_start w' = ww_start w \<and> st_closed w' = st_closed w"
proof -
  from assms obtain d where "adapter_Debit (mx_payee mx) (ss_Sender (ww_start w)) (ss_WorkID (ww_start w)) u q (plain w)
      = (r, plain w')" and w': "w' = w\<lparr>st_server := st_server w\<lparr>sv_payee := d\<rparr>\<rparr>"
    by (fastforce simp: adapter_Debit_def dest: on_payee_plain split: prod.split_asm sum.split_asm)
  from session_debits [OF system_of_own this(1) [folded session_world_of], of jd stop] show ?thesis
    by (simp add: system_of_def session_world_def w')
qed

lemma adapter_Sufficient_step:
  assumes "adapter_Sufficient (mx_payee mx) (ss_Sender (ww_start w)) (ss_WorkID (ww_start w)) u w = (r, w')"
  shows "system_step mx jd stop (system_of w) (system_of w') \<and> ww_start w' = ww_start w \<and> st_closed w' = st_closed w"
proof -
  from assms obtain d where "adapter_Sufficient (mx_payee mx) (ss_Sender (ww_start w)) (ss_WorkID (ww_start w)) u (plain w)
      = (r, plain w')" and w': "w' = w\<lparr>st_server := st_server w\<lparr>sv_payee := d\<rparr>\<rparr>"
    by (fastforce simp: adapter_Sufficient_def dest: on_payee_plain split: prod.split_asm sum.split_asm)
  from session_checks [OF system_of_own this(1) [folded session_world_of], of jd stop] show ?thesis
    by (simp add: system_of_def session_world_def w')
qed

lemma adapter_Close_eq:
  "adapter_Close payee sender workID f w = (r, w') \<longleftrightarrow>
     (if st_closed w then r = Ret None \<and> w' = w
      else \<exists>res d. CloseSession payee sender workID (sv_payee (st_server w)) = (res, d) \<and> r = Ret (err_of res) \<and>
        w' = w\<lparr>st_closed := True, st_server := (st_server w)\<lparr>sv_payee := d, sv_sessions := f (sv_sessions (st_server w))\<rparr>\<rparr>)"
  by (auto simp: adapter_Close_def on_payee_def split: prod.splits)

lemma adapter_Close_step:
  assumes "adapter_Close (mx_payee mx) (ss_Sender (ww_start w)) (ss_WorkID (ww_start w))
      (registry_Delete (ss_GatewaySessionID (ww_start w))) w = (r, w')"
  shows "system_step mx jd stop (system_of w) (system_of w') \<and> ww_start w' = ww_start w \<and> st_closed w' \<and>
    (\<not> st_closed w \<longrightarrow> sv_sessions (st_server w') (ss_GatewaySessionID (ww_start w)) = None)"
proof -
  let ?i = "length (ww_before w)"
  have i: "?i < length (sy_running (system_of w))" "sy_running (system_of w) ! ?i = (ww_start w, st_closed w)"
    by (simp_all add: system_of_def)
  have "adapter_Close (mx_payee mx) (ss_Sender (ww_start w)) (ss_WorkID (ww_start w))
      (registry_Delete (ss_GatewaySessionID (ww_start w))) (plain w) = (r, plain w')"
    using assms unfolding adapter_Close_eq by (auto simp: plain_def split: if_splits)
  from session_closes [OF i this [folded session_world_of], of jd stop]
  have "system_step mx jd stop (system_of w) ((system_of w)
      \<lparr>sy_server := st_server w', sy_running := (sy_running (system_of w))[?i := (ww_start w, st_closed w')]\<rparr>)"
    by (simp add: session_world_of plain_def)
  moreover have "(system_of w)\<lparr>sy_server := st_server w', sy_running :=
      (sy_running (system_of w))[?i := (ww_start w, st_closed w')]\<rparr> = system_of w'"
    using assms unfolding adapter_Close_eq by (auto simp: system_of_def split: if_splits)
  ultimately show ?thesis
    using assms unfolding adapter_Close_eq by (auto simp: registry_Delete_def split: if_splits)
qed

section \<open>The run as a path of the system\<close>

definition close_call :: "call \<Rightarrow> bool" where
  "close_call c \<longleftrightarrow> (\<exists>r. c = Called_Close r)"

definition system_rel ::
  "'d Mux \<Rightarrow> jsonDecoder \<Rightarrow> (string \<Rightarrow> string \<Rightarrow> goerr option) \<Rightarrow> stream_start \<Rightarrow>
   ('d, 'r) worker_world session \<Rightarrow> ('d, 'r) worker_world session \<Rightarrow> bool"
where
  "system_rel mx jd stop start s s' \<longleftrightarrow>
     (\<exists>new. calls s' = calls s @ new \<and>
        (ww_start (world s) = start \<longrightarrow> own_steps mx jd stop (world s) (world s') \<and>
           (st_closed (world s') \<longleftrightarrow> st_closed (world s) \<or> list_ex close_call new)))"

interpretation system_path: step_relation "system_rel mx jd stop start"
  for mx :: "'d Mux" and jd stop start
proof
  fix s t u :: "('d, 'r) worker_world session"
  show "system_rel mx jd stop start s s" by (auto simp: system_rel_def own_steps_def)
  assume "system_rel mx jd stop start s t" and "system_rel mx jd stop start t u"
  then obtain new new' where "calls t = calls s @ new" "calls u = calls t @ new'"
      "ww_start (world s) = start \<longrightarrow> own_steps mx jd stop (world s) (world t) \<and>
         (st_closed (world t) \<longleftrightarrow> st_closed (world s) \<or> list_ex close_call new)"
      "ww_start (world t) = start \<longrightarrow> own_steps mx jd stop (world t) (world u) \<and>
         (st_closed (world u) \<longleftrightarrow> st_closed (world t) \<or> list_ex close_call new')"
    unfolding system_rel_def by blast
  then show "system_rel mx jd stop start s u"
    unfolding system_rel_def by (intro exI [of _ "new @ new'"]) (auto simp: own_steps_def intro: rtranclp_trans)
qed

lemma system_rel_invoke:
  assumes "\<And>w r w'. op w = (r, w') \<Longrightarrow> ww_start w = start \<Longrightarrow> own_steps mx jd stop w w' \<and>
     (st_closed w' \<longleftrightarrow> st_closed w \<or> close_call (mk r))"
  shows "keeps (system_rel mx jd stop start) (invoke op mk)"
  using assms by (fastforce simp: keeps_def system_rel_def invoke_eq)

lemma system_rel_others:
  assumes "\<And>w. others_steps mx jd stop w (snd (op w))" and "\<And>r. \<not> close_call (mk r)"
  shows "keeps (system_rel mx jd stop start) (invoke op mk)"
proof (rule system_rel_invoke)
  fix w r w'
  assume "op w = (r, w')"
  with assms show "own_steps mx jd stop w w' \<and> (st_closed w' \<longleftrightarrow> st_closed w \<or> close_call (mk r))"
    by (metis others_steps_def snd_conv)
qed

lemma system_rel_quiet:
  assumes "\<And>w. others_steps mx jd stop w (snd (f w))"
  shows "keeps (system_rel mx jd stop start) (quiet f)"
  unfolding keeps_def quiet_eq system_rel_def
  using assms by (fastforce simp: others_steps_def dest: arg_cong [where f = snd])

lemma system_rel_session:
  fixes m :: "('d, 'r) worker_world Module"
  assumes "others_keep (others_steps mx jd stop) ctx m"
  shows "closing_relation (system_rel mx jd stop start) (serve_env ctx m req (session_ps mx start))"
    (is "closing_relation ?R ?env")
proof
  note q = assms [unfolded others_keep_def]
  have env: "se_cfg ?env = m" "se_ctx ?env = ctx" "se_ps ?env = session_ps mx start" by (simp_all add: serve_env_def)
  fix s s' :: "('d, 'r) worker_world session" and call d ev rq url g i u n
  have fields: "?R s s'" if "world s' = world s" "calls s' = calls s" for s s' :: "('d, 'r) worker_world session"
    using that by (auto simp: system_rel_def own_steps_def)
  then show "world s' = world s \<Longrightarrow> calls s' = calls s \<Longrightarrow> ?R s s'" .
  show "world s' = world s \<Longrightarrow> calls s' = calls s @ [call] \<Longrightarrow> call = Called_TickerStop \<or> call = Called_After d \<Longrightarrow> ?R s s'"
    by (auto simp: system_rel_def own_steps_def close_call_def)
  show "keeps ?R (emit ?env et ed)" for et ed
    using q
    by (intro emit_keeps system_path.step_relation_axioms fields)
       (auto intro!: system_rel_others system_rel_quiet simp: env close_call_def)
  show "keeps ?R (invoke (Bridge_Close (md_Bridge (se_cfg ?env))) Called_BridgeClose)"
    and "keeps ?R (invoke (Backend_OpenSession (md_Backend (se_cfg ?env)) rq url) (Called_OpenSession url))"
    and "keeps ?R (invoke (Ticker (md_Clock (se_cfg ?env)) d) (Called_Ticker d))"
    unfolding env using q by (auto intro!: system_rel_others simp: close_call_def)
  show "keeps ?R (quiet (RetryWait (se_ctx ?env) d))" and "keeps ?R (selectWait ?env i)"
    unfolding env selectWait_def using q by (auto intro!: system_rel_quiet)
  have steps: "Debit (session_ps mx start) u n w = (rd, w') \<Longrightarrow> ww_start w = start \<Longrightarrow>
        own_steps mx jd stop w w' \<and> st_closed w' = st_closed w"
      "Sufficient (session_ps mx start) u w = (rs, w') \<Longrightarrow> ww_start w = start \<Longrightarrow>
        own_steps mx jd stop w w' \<and> st_closed w' = st_closed w"
      "PS_Close (session_ps mx start) w = (rc, w') \<Longrightarrow> ww_start w = start \<Longrightarrow>
        own_steps mx jd stop w w' \<and> st_closed w'" for w w' :: "('d, 'r) worker_world" and rd rs rc
    using adapter_Debit_step [of mx w u n rd w' jd stop] adapter_Sufficient_step [of mx w u rs w' jd stop]
      adapter_Close_step [of mx w rc w' jd stop]
    by (auto simp: session_ps_def newPaymentSessionAdapter_def own_steps_def)
  show "keeps ?R (invoke (Debit (se_ps ?env) u n) (Called_Debit u n))"
    and "keeps ?R (invoke (Sufficient (se_ps ?env) u) (Called_Sufficient u))"
    and "keeps ?R (invoke (PS_Close (se_ps ?env)) Called_Close)"
    unfolding env by (rule system_rel_invoke; use steps in \<open>simp add: close_call_def\<close>)+
qed

lemma session_end_step:
  assumes "st_closed w"
  shows "system_step mx jd stop (system_of w)
    \<lparr>sy_server = (st_server w)\<lparr>sv_sem := sv_sem (st_server w) - 1\<rparr>, sy_running = ww_before w @ ww_after w,
     sy_inflight = ww_inflight w, sy_leaked = ww_leaked w\<rparr>"
proof -
  let ?i = "length (ww_before w)"
  have "sem_release (sy_server (system_of w)) = (Ret (), (st_server w)\<lparr>sv_sem := sv_sem (st_server w) - 1\<rparr>)"
    by (simp add: sem_release_def system_of_def)
  from session_ends [OF _ _ this, where i = ?i and start = "ww_start w" and c = "st_closed w"] assms show ?thesis
    by (simp add: system_of_def drop_session_def)
qed

text \<open>
  How a session that returned has closed its payment session: as its last call, once, and by asking the
  daemon for it under its own sender and work id; what the daemon answered is what the call returned.
\<close>

definition payment_closed :: "'d Mux \<Rightarrow> ('d, 'r) worker_world \<Rightarrow> call list \<Rightarrow> 'd \<Rightarrow> bool" where
  "payment_closed mx w cs d' \<longleftrightarrow>
     (\<exists>pre d res. cs = pre @ [Called_Close (Ret (err_of res))] \<and> \<not> list_ex close_call pre \<and>
        CloseSession (mx_payee mx) (ss_Sender (ww_start w)) (ss_WorkID (ww_start w)) d = (res, d'))"

lemma session_closed_last:
  fixes w :: "('d, 'r) worker_world"
  assumes opened: "\<not> st_closed w" and others: "others_keep (others_steps mx jd stop) ctx m"
    and run: "Serve ctx m req (Some (session_ps mx (ww_start w))) inputs w = (Ret (Returned err), s)"
    and url: "md_BackendURL m \<noteq> ''''"
  shows "registry_Get (ss_GatewaySessionID (ww_start w)) (sv_sessions (st_server (world s))) = None \<and> st_closed (world s) \<and>
    payment_closed mx w (calls s) (sv_payee (st_server (world s)))"
proof (rule Serve_closes [OF closing_relation.axioms(1) [OF system_rel_session [OF others, where start = "ww_start w"]] run url])
  fix t c
  assume rel: "system_rel mx jd stop (ww_start w) (new_session w) t"
    and close: "PS_Close (session_ps mx (ww_start w)) (world t) = (Ret c, world s)"
    and calls: "calls s = calls t @ [Called_Close (Ret c)]"
  from Serve_way_out [OF run url] calls obtain cs ev r1 r2 where
      "calls t = cs @ [Called_Send ev r1, Called_BridgeClose r2]" "\<forall>c \<in> set cs. \<not> is_end_call c" by auto
  then have once: "\<not> list_ex close_call (calls t)" by (auto simp: list_ex_iff close_call_def)
  with rel opened have t: "ww_start (world t) = ww_start w" "\<not> st_closed (world t)"
    by (auto simp: system_rel_def new_session_def own_steps_def)
  have "payment_closed mx w (calls s) (sv_payee (st_server (world s)))"
    unfolding payment_closed_def using close t calls once
    by (intro exI [of _ "calls t"] exI [of _ "sv_payee (st_server (world t))"])
       (auto simp: session_ps_def newPaymentSessionAdapter_def adapter_Close_def on_payee_def split: prod.splits
          dest!: arg_cong [where f = "\<lambda>w. sv_payee (st_server w)"])
  with t adapter_Close_step [of mx "world t" "Ret c" "world s" jd stop] close show ?thesis
    by (auto simp: session_ps_def newPaymentSessionAdapter_def registry_Get_def)
qed

section \<open>Properties\<close>

text \<open>C3: A session in the running worker. Start from any reachable state of the worker in which a session
  goroutine has just been started and its payment session is not closed yet, and let everything the rest of the worker
  does while the session runs be steps of the system. Then every run of \<open>Serve\<close> leads to a reachable state again,
  in which the slots taken are the running sessions and the paid requests, this session's included,
  so that giving its slot back never blocks. A run that returns, of a module with a backend URL (without one
  \<open>Serve\<close> returns at once and closes nothing), has closed its payment session: its last call asked the daemon, once
  and under its own sender and work id, to close it, and returned the daemon's answer, which may be an error; the
  registry has no entry under its gateway id; and ending the goroutine is a step after which the session is
  gone, its slot is free, and nothing has leaked that had not before.\<close>

theorem session_run_in_system:
  fixes w :: "('d, 'r) worker_world"
  assumes reach: "(system_step mx jd stop)\<^sup>*\<^sup>* (system_init d rec) (system_of w)" and opened: "\<not> st_closed w"
    and others: "others_keep (others_steps mx jd stop) ctx m"
    and run: "Serve ctx m (Some (ss_Request (ww_start w))) (Some (session_ps mx (ww_start w))) inputs w = (r, s)"
    and w': "w' = world s"
  shows "(system_step mx jd stop)\<^sup>*\<^sup>* (system_init d rec) (system_of w') \<and> ww_start w' = ww_start w \<and>
    sv_sem (st_server w') = length (ww_before w') + 1 + length (ww_after w') + ww_inflight w' \<and>
    sv_sem (st_server w') \<le> mx_semCap mx \<and>
    (\<forall>err. r = Ret (Returned err) \<and> md_BackendURL m \<noteq> '''' \<longrightarrow>
       st_closed w' \<and> payment_closed mx w (calls s) (sv_payee (st_server w')) \<and>
       registry_Get (ss_GatewaySessionID (ww_start w)) (sv_sessions (st_server w')) = None \<and>
       (system_step mx jd stop)\<^sup>*\<^sup>* (system_init d rec)
         \<lparr>sy_server = (st_server w')\<lparr>sv_sem := sv_sem (st_server w') - 1\<rparr>,
          sy_running = ww_before w' @ ww_after w', sy_inflight = ww_inflight w', sy_leaked = ww_leaked w'\<rparr>)"
proof -
  note rel = system_rel_session [OF others, where start = "ww_start w" and req = "Some (ss_Request (ww_start w))"]
  have own: "own_steps mx jd stop w w'"
    using Serve_related [OF rel run] w' by (auto simp: system_rel_def new_session_def)
  then have path: "(system_step mx jd stop)\<^sup>*\<^sup>* (system_init d rec) (system_of w')"
    using reach by (auto simp: own_steps_def)
  then have "system_inv mx (system_of w')" by (rule system_inv_reachable)
  moreover have "registry_Get (ss_GatewaySessionID (ww_start w)) (sv_sessions (st_server w')) = None \<and> st_closed w' \<and>
      payment_closed mx w (calls s) (sv_payee (st_server w'))"
    if "r = Ret (Returned err)" "md_BackendURL m \<noteq> ''''" for err
    using session_closed_last [OF opened others run [unfolded that(1)] that(2)] w' by simp
  ultimately show ?thesis
    using path own session_end_step [of w' mx jd stop] w'
    by (auto simp: own_steps_def system_inv_def slots_ok_def system_of_def intro: rtranclp.rtrancl_into_rtrancl)
qed

section \<open>A session in a worker\<close>

lemma demo_others: "others_keep (others_steps mx jd stop) demo_ctx demo_module"
  by (simp add: others_keep_def others_steps_def own_steps_def demo_module_def withDefaults_def demo_ctx_def
      NewStubBridge_def ret_def NewHTTPBackend_def HTTPBackend_OpenSession_def demo_http_def SystemClock_Ticker_def
      andThen_def Let_def split: option.split)

interpretation demo_in_system:
  closing_relation "system_rel sample_mux sample_jd stop start"
    "serve_env demo_ctx demo_module req (session_ps sample_mux start)"
  for stop :: "string \<Rightarrow> string \<Rightarrow> goerr option" and start :: stream_start and req :: "Request option"
  by (rule system_rel_session [OF demo_others])

lemma demo_ends:
  fixes w :: "('d, 'r) worker_world"
  shows "\<exists>err s. Serve demo_ctx demo_module req (Some (session_ps mx start)) [CtxDone context_Canceled] w = (Ret (Returned err), s)"
proof -
  let ?m = "demo_module :: ('d, 'r) worker_world Module"
  let ?env = "serve_env demo_ctx ?m req (session_ps mx start)"
  obtain r1 s1 where body: "serveBody ?env req (backendURLForRequest req (md_BackendURL ?m)) [CtxDone context_Canceled]
      (new_session w) = (r1, s1)" by fastforce
  have url: "md_BackendURL ?m \<noteq> ''''" by (simp add: demo_module_def withDefaults_def)
  have "r1 \<noteq> Ret StillRunning"
    using serveBody_ends [of "[CtxDone context_Canceled]" ?env req "backendURLForRequest req (md_BackendURL ?m)" "new_session w"]
      body by (simp add: ends_session_def)
  then have "\<exists>err. fst (serveDefer ?env r1 s1) = Ret (Returned err)"
    by (intro serveDefer_returns)
       (simp_all add: serve_env_def demo_module_def withDefaults_def NewStubBridge_def ret_def session_ps_def
          newPaymentSessionAdapter_def adapter_Close_def split: prod.split)
  then obtain err s where "serveDefer ?env r1 s1 = (Ret (Returned err), s)" by (metis prod.collapse)
  with body url show ?thesis by (auto simp: Serve_def deferred_def Let_def)
qed

theorem session_run_in_system_witness:
  "\<exists>resp start st'. streamingMiddleware sample_mux sample_jd ''livepeer:vtuber-session'' None sample_request sample_server
       = (Ret (resp, Some start), st') \<and>
     (\<exists>s. (system_step sample_mux sample_jd (\<lambda>g u. None))\<^sup>*\<^sup>* (system_init NewFake ()) s \<and>
       registry_Get (ss_GatewaySessionID start) (sv_sessions (sy_server s)) = None \<and>
       sv_sem (sy_server s) = length (sy_running s) + sy_inflight s)"
proof -
  obtain resp start st' where open1: "streamingMiddleware sample_mux sample_jd ''livepeer:vtuber-session'' None sample_request
      sample_server = (Ret (resp, Some start), st')"
    using sample_stream by blast
  let ?step = "system_step sample_mux sample_jd (\<lambda>g u. None)" and ?init = "system_init NewFake ()"
  let ?w = "\<lparr>st_server = st', st_closed = False, ww_start = start, ww_before = [], ww_after = [], ww_inflight = 0,
             ww_leaked = False\<rparr>"
  have init: "sy_server ?init = sample_server" by (simp add: system_init_def sample_server_def)
  have reach: "?step\<^sup>*\<^sup>* ?init (system_of ?w)"
    using session_opened [OF open1 [folded init]] by (auto simp: system_init_def system_of_def)
  obtain err s where run: "Serve demo_ctx demo_module (Some (ss_Request (ww_start ?w))) (Some (session_ps sample_mux (ww_start ?w)))
      [CtxDone context_Canceled] ?w = (Ret (Returned err), s)"
    using demo_ends by blast
  have url: "md_BackendURL (demo_module :: (Fake, unit) worker_world Module) \<noteq> ''''" by (simp add: demo_module_def withDefaults_def)
  let ?s = "\<lparr>sy_server = (st_server (world s))\<lparr>sv_sem := sv_sem (st_server (world s)) - 1\<rparr>,
      sy_running = ww_before (world s) @ ww_after (world s), sy_inflight = ww_inflight (world s), sy_leaked = ww_leaked (world s)\<rparr>"
  from session_run_in_system [OF reach _ demo_others run refl] url
  have end1: "?step\<^sup>*\<^sup>* ?init ?s" and sem: "sv_sem (st_server (world s)) =
      length (ww_before (world s)) + 1 + length (ww_after (world s)) + ww_inflight (world s)"
    and reg: "registry_Get (ss_GatewaySessionID start) (sv_sessions (st_server (world s))) = None" by auto
  from open1 end1 sem reg show ?thesis by (intro exI conjI) auto
qed

end
