(* ===== verification/Session_Events.thy ===== *)
theory Session_Events
  imports Session_Theorems Session_Relation
begin

text \<open>
  The events a session sends to the bridge: each is well typed, that is it carries the session's id
  and the data its type promises, and with the module's own id generator no two events of a session
  have the same id.
\<close>

section \<open>Events of a trace\<close>

fun sent :: "call \<Rightarrow> Event list" where
  "sent (Called_Send ev r) = [ev]"
| "sent _ = []"

definition events_of :: "call list \<Rightarrow> Event list" where
  "events_of cs = concat (map sent cs)"

lemma events_of_simps [simp]:
  "events_of [] = []" "events_of (cs @ ds) = events_of cs @ events_of ds" "events_of (c # cs) = sent c @ events_of cs"
  by (simp_all add: events_of_def)

text \<open>From one state to a later one, the events sent in between carry the next ids of the counter.\<close>

definition ids_rel :: "'w sessionEnv \<Rightarrow> 'w session \<Rightarrow> 'w session \<Rightarrow> bool" where
  "ids_rel env s s' \<longleftrightarrow>
     (\<exists>new. calls s' = calls s @ new \<and> idCounter s' = idCounter s + of_nat (length (events_of new)) \<and>
        map ev_EventID (events_of new) = counter_ids (se_sessionID env) (idCounter s) (length (events_of new)))"

lemma counter_ids_append: "counter_ids p c (m + n) = counter_ids p c m @ counter_ids p (c + of_nat m) n"
  by (induction m arbitrary: c) (simp_all add: CounterIDGen_NextID_def Let_def add.assoc)

lemma ids_rel_trans: "ids_rel env s t \<Longrightarrow> ids_rel env t u \<Longrightarrow> ids_rel env s u"
proof -
  assume "ids_rel env s t" and "ids_rel env t u"
  then obtain new new' where "calls t = calls s @ new" "idCounter t = idCounter s + of_nat (length (events_of new))"
      "map ev_EventID (events_of new) = counter_ids (se_sessionID env) (idCounter s) (length (events_of new))"
      "calls u = calls t @ new'" "idCounter u = idCounter t + of_nat (length (events_of new'))"
      "map ev_EventID (events_of new') = counter_ids (se_sessionID env) (idCounter t) (length (events_of new'))"
    unfolding ids_rel_def by blast
  then show ?thesis
    unfolding ids_rel_def by (intro exI [of _ "new @ new'"]) (simp add: counter_ids_append add.assoc)
qed

lemma ids_rel_silent: "calls s' = calls s @ cs \<Longrightarrow> events_of cs = [] \<Longrightarrow> idCounter s' = idCounter s \<Longrightarrow> ids_rel env s s'"
  unfolding ids_rel_def by (intro exI [of _ cs]) simp

lemma ids_invoke: "(\<And>x. sent (mk x) = []) \<Longrightarrow> keeps (ids_rel env) (invoke op mk)"
  by (auto simp: keeps_def invoke_eq intro!: ids_rel_silent)

lemma ids_quiet: "keeps (ids_rel env) (quiet f)"
  by (auto simp: keeps_def quiet_eq intro!: ids_rel_silent [where cs = "[]"])

lemma ids_emit:
  assumes "md_IDGen (se_cfg env) = None"
  shows "keeps (ids_rel env) (emit env et ed)"
  unfolding keeps_def
proof (intro allI impI)
  fix s r s'
  assume "emit env et ed s = (r, s')"
  then obtain ev r0 where "calls s' = calls s @ [Called_Send ev r0]" "idCounter s' = idCounter s + 1"
      "ev_EventID ev = fst (CounterIDGen_NextID (se_sessionID env) (idCounter s))"
    using assms by (auto simp: emit_def nextID_def CounterIDGen_NextID_def andThen_eq Let_def quiet_eq invoke_eq)
  then show "ids_rel env s s'"
    unfolding ids_rel_def by (intro exI [of _ "[Called_Send ev r0]"]) (simp add: CounterIDGen_NextID_def Let_def)
qed

lemma ids_session:
  assumes "md_IDGen (se_cfg env) = None"
  shows "closing_relation (ids_rel env) env"
proof
  show "ids_rel env s t \<Longrightarrow> ids_rel env t u \<Longrightarrow> ids_rel env s u" for s t u by (rule ids_rel_trans)
  show "keeps (ids_rel env) (emit env et ed)" for et ed using assms by (rule ids_emit)
qed (auto simp: selectWait_def intro!: ids_quiet ids_invoke ids_rel_silent)

lemma Serve_event_ids:
  assumes "Serve ctx m req (Some ps) inputs w = (r, s)" and "md_IDGen m = None"
  shows "map ev_EventID (events_of (calls s)) =
    counter_ids (extractSessionID req) 0 (length (events_of (calls s)))"
proof -
  let ?env = "serve_env ctx m req ps"
  have "closing_relation (ids_rel ?env) ?env" using assms(2) by (intro ids_session) (simp add: serve_env_def)
  from Serve_related [OF this assms(1)] show ?thesis
    by (simp add: ids_rel_def new_session_def serve_env_def)
qed

section \<open>Properties\<close>

text \<open>C15: Event ids are unique within a session: with the module's own generator (no other configured), on
  any run of \<open>Serve\<close> that sends at most 2^64 events, the ids of all events it sends are pairwise
  distinct, error and end events included, whatever the collaborators do.\<close>

theorem session_event_ids_distinct:
  assumes "Serve ctx m req (Some ps) inputs w = (r, s)" and "md_IDGen m = None"
    and "length (events_of (calls s)) \<le> 2 ^ 64"
  shows "distinct (map ev_EventID (events_of (calls s)))"
  using Serve_event_ids [OF assms(1,2)] counter_ids_distinct [OF assms(3)] by simp

text \<open>C14: Every event a session sends is well typed: it carries the id of the session, its type is the one
  that belongs to its data, a usage or refill event names the session's work id and worker session
  id, and an error that is marked as recoverable is an unreachable payment daemon.\<close>

theorem session_events_typed:
  assumes "Serve ctx m req (Some ps) inputs w = (r, s)" and "ev \<in> set (events_of (calls s))"
  shows "ev_SessionID ev = extractSessionID req \<and> ev_Type ev = type_of_data (ev_Data ev) \<and>
    (case ev_Data ev of
       UsageTick d \<Rightarrow>
         ut_WorkID d = extractWorkID req \<and> ut_WorkerSessionID d = extractWorkerSessionID req (extractSessionID req) \<and>
         ut_WorkUnits d = tick_units m
     | BalanceRefilled wsid wid runway \<Rightarrow>
         wid = extractWorkID req \<and> wsid = extractWorkerSessionID req (extractSessionID req)
     | ErrorData code msg recoverable \<Rightarrow> recoverable \<longrightarrow> code = ErrCodePaymentUnreachable
     | _ \<Rightarrow> True)"
proof -
  let ?env = "serve_env ctx m req ps"
  obtain res where "Called_Send ev res \<in> set (calls s)"
  proof -
    from assms(2) obtain c where "c \<in> set (calls s)" "ev \<in> set (sent c)" by (auto simp: events_of_def)
    with that show thesis by (cases c) auto
  qed
  then obtain pre post where cs: "calls s = pre @ Called_Send ev res # post" by (meson split_list)
  from Serve_accepted [OF assms(1)] obtain q q' where "proto_step ?env q (Called_Send ev res) = Some q'"
    unfolding cs by (rule proto_run_at)
  then show ?thesis
    by (cases "ev_Data ev") (auto simp: proto_step_def serve_env_def split: if_split_asm option.split_asm)
qed

theorem session_event_ids_distinct_witness:
  "distinct (map ev_EventID (events_of (calls (snd sample_run)))) \<and> length (events_of (calls (snd sample_run))) = 5"
proof -
  have len: "length (events_of (calls (snd sample_run))) = 5"
    using sample_run_eq by (simp add: sample_event_def)
  have gen: "md_IDGen sample_module = None" by (simp add: sample_module_def)
  from session_event_ids_distinct [OF sample_Serve gen] len show ?thesis by simp
qed

theorem session_events_typed_witness:
  "ev_SessionID (events_of (calls (snd sample_run)) ! 2) = ''unknown'' \<and>
   ev_Type (events_of (calls (snd sample_run)) ! 2) = EventSessionUsageTick \<and>
   (\<exists>d. ev_Data (events_of (calls (snd sample_run)) ! 2) = UsageTick d \<and> ut_WorkUnits d = tick_units sample_module)"
proof -
  let ?ev = "events_of (calls (snd sample_run)) ! 2"
  have "?ev \<in> set (events_of (calls (snd sample_run)))"
    using sample_run_eq by (intro nth_mem) (simp add: sample_event_def)
  note typed = session_events_typed [OF sample_Serve this]
  have "\<exists>d. ev_Data ?ev = UsageTick d" using sample_run_eq by (simp add: sample_event_def)
  with typed show ?thesis by (auto simp: extractSessionID_def)
qed

end
