(* ===== verification/Session_Funding.thy ===== *)
theory Session_Funding
  imports Charging
begin

text \<open>
  How a session ends when the money runs out. The locale \<open>grace_end\<close> has a session whose checks of the
  runway fail when the funds are poor, and whose collaborators, debits apart, do not touch the funds; in it the
  next tick puts the session into the low-balance state, the session stays there, and the grace timer ends it. It
  needs nothing of the balances that debits answer, so it holds of the production client, which loses their
  sign. The funds are those of the daemon's ledger, as theory \<open>Charging\<close> accounts for them.
\<close>

section \<open>Running a session piece by piece\<close>

lemma loop_append:
  "loop env (xs @ ys) s = (Ret StillRunning, s') \<longleftrightarrow>
     (\<exists>t. loop env xs s = (Ret StillRunning, t) \<and> loop env ys t = (Ret StillRunning, s'))"
  by (induction xs arbitrary: s) (auto simp: loop_Cons andThen_eq split: option.split_asm)

lemma loop_one:
  "loop env [i] s = (Ret StillRunning, s') \<longleftrightarrow>
     loopStep env i (s\<lparr>world := SelectWait (se_ctx env) i (world s)\<rparr>) = (Ret None, s')"
  by (auto simp: loop_Cons andThen_eq split: option.split_asm)

lemma serveBody_loop:
  "serveBody env req url inputs s = (Ret StillRunning, s') \<longleftrightarrow>
     (\<exists>t. serveBody env req url [] s = (Ret StillRunning, t) \<and> loop env inputs t = (Ret StillRunning, s'))"
  by (auto simp: serveBody_def runLoop_def andThen_eq deferred_eq stopTicker_def split: option.split_asm if_split_asm)

lemma Serve_serveBody:
  "Serve ctx m req (Some ps) inputs w = (Ret StillRunning, s) \<longleftrightarrow>
     md_BackendURL m \<noteq> '''' \<and>
     serveBody (serve_env ctx m req ps) req (backendURLForRequest req (md_BackendURL m)) inputs (new_session w) = (Ret StillRunning, s)"
proof -
  have "serveDefer env r t = (Ret StillRunning, s) \<longleftrightarrow> r = Ret StillRunning \<and> t = s" for env :: "'a sessionEnv" and r t
    by (auto simp: serveDefer_def cleanup_def andThen_eq split: outcome.split_asm serve_result.split_asm)
  then show ?thesis by (auto simp: Serve_def Let_def deferred_eq)
qed

lemma Serve_append:
  "Serve ctx m req (Some ps) (xs @ ys) w = (Ret StillRunning, s) \<longleftrightarrow>
     (\<exists>t. Serve ctx m req (Some ps) xs w = (Ret StillRunning, t) \<and> loop (serve_env ctx m req ps) ys t = (Ret StillRunning, s))"
  unfolding Serve_serveBody serveBody_loop [where inputs = "xs @ ys"] serveBody_loop [where inputs = xs] loop_append by blast

lemma Serve_running_idle:
  assumes "Serve ctx m req (Some ps) inputs w = (Ret StillRunning, s)"
  shows "idle (serve_env ctx m req ps) s"
proof -
  have "md_BackendURL m \<noteq> ''''" using assms by (simp add: Serve_serveBody)
  from Serve_run [OF assms this] show ?thesis by (simp add: serve_post_def)
qed

section \<open>Low funds\<close>

text \<open>The daemon answered every check.\<close>

fun unanswered :: "call \<Rightarrow> bool" where
  "unanswered (Called_Sufficient u (Ret (Inl e))) = True"
| "unanswered (Called_Sufficient u (Panic p)) = True"
| "unanswered c = False"

definition answered :: "call list \<Rightarrow> bool" where
  "answered cs \<longleftrightarrow> \<not> list_ex unanswered cs"

lemma unanswered_iff: "unanswered c \<longleftrightarrow> (\<exists>u x. c = Called_Sufficient u x \<and> (\<forall>ok. x \<noteq> Ret (Inr ok)))"
  by (cases c rule: unanswered.cases) auto

definition same_funds :: "('w \<Rightarrow> 'f) \<Rightarrow> 'w session \<Rightarrow> 'w session \<Rightarrow> bool" where
  "same_funds funds s s' \<longleftrightarrow> funds (world s') = funds (world s)"

locale grace_end =
  fixes env :: "'w sessionEnv" and funds :: "'w \<Rightarrow> 'f" and poor :: "'f \<Rightarrow> bool"
  assumes others_funds: "others_keep (\<lambda>w w'. funds w' = funds w) (se_ctx env) (se_cfg env)"
    and check_funds: "Sufficient (se_ps env) u w = (rs, w') \<Longrightarrow> funds w' = funds w"
    and check_poor: "Sufficient (se_ps env) (md_RunwayMinUnits (se_cfg env)) w = (Ret (Inr ok), w') \<Longrightarrow>
          poor (funds w) \<Longrightarrow> \<not> ok"
begin

lemma same_funds_invoke: "(\<And>w r w'. op w = (r, w') \<Longrightarrow> funds w' = funds w) \<Longrightarrow> keeps (same_funds funds) (invoke op mk)"
  by (auto simp: keeps_def same_funds_def invoke_eq)

lemma same_funds_quiet: "(\<And>w r w'. f w = (r, w') \<Longrightarrow> funds w' = funds w) \<Longrightarrow> keeps (same_funds funds) (quiet f)"
  by (auto simp: keeps_def same_funds_def quiet_eq)

lemma others_funds_eq:
  "Send (md_Bridge (se_cfg env)) ev w = (re, w') \<Longrightarrow> funds w' = funds w"
  "Bridge_Close (md_Bridge (se_cfg env)) w = (re, w') \<Longrightarrow> funds w' = funds w"
  "Backend_OpenSession (md_Backend (se_cfg env)) req url w = (re, w') \<Longrightarrow> funds w' = funds w"
  "Now (md_Clock (se_cfg env)) w = (rn, w') \<Longrightarrow> funds w' = funds w"
  "Ticker (md_Clock (se_cfg env)) d w = (rt, w') \<Longrightarrow> funds w' = funds w"
  "md_IDGen (se_cfg env) = Some g \<Longrightarrow> g w = (rg, w') \<Longrightarrow> funds w' = funds w"
  "RetryWait (se_ctx env) d w = (rr, w') \<Longrightarrow> funds w' = funds w"
  "funds (SelectWait (se_ctx env) i w) = funds w"
  using others_funds unfolding others_keep_def by (metis snd_conv)+

end

sublocale grace_end \<subseteq> calm_relation "same_funds funds" env
proof
  show "same_funds funds s s" for s by (simp add: same_funds_def)
  show "same_funds funds s t \<Longrightarrow> same_funds funds t u \<Longrightarrow> same_funds funds s u" for s t u by (simp add: same_funds_def)
  show "keeps (same_funds funds) (emit env et ed)" for et ed
    by (rule emit_keeps)
       (unfold_locales, auto simp: same_funds_def intro: others_funds_eq intro!: same_funds_quiet same_funds_invoke)
qed (auto simp: selectWait_def same_funds_def intro: others_funds_eq check_funds intro!: same_funds_quiet same_funds_invoke)

context grace_end
begin

lemma psSufficient_poor:
  assumes "psSufficient env s = (Ret (Inr ok), t)" and "poor (funds (world s))"
  shows "\<not> ok"
  using assms check_poor by (auto simp: psSufficient_def invoke_eq)

text \<open>A check with poor funds leaves the session in the low-balance state.\<close>

lemma tickSufficient_low:
  assumes run: "tickSufficient env b s = (Ret None, s')" and poor: "poor (funds (world s))" and ans: "answered (calls s')"
  shows "inLowBalance s'"
proof -
  obtain r w where op: "Sufficient (se_ps env) (md_RunwayMinUnits (se_cfg env)) (world s) = (r, w)" by fastforce
  let ?c = "Called_Sufficient (md_RunwayMinUnits (se_cfg env)) r"
  let ?t = "s\<lparr>world := w, calls := calls s @ [?c]\<rparr>"
  have ps: "psSufficient env s = (r, ?t)" using op by (simp add: psSufficient_def invoke_def)
  obtain ok where r: "r = Ret (Inr ok)"
  proof (cases r)
    case (Panic p)
    with run ps show ?thesis by (simp add: tickSufficient_def andThen_def)
  next
    case (Ret x)
    with run ps ans that show ?thesis
      by (cases x) (auto simp: tickSufficient_def andThen_def ret_def answered_def unanswered_iff)
  qed
  have "\<not> ok" using psSufficient_poor ps poor unfolding r by blast
  then show ?thesis
    using run ps by (auto simp: tickSufficient_def andThen_eq enterLowBalance_def r frame_def split: if_split_asm dest!: emitD)
qed

lemma tick_low:
  assumes run: "tick env s = (Ret None, s')" and poor: "poor (funds (world s'))" and ans: "answered (calls s')"
  shows "inLowBalance s'"
proof -
  from run obtain b t where t: "tickSufficient env b t = (Ret None, s')"
    by (auto simp: tick_def andThen_eq Let_def split_sum_ex split: sum.split_asm if_split_asm)
  then have "same_funds funds t s'" by (rule keepsD [OF keeps_tickSufficient])
  with tickSufficient_low [OF t _ ans] poor show ?thesis by (simp add: same_funds_def)
qed

lemma step_low:
  assumes run: "loopStep env i s = (Ret None, s')" and poor: "poor (funds (world s'))" and ans: "answered (calls s')"
    and low: "i = TickFired \<or> inLowBalance s \<and> graceTimerCh s \<noteq> None"
  shows "inLowBalance s' \<and> i \<noteq> GraceFired"
proof (cases "i = TickFired")
  case True
  with run have "tick env s = (Ret None, s')" by (auto simp: loopStep_def andThen_eq split: option.split_asm)
  with True tick_low poor ans show ?thesis by simp
next
  case False
  then have "same_funds funds s s'" using run by (rule keepsD [OF keeps_calmStep])
  with poor have now: "poor (funds (world s))" by (simp add: same_funds_def)
  have "i \<noteq> GraceFired"
  proof
    assume "i = GraceFired"
    with run low False obtain t where ps: "psSufficient env s = (Ret (Inr True), t)"
      by (auto simp: loopStep_def andThen_eq checkSufficientNoEmit_def split_sum_ex split: option.split_asm if_split_asm sum.split_asm)
    from psSufficient_poor [OF this now] show False by simp
  qed
  with run low False show ?thesis
    by (cases i) (auto simp: loopStep_def andThen_eq recordEnd_def split: if_split_asm)
qed

end

section \<open>The daemon's ledger\<close>

definition below_runway :: "'w Module \<Rightarrow> ledger \<Rightarrow> bool" where
  "below_runway m L \<longleftrightarrow> fst (snd L) < snd (snd L) * sint (md_RunwayMinUnits m)"

lemma adapter_grace_end:
  assumes c: "payee_sufficiency c sender balance charged price"
    and others: "credits_ledger {0} (session_ledger balance charged price workID) ctx m"
  shows "grace_end (serve_env ctx m req (newPaymentSessionAdapter c sender workID onClose))
           (session_ledger balance charged price workID) (below_runway m)"
proof
  let ?led = "session_ledger balance charged price workID"
  let ?env = "serve_env ctx m req (newPaymentSessionAdapter c sender workID onClose)"
  have ledger: "payee_ledger c sender balance charged price" using c by (simp add: payee_sufficiency_def)
  show "others_keep (\<lambda>w w'. ?led w' = ?led w) (se_ctx ?env) (se_cfg ?env)"
    using others by (simp add: serve_env_def credits_ledger_def others_keep_def credited_def)
  show "Sufficient (se_ps ?env) u w = (rs, w') \<Longrightarrow> ?led w' = ?led w" for u w rs w'
    using charging.sufficient_led [OF ledger_charging [OF ledger others]] by blast
  show "\<not> ok" if suff: "Sufficient (se_ps ?env) (md_RunwayMinUnits (se_cfg ?env)) w = (Ret (Inr ok), w')"
    and poor: "below_runway m (?led w)" for w ok w'
  proof -
    from suff obtain s d where "SufficientBalance c sender workID (sint (md_RunwayMinUnits m)) (sv_payee (st_server w)) = (Inr s, d)"
        "ok = sb_Sufficient s"
      by (auto simp: serve_env_def newPaymentSessionAdapter_def adapter_Sufficient_def on_payee_eq
          split: prod.split_asm sum.split_asm)
    with payee_sufficiency.sufficient_value [OF c] poor show ?thesis
      by (fastforce simp: below_runway_def session_ledger_def Let_def)
  qed
qed

text \<open>The calls of a run that goes on only grow.\<close>

lemma loop_calls: "loop env is s = (Ret StillRunning, s') \<Longrightarrow> answered (calls s') \<Longrightarrow> answered (calls s)"
  using loop_paid [of env "is" s s'] by (auto simp: paid_ticks_def answered_def)

lemma Serve_low:
  fixes w :: "('d, 'r) stream_world"
  assumes client: "payee_sufficiency c sender balance charged price"
    and others: "credits_ledger {0} (session_ledger balance charged price workID) ctx m"
    and fresh: "\<forall>q. charged (sv_payee (st_server w)) workID q = None"
    and cost: "cost = price (sv_payee (st_server w)) workID * sint (tick_units m)" "0 \<le> cost"
    and poor: "balance (sv_payee (st_server w)) workID - cost * int (count_list xs TickFired + 1)
        < price (sv_payee (st_server w)) workID * sint (md_RunwayMinUnits m)"
    and run: "Serve ctx m req (Some (newPaymentSessionAdapter c sender workID onClose)) (xs @ TickFired # ys) w = (Ret StillRunning, s)"
    and no_wrap: "count_list (xs @ TickFired # ys) TickFired < 2 ^ 64"
    and ans: "answered (calls s)"
  shows "inLowBalance s \<and> GraceFired \<notin> set ys"
  using run no_wrap ans
proof (induction ys arbitrary: s rule: rev_induct)
  let ?led = "session_ledger balance charged price workID :: ('d, 'r) stream_world \<Rightarrow> ledger"
  let ?ps = "newPaymentSessionAdapter c sender workID onClose"
  let ?env = "serve_env ctx m req ?ps"
  have ledger: "payee_ledger c sender balance charged price" using client by (simp add: payee_sufficiency_def)
  have step: "inLowBalance s \<and> i \<noteq> GraceFired"
    if run: "Serve ctx m req (Some ?ps) (zs @ [i]) w = (Ret StillRunning, s)"
      and ticks: "count_list xs TickFired < count_list (zs @ [i]) TickFired" "count_list (zs @ [i]) TickFired < 2 ^ 64"
      and ans: "answered (calls s)" and prefix: "Serve ctx m req (Some ?ps) zs w = (Ret StillRunning, t)"
      and low: "i = TickFired \<or> inLowBalance t" for zs i s t
  proof -
    from run prefix have last: "loop ?env [i] t = (Ret StillRunning, s)" by (auto simp: Serve_append)
    have "\<And>a b :: int. a \<in> {0} \<Longrightarrow> b \<in> {0} \<Longrightarrow> a + b \<in> {0}" by simp
    note now = running_balance [OF ledger others _ this run fresh ticks(2)]
    have "cost * int (count_list xs TickFired + 1) \<le> cost * int (count_list (zs @ [i]) TickFired)"
      using ticks(1) cost(2) by (intro mult_left_mono) simp_all
    with now poor have poor': "below_runway m (?led (world s))"
      by (simp add: below_runway_def session_ledger_def Let_def cost(1))
    have "graceTimerCh t \<noteq> None \<longleftrightarrow> inLowBalance t" using Serve_running_idle [OF prefix] by (simp add: idle_def)
    with grace_end.step_low [OF adapter_grace_end [OF client others] last [unfolded loop_one] poor' ans] low
    show ?thesis by auto
  qed
  {
    case Nil
    then obtain t where "Serve ctx m req (Some ?ps) xs w = (Ret StillRunning, t)" by (auto simp: Serve_append)
    from step [OF _ _ _ _ this] Nil show ?case by simp
  next
    case (snoc y ys)
    let ?zs = "xs @ TickFired # ys"
    have run: "Serve ctx m req (Some ?ps) (?zs @ [y]) w = (Ret StillRunning, s)" using snoc.prems(1) by simp
    then obtain t where t: "Serve ctx m req (Some ?ps) ?zs w = (Ret StillRunning, t)" "loop ?env [y] t = (Ret StillRunning, s)"
      by (auto simp only: Serve_append)
    have "inLowBalance t \<and> GraceFired \<notin> set ys"
      using snoc.prems(2,3) by (intro snoc.IH [OF t(1) _ loop_calls [OF t(2)]]) auto
    with step [OF run _ _ snoc.prems(3) t(1)] snoc.prems(2) show ?case by auto
  }
qed

section \<open>Properties\<close>

text \<open>C5: A session that is not topped up ends. Take a daemon client that keeps the ledger contract and answers checks of
  the runway truly (nothing is assumed of the balances that debits answer, nor of \<open>CloseSession\<close>), a work id with
  no debit in the ledger yet, and collaborators that leave its ledger alone, so that nothing is credited. If the balance
  at the start, less the price of the ticks among the first inputs \<open>xs\<close> and of one more, does not cover the
  runway, the daemon answers every check, and after that next tick the grace timer fires, then the session is over: it does
  not go on serving on those inputs.\<close>

theorem unfunded_session_ends:
  fixes w :: "('d, 'r) stream_world"
  assumes client: "payee_sufficiency c sender balance charged price"
    and others: "credits_ledger {0} (session_ledger balance charged price workID) ctx m"
    and fresh: "\<forall>q. charged (sv_payee (st_server w)) workID q = None"
    and cost: "cost = price (sv_payee (st_server w)) workID * sint (tick_units m)" "0 \<le> cost"
    and poor: "balance (sv_payee (st_server w)) workID - cost * int (count_list xs TickFired + 1)
        < price (sv_payee (st_server w)) workID * sint (md_RunwayMinUnits m)"
    and grace: "GraceFired \<in> set ys" and no_wrap: "count_list (xs @ TickFired # ys) TickFired < 2 ^ 64"
    and run: "Serve ctx m req (Some (newPaymentSessionAdapter c sender workID onClose)) (xs @ TickFired # ys) w = (r, s)"
    and ans: "answered (calls s)"
  shows "r \<noteq> Ret StillRunning"
  using Serve_low [OF client others fresh cost poor _ no_wrap ans] run grace by blast

section \<open>A session that runs dry\<close>

text \<open>A balance of 200000 wei pays for one tick of 31250 wei, and then no longer covers the runway of 30 seconds.\<close>

definition dry_world :: "(Fake, unit) stream_world" where
  "dry_world = \<lparr>st_server = sample_running\<lparr>sv_payee := (sv_payee sample_running)\<lparr>fk_balances :=
     (fk_balances (sv_payee (sample_running :: (Fake, unit) server)))(balanceKey ''s'' ''w'' \<mapsto> 200000)\<rparr>\<rparr>, st_closed = False\<rparr>"

definition dry_run :: "serve_result outcome \<times> (Fake, unit) stream_world session" where
  "dry_run = Serve demo_ctx demo_module (Some sample_request)
     (Some (newPaymentSessionAdapter fakeClient ''s'' ''w'' (\<lambda>r. r))) ([] @ TickFired # [GraceFired]) dry_world"

lemma dry_run_answered: "answered (calls (snd dry_run))"
  by code_simp

lemma dry_start:
  "\<forall>q. fake_charged ''s'' (sv_payee (st_server dry_world)) ''w'' q = None"
  "BalanceFor (sv_payee (st_server dry_world)) ''s'' ''w'' = 200000"
  "fake_price (sv_payee (st_server dry_world)) ''w'' = 6250"
  by (simp_all add: dry_world_def fake_charged_def BalanceFor_def sample_running_def sample_fake_def fake_price_def
      bound_price_def NewFake_def)

interpretation dry: grace_end
    "serve_env demo_ctx (demo_module :: (Fake, 'r) stream_world Module) req
       (newPaymentSessionAdapter fakeClient sender workID onClose)"
    "session_ledger (\<lambda>d w. BalanceFor d sender w) (fake_charged sender) fake_price workID"
    "below_runway (demo_module :: (Fake, 'r) stream_world Module)"
  for sender :: bytes and workID :: string and req :: "Request option" and onClose :: "registry \<Rightarrow> registry"
  by (rule adapter_grace_end [OF fake_ledger.payee_sufficiency_axioms demo_credits]) simp

lemma demo_runway: "sint (md_RunwayMinUnits (demo_module :: (Fake, unit) stream_world Module)) = 30"
  by code_simp

theorem unfunded_session_ends_witness: "fst dry_run \<noteq> Ret StillRunning"
proof -
  have run: "Serve demo_ctx demo_module (Some sample_request)
      (Some (newPaymentSessionAdapter fakeClient ''s'' ''w'' (\<lambda>r. r))) ([] @ TickFired # [GraceFired]) dry_world
      = (fst dry_run, snd dry_run)" by (simp add: dry_run_def)
  have "200000 - 31250 * int (count_list [] TickFired + 1) < 6250 * (30 :: int)" by simp
  then show ?thesis
    by (intro unfunded_session_ends [OF fake_ledger.payee_sufficiency_axioms demo_credits dry_start(1) _ _ _ _ _ run dry_run_answered,
          of 31250])
       (simp_all add: dry_start demo_units demo_runway)
qed

end
