(* ===== verification/Shared_Work_Id.thy ===== *)
theory Shared_Work_Id
  imports Charging
begin

text \<open>
  Sessions that share a work id. The work id is the hash of the payment bytes (\<open>deriveWorkID\<close>)
  and the outcome of \<open>OpenSession\<close>, which says that the work id was open already, is ignored by the
  middleware; every session numbers its debits from one. The daemon's ledger takes a debit once
  per work id and number, so what one of two sessions debits under a number the other one has used is
  not charged again.
\<close>

section \<open>Another session on the same work id\<close>








section \<open>Properties\<close>


section \<open>Witness\<close>








end
