(* ===== verification/Lint.thy ===== *)
theory Lint
  imports Handlers
begin

text \<open>
  \<^verbatim>\<open>lint/payment-middleware-check\<close>: the repository's own check that no route under \<^verbatim>\<open>/v1/\<close> is
  registered without the payment middleware. It walks a source tree, parses every Go file outside
  \<^verbatim>\<open>vendor\<close>, \<^verbatim>\<open>.git\<close> and \<^verbatim>\<open>lint\<close>, and reports calls of a method \<open>Register\<close> with three arguments
  whose second is such a path. The file system is a tree with what reading a file or a directory
  answers; go/parser is a parameter, which yields the nodes of a file. A node is one of the three kinds the
  check looks at or any other, with its children in the order go/ast visits them. The
  wording of the report is left out.
\<close>

section \<open>Paths and string literals\<close>

definition HasPrefix :: "string \<Rightarrow> string \<Rightarrow> bool" where
  "HasPrefix s p = (take (length p) s = p)"

definition HasSuffix :: "string \<Rightarrow> string \<Rightarrow> bool" where
  "HasSuffix s p = (length p \<le> length s \<and> drop (length s - length p) s = p)"

text \<open>\<open>filepath.Join\<close> of a directory and a name: the lexically shortest form of their concatenation.\<close>

fun split_path :: "string \<Rightarrow> string list" where
  "split_path [] = [[]]"
| "split_path (c # s) =
     (if c = CHR ''/'' then [] # split_path s
      else case split_path s of [] \<Rightarrow> [[c]] | e # es \<Rightarrow> (c # e) # es)"

fun clean_elems :: "bool \<Rightarrow> string list \<Rightarrow> string list \<Rightarrow> string list" where
  "clean_elems rooted out [] = rev out"
| "clean_elems rooted out (e # es) =
     (if e = '''' \<or> e = ''.'' then clean_elems rooted out es
      else if e = ''..'' then
        (case out of
           [] \<Rightarrow> clean_elems rooted (if rooted then [] else [''..'']) es
         | x # out' \<Rightarrow> clean_elems rooted (if x = ''..'' then ''..'' # out else out') es)
      else clean_elems rooted (e # out) es)"

fun join_path :: "string list \<Rightarrow> string" where
  "join_path [] = ''''"
| "join_path [e] = e"
| "join_path (e # es) = e @ ''/'' @ join_path es"

definition filepath_Clean :: "string \<Rightarrow> string" where
  "filepath_Clean path =
     (let rooted = HasPrefix path ''/'';
          body = join_path (clean_elems rooted [] (split_path path))
      in if rooted then ''/'' @ body else if body = '''' then ''.'' else body)"

definition filepath_Join :: "string \<Rightarrow> string \<Rightarrow> string" where
  "filepath_Join dir name =
     (if dir = '''' then filepath_Clean name else filepath_Clean (dir @ ''/'' @ name))"

text \<open>
  UTF-8: the length of the encoding a byte sequence starts with, \<open>None\<close> when it starts with none, and the
  encoding of a code point.
\<close>

definition cont_byte :: "nat \<Rightarrow> nat \<Rightarrow> char \<Rightarrow> bool" where
  "cont_byte lo hi c = (lo \<le> of_char c \<and> of_char c \<le> hi)"

definition rune_len :: "bytes \<Rightarrow> nat option" where
  "rune_len s =
     (case s of
        [] \<Rightarrow> None
      | c # rest \<Rightarrow>
          let b = (of_char c :: nat);
              follows = (\<lambda>lo hi k. length rest \<ge> k \<and> cont_byte lo hi (hd rest) \<and>
                                   list_all (cont_byte 128 191) (take (k - 1) (tl rest)))
          in if b < 128 then Some 1
             else if 194 \<le> b \<and> b \<le> 223 \<and> follows 128 191 1 then Some 2
             else if b = 224 \<and> follows 160 191 2 \<or> b = 237 \<and> follows 128 159 2 \<or>
                     225 \<le> b \<and> b \<le> 239 \<and> b \<noteq> 237 \<and> follows 128 191 2 then Some 3
             else if b = 240 \<and> follows 144 191 3 \<or> 241 \<le> b \<and> b \<le> 243 \<and> follows 128 191 3 \<or>
                     b = 244 \<and> follows 128 143 3 then Some 4
             else None)"

function utf8_valid :: "bytes \<Rightarrow> bool" where
  "utf8_valid [] = True"
| "utf8_valid (c # s) = (case rune_len (c # s) of None \<Rightarrow> False | Some n \<Rightarrow> utf8_valid (drop (n - 1) s))"
  by pat_completeness auto
termination by (relation "measure length") auto

definition encode_rune :: "nat \<Rightarrow> bytes" where
  "encode_rune r =
     (if r < 128 then [char_of r]
      else if r < 2048 then [char_of (192 + r div 64), char_of (128 + r mod 64)]
      else if r < 65536 then
        [char_of (224 + r div 4096), char_of (128 + r div 64 mod 64), char_of (128 + r mod 64)]
      else [char_of (240 + r div 262144), char_of (128 + r div 4096 mod 64),
            char_of (128 + r div 64 mod 64), char_of (128 + r mod 64)])"

definition ValidRune :: "nat \<Rightarrow> bool" where
  "ValidRune r = (r < 55296 \<or> 57343 < r \<and> r \<le> 1114111)"

text \<open>\<open>strconv.UnquoteChar\<close>: the bytes that the first character or escape stands for, and the rest.\<close>

fun hex_number :: "nat \<Rightarrow> string \<Rightarrow> nat option" where
  "hex_number acc [] = Some acc"
| "hex_number acc (c # s) = (case hex_val c of None \<Rightarrow> None | Some d \<Rightarrow> hex_number (16 * acc + d) s)"

definition octal_val :: "char \<Rightarrow> nat option" where
  "octal_val c = (let n = (of_char c :: nat) in if 48 \<le> n \<and> n \<le> 55 then Some (n - 48) else None)"

definition simple_escape :: "char \<Rightarrow> nat option" where
  "simple_escape c =
     map_of [(CHR ''a'', 7), (CHR ''b'', 8), (CHR ''f'', 12), (CHR ''n'', 10), (CHR ''r'', 13),
             (CHR ''t'', 9), (CHR ''v'', 11), (CHR 0x5C, 92)] c"

definition unquote_escape :: "char \<Rightarrow> char \<Rightarrow> string \<Rightarrow> (bytes \<times> string) option" where
  "unquote_escape quote c s =
     (case simple_escape c of
        Some v \<Rightarrow> Some ([char_of v], s)
      | None \<Rightarrow>
          if c = CHR ''x'' then
            (if length s < 2 then None
             else map_option (\<lambda>v. ([char_of v], drop 2 s)) (hex_number 0 (take 2 s)))
          else if c = CHR ''u'' \<or> c = CHR ''U'' then
            (let n = (if c = CHR ''u'' then 4 else 8) in
             if length s < n then None
             else (case hex_number 0 (take n s) of
                     None \<Rightarrow> None
                   | Some v \<Rightarrow> if ValidRune v then Some (encode_rune v, drop n s) else None))
          else (case octal_val c of
            Some v \<Rightarrow>
              (case s of
                 d # e # rest \<Rightarrow>
                   (case (octal_val d, octal_val e) of
                      (Some x, Some y) \<Rightarrow>
                        if 64 * v + 8 * x + y > 255 then None else Some ([char_of (64 * v + 8 * x + y)], rest)
                    | _ \<Rightarrow> None)
               | _ \<Rightarrow> None)
          | None \<Rightarrow> if (c = CHR 0x27 \<or> c = CHR 0x22) \<and> c = quote then Some ([c], s) else None))"

definition UnquoteChar :: "char \<Rightarrow> string \<Rightarrow> (bytes \<times> string) option" where
  "UnquoteChar quote s =
     (case s of
        [] \<Rightarrow> None
      | c # rest \<Rightarrow>
          if c = quote then None
          else if 128 \<le> (of_char c :: nat) then
            (case rune_len s of
               None \<Rightarrow> Some (encode_rune 65533, rest)
             | Some n \<Rightarrow> Some (take n s, drop n s))
          else if c \<noteq> CHR 0x5C then Some ([c], rest)
          else case rest of [] \<Rightarrow> None | e # rest' \<Rightarrow> unquote_escape quote e rest')"

lemma rune_len_pos: "rune_len s = Some n \<Longrightarrow> 0 < n"
  by (auto simp: rune_len_def Let_def split: list.split_asm if_split_asm)

lemma unquote_escape_shorter: "unquote_escape q c s = Some (b, rest) \<Longrightarrow> length rest \<le> length s"
  by (auto simp: unquote_escape_def Let_def split: option.split_asm if_split_asm list.split_asm prod.split_asm)

lemma UnquoteChar_shorter: "UnquoteChar q s = Some (b, rest) \<Longrightarrow> length rest < length s"
  by (auto simp: UnquoteChar_def split: list.split_asm if_split_asm option.split_asm
      dest: unquote_escape_shorter rune_len_pos)

text \<open>The loop of \<open>strconv.Unquote\<close> on a double-quoted string, after the opening quote.\<close>

function unquote_loop :: "char \<Rightarrow> string \<Rightarrow> bytes option" where
  "unquote_loop quote [] = None"
| "unquote_loop quote (c # s) =
     (if c = quote then (if s = [] then Some [] else None)
      else if c = CHR 0x0A then None
      else case UnquoteChar quote (c # s) of
        None \<Rightarrow> None
      | Some (b, rest) \<Rightarrow> map_option ((@) b) (unquote_loop quote rest))"
  by pat_completeness auto
termination by (relation "measure (\<lambda>(q, s). length s)") (auto dest: UnquoteChar_shorter)

declare unquote_loop.simps [simp del]

definition Unquote :: "string \<Rightarrow> bytes option" where
  \<comment> \<open>of the literal of a \<open>token.STRING\<close>, which starts with a back quote or a double quote\<close>
  "Unquote lit =
     (case lit of
        [] \<Rightarrow> None
      | quote # s \<Rightarrow>
          let body = takeWhile (\<lambda>c. c \<noteq> quote) s; rest = drop (length body) s in
          if rest = [] then None
          else if quote = CHR 0x60 then
            (if tl rest = [] then Some (filter (\<lambda>c. c \<noteq> CHR 0x0D) body) else None)
          else if quote \<noteq> CHR 0x22 then None
          else if CHR 0x5C \<notin> set body \<and> CHR 0x0A \<notin> set body \<and> utf8_valid body
          then (if tl rest = [] then Some body else None)
          else unquote_loop quote s)"

section \<open>Checking a file\<close>

datatype lit_kind = token_STRING | token_other

record position =
  ps_Filename :: string
  ps_Line :: int

datatype node =
    CallExpr position node "node list"
  | SelectorExpr node string
  | BasicLit lit_kind string
  | OtherNode "node list"

record finding =
  fi_File :: string
  fi_Line :: int
  fi_Path :: string

definition allowedUnpaidV1Paths :: "string set" where
  "allowedUnpaidV1Paths = {''/v1/payment/ticket-params''}"

text \<open>The function \<open>checkFile\<close> passes to \<open>ast.Inspect\<close>: what it appends for one node. It always
  returns true, so every child is visited.\<close>

definition inspect_node :: "node \<Rightarrow> finding list" where
  "inspect_node n =
     (case n of
        CallExpr pos fn args \<Rightarrow>
          (case fn of
             SelectorExpr x sel \<Rightarrow>
               if sel \<noteq> ''Register'' then []
               else if length args \<noteq> 3 then []
               else (case args ! 1 of
                       BasicLit kind value \<Rightarrow>
                         if kind \<noteq> token_STRING then []
                         else (case Unquote value of
                                 None \<Rightarrow> []
                               | Some pathStr \<Rightarrow>
                                   if \<not> HasPrefix pathStr ''/v1/'' then []
                                   else if pathStr \<in> allowedUnpaidV1Paths then []
                                   else [\<lparr>fi_File = ps_Filename pos, fi_Line = ps_Line pos, fi_Path = pathStr\<rparr>])
                     | _ \<Rightarrow> [])
           | _ \<Rightarrow> [])
      | _ \<Rightarrow> [])"

text \<open>\<open>ast.Inspect\<close>: depth first, a node before its children.\<close>

fun Inspect :: "(node \<Rightarrow> finding list) \<Rightarrow> node \<Rightarrow> finding list" where
  "Inspect f (CallExpr pos fn args) = f (CallExpr pos fn args) @ Inspect f fn @ concat (map (Inspect f) args)"
| "Inspect f (SelectorExpr x sel) = f (SelectorExpr x sel) @ Inspect f x"
| "Inspect f (BasicLit kind value) = f (BasicLit kind value)"
| "Inspect f (OtherNode ns) = f (OtherNode ns) @ concat (map (Inspect f) ns)"

record lint_env =
  le_ReadFile :: "string \<Rightarrow> goerr + bytes"
  le_ParseFile :: "string \<Rightarrow> bytes \<Rightarrow> goerr + node"

definition checkFile :: "lint_env \<Rightarrow> string \<Rightarrow> goerr + finding list" where
  "checkFile env path =
     (case le_ReadFile env path of
        Inl err \<Rightarrow> Inl err
      | Inr src \<Rightarrow>
          (case le_ParseFile env path src of
             Inl err \<Rightarrow> Inl err
           | Inr ast \<Rightarrow> Inr (Inspect inspect_node ast)))"

section \<open>Walking the tree\<close>

text \<open>An entry of a directory; a directory has the error of reading it, if any, and its entries in
  lexical order.\<close>

datatype entry = FileEntry string | DirEntry string "goerr option" "entry list"

fun entry_Name :: "entry \<Rightarrow> string" where
  "entry_Name (FileEntry name) = name"
| "entry_Name (DirEntry name err es) = name"

datatype walk_signal = Continue | SkipDir | Fail goerr

text \<open>The function \<open>checkTree\<close> passes to \<open>filepath.WalkDir\<close>, on an entry that could be read, and
  the findings so far.\<close>

definition visit :: "lint_env \<Rightarrow> string \<Rightarrow> entry \<Rightarrow> finding list \<Rightarrow> walk_signal \<times> finding list" where
  "visit env path e out =
     (case e of
        DirEntry base err es \<Rightarrow> (if base \<in> {''vendor'', ''.git'', ''lint''} then SkipDir else Continue, out)
      | FileEntry name \<Rightarrow>
          if \<not> HasSuffix path ''.go'' then (Continue, out)
          else (case checkFile env path of
                  Inl ferr \<Rightarrow> (Fail ferr, out)
                | Inr found \<Rightarrow> (Continue, out @ found)))"

text \<open>\<open>filepath.WalkDir\<close> below its root. When a directory cannot be read, the function is called again
  with that error, which it returns.\<close>

fun walkDir :: "lint_env \<Rightarrow> string \<Rightarrow> entry \<Rightarrow> finding list \<Rightarrow> goerr option \<times> finding list"
  and walkEntries :: "lint_env \<Rightarrow> string \<Rightarrow> entry list \<Rightarrow> finding list \<Rightarrow> goerr option \<times> finding list"
where
  "walkDir env path (FileEntry name) out =
     (case visit env path (FileEntry name) out of
        (Fail err, out') \<Rightarrow> (Some err, out')
      | (_, out') \<Rightarrow> (None, out'))"
| "walkDir env path (DirEntry name err es) out =
     (case visit env path (DirEntry name err es) out of
        (Fail ferr, out') \<Rightarrow> (Some ferr, out')
      | (SkipDir, out') \<Rightarrow> (None, out')
      | (Continue, out') \<Rightarrow>
          (case err of Some rerr \<Rightarrow> (Some rerr, out') | None \<Rightarrow> walkEntries env path es out'))"
| "walkEntries env path [] out = (None, out)"
| "walkEntries env path (e # es) out =
     (case walkDir env (filepath_Join path (entry_Name e)) e out of
        (Some err, out') \<Rightarrow> (Some err, out')
      | (None, out') \<Rightarrow> walkEntries env path es out')"

text \<open>\<open>root\<close> is what \<open>Lstat\<close> of the root answers.\<close>

definition checkTree :: "lint_env \<Rightarrow> string \<Rightarrow> goerr + entry \<Rightarrow> finding list \<times> goerr option" where
  "checkTree env root lstat =
     (case lstat of
        Inl err \<Rightarrow> ([], Some err)
      | Inr e \<Rightarrow> (case walkDir env root e [] of (err, out) \<Rightarrow> (out, err)))"

text \<open>The exit code of the command.\<close>

definition lint_exit :: "lint_env \<Rightarrow> string \<Rightarrow> goerr + entry \<Rightarrow> int" where
  "lint_exit env root lstat =
     (case checkTree env root lstat of
        (findings, Some err) \<Rightarrow> 2
      | (findings, None) \<Rightarrow> if findings \<noteq> [] then 1 else 0)"

section \<open>What the check means\<close>

text \<open>The files the check is about, and the nodes of a file.\<close>

inductive in_scope :: "string \<Rightarrow> entry \<Rightarrow> string \<Rightarrow> bool" where
  scope_file: "HasSuffix path ''.go'' \<Longrightarrow> in_scope path (FileEntry name) path"
| scope_dir: "e \<in> set es \<Longrightarrow> name \<notin> {''vendor'', ''.git'', ''lint''} \<Longrightarrow>
    in_scope (filepath_Join path (entry_Name e)) e p \<Longrightarrow> in_scope path (DirEntry name err es) p"

inductive_cases in_scope_FileE: "in_scope path (FileEntry name) p"
inductive_cases in_scope_DirE: "in_scope path (DirEntry name err es) p"

inductive occurs :: "node \<Rightarrow> node \<Rightarrow> bool" where
  occurs_self: "occurs n n"
| occurs_fun: "occurs m f \<Longrightarrow> occurs m (CallExpr pos f args)"
| occurs_arg: "occurs m a \<Longrightarrow> a \<in> set args \<Longrightarrow> occurs m (CallExpr pos f args)"
| occurs_sel: "occurs m x \<Longrightarrow> occurs m (SelectorExpr x sel)"
| occurs_other: "occurs m n \<Longrightarrow> n \<in> set ns \<Longrightarrow> occurs m (OtherNode ns)"

text \<open>A call that registers a path under \<^verbatim>\<open>/v1/\<close> without payment.\<close>

definition registers_unpaid :: "node \<Rightarrow> string \<Rightarrow> position \<Rightarrow> bool" where
  "registers_unpaid n p pos \<longleftrightarrow>
     (\<exists>x method lit handler. n = CallExpr pos (SelectorExpr x ''Register'') [method, BasicLit token_STRING lit, handler] \<and>
        Unquote lit = Some p \<and> HasPrefix p ''/v1/'' \<and> p \<notin> allowedUnpaidV1Paths)"

lemma inspect_node_iff:
  "f \<in> set (inspect_node n) \<longleftrightarrow>
     (\<exists>pos. registers_unpaid n (fi_Path f) pos \<and> fi_File f = ps_Filename pos \<and> fi_Line f = ps_Line pos)"
proof
  assume "f \<in> set (inspect_node n)"
  then have hit: "inspect_node n \<noteq> []" and mem: "f \<in> set (inspect_node n)" by auto
  from hit obtain pos fn args where n1: "n = CallExpr pos fn args" by (cases n) (auto simp: inspect_node_def)
  with hit obtain x sel where n2: "fn = SelectorExpr x sel" by (cases fn) (auto simp: inspect_node_def)
  with hit n1 have n3: "sel = ''Register''" "length args = 3" by (auto simp: inspect_node_def split: if_split_asm)
  with hit n1 n2 obtain k lit where lit: "args ! 1 = BasicLit k lit"
    by (cases "args ! 1") (auto simp: inspect_node_def)
  with hit n1 n2 n3 have k: "k = token_STRING" by (auto simp: inspect_node_def split: if_split_asm)
  with hit n1 n2 n3 lit obtain p where p: "Unquote lit = Some p"
    by (cases "Unquote lit") (auto simp: inspect_node_def)
  with hit n1 n2 n3 lit k have p': "HasPrefix p ''/v1/''" "p \<notin> allowedUnpaidV1Paths"
    by (auto simp: inspect_node_def split: if_split_asm)
  with mem n1 n2 n3 lit k p have n: "n = CallExpr pos (SelectorExpr x ''Register'') args" "length args = 3"
      "args ! 1 = BasicLit token_STRING lit" "Unquote lit = Some p" "HasPrefix p ''/v1/''" "p \<notin> allowedUnpaidV1Paths"
      "f = \<lparr>fi_File = ps_Filename pos, fi_Line = ps_Line pos, fi_Path = p\<rparr>"
    by (auto simp: inspect_node_def)
  then obtain a b c where "args = [a, b, c]" by (auto simp: numeral_3_eq_3 length_Suc_conv)
  with n show "\<exists>pos. registers_unpaid n (fi_Path f) pos \<and> fi_File f = ps_Filename pos \<and> fi_Line f = ps_Line pos"
    unfolding registers_unpaid_def by auto
next
  assume "\<exists>pos. registers_unpaid n (fi_Path f) pos \<and> fi_File f = ps_Filename pos \<and> fi_Line f = ps_Line pos"
  then have "inspect_node n = [f]"
    by (cases f) (auto simp: inspect_node_def registers_unpaid_def)
  then show "f \<in> set (inspect_node n)" by simp
qed

inductive_simps occurs_simps: "occurs m (CallExpr pos f args)" "occurs m (SelectorExpr x sel)"
  "occurs m (BasicLit k v)" "occurs m (OtherNode ns)"

lemma Inspect_iff: "y \<in> set (Inspect f n) \<longleftrightarrow> (\<exists>m. occurs m n \<and> y \<in> set (f m))"
proof (induction f n rule: Inspect.induct)
  case (1 f pos fn args)
  have "y \<in> set (Inspect f (CallExpr pos fn args)) \<longleftrightarrow>
      y \<in> set (f (CallExpr pos fn args)) \<or> y \<in> set (Inspect f fn) \<or> (\<exists>a \<in> set args. y \<in> set (Inspect f a))"
    by simp
  with 1 show ?case by (auto simp: occurs_simps simp del: Inspect.simps)
next
  case (4 f ns)
  have "y \<in> set (Inspect f (OtherNode ns)) \<longleftrightarrow> y \<in> set (f (OtherNode ns)) \<or> (\<exists>a \<in> set ns. y \<in> set (Inspect f a))"
    by simp
  with 4 show ?case by (auto simp: occurs_simps simp del: Inspect.simps)
qed (auto simp: occurs_simps)

text \<open>What makes the walk give up: a file it has to check and cannot, or a directory it cannot read.\<close>

inductive broken :: "lint_env \<Rightarrow> string \<Rightarrow> entry \<Rightarrow> bool" for env :: lint_env where
  broken_file: "HasSuffix path ''.go'' \<Longrightarrow> checkFile env path = Inl err \<Longrightarrow> broken env path (FileEntry name)"
| broken_read: "name \<notin> {''vendor'', ''.git'', ''lint''} \<Longrightarrow> broken env path (DirEntry name (Some err) es)"
| broken_below: "e \<in> set es \<Longrightarrow> name \<notin> {''vendor'', ''.git'', ''lint''} \<Longrightarrow>
    broken env (filepath_Join path (entry_Name e)) e \<Longrightarrow> broken env path (DirEntry name err es)"

inductive_simps broken_simps: "broken env path (FileEntry name)" "broken env path (DirEntry name err es)"
inductive_simps in_scope_simps: "in_scope path (FileEntry name) p" "in_scope path (DirEntry name err es) p"

definition scope_findings :: "lint_env \<Rightarrow> string \<Rightarrow> entry \<Rightarrow> finding set" where
  "scope_findings env path e = {f. \<exists>p found. in_scope path e p \<and> checkFile env p = Inr found \<and> f \<in> set found}"

lemma scope_findings_File:
  "checkFile env path = Inr found \<Longrightarrow> HasSuffix path ''.go'' \<Longrightarrow> scope_findings env path (FileEntry name) = set found"
  "\<not> HasSuffix path ''.go'' \<Longrightarrow> scope_findings env path (FileEntry name) = {}"
  by (auto simp: scope_findings_def in_scope_simps)

lemma scope_findings_Dir:
  "scope_findings env path (DirEntry name err es) =
     (if name \<in> {''vendor'', ''.git'', ''lint''} then {}
      else \<Union>e \<in> set es. scope_findings env (filepath_Join path (entry_Name e)) e)"
  by (auto simp: scope_findings_def in_scope_simps)

text \<open>The walk succeeds exactly when nothing is broken, and then has added what there is to find.\<close>

lemma walk_exact:
  "(fst (walkDir env path e out) = None \<longleftrightarrow> \<not> broken env path e) \<and>
   (\<not> broken env path e \<longrightarrow> set (snd (walkDir env path e out)) = set out \<union> scope_findings env path e)"
  "(fst (walkEntries env path es out) = None \<longleftrightarrow>
      (\<forall>e \<in> set es. \<not> broken env (filepath_Join path (entry_Name e)) e)) \<and>
   ((\<forall>e \<in> set es. \<not> broken env (filepath_Join path (entry_Name e)) e) \<longrightarrow>
      set (snd (walkEntries env path es out)) =
        set out \<union> (\<Union>e \<in> set es. scope_findings env (filepath_Join path (entry_Name e)) e))"
proof (induction env path e out and env path es out rule: walkDir_walkEntries.induct)
  case (1 env path name out)
  show ?case
  proof (cases "HasSuffix path ''.go''")
    case True
    then show ?thesis
      by (cases "checkFile env path") (auto simp: visit_def broken_simps scope_findings_File)
  next
    case False
    then show ?thesis by (simp add: visit_def broken_simps scope_findings_File)
  qed
next
  case (2 env path name err es out)
  show ?case
  proof (cases "name \<in> {''vendor'', ''.git'', ''lint''}")
    case True
    then show ?thesis by (auto simp: visit_def broken_simps scope_findings_Dir)
  next
    case False
    then have v: "visit env path (DirEntry name err es) out = (Continue, out)" by (simp add: visit_def)
    show ?thesis
    proof (cases err)
      case None
      with 2 [OF v [symmetric] _ None] v False show ?thesis by (auto simp: broken_simps scope_findings_Dir)
    next
      case (Some e)
      with v False show ?thesis by (auto simp: broken_simps)
    qed
  qed
next
  case (3 env path out)
  then show ?case by simp
next
  case (4 env path e es out)
  obtain r out1 where w: "walkDir env (filepath_Join path (entry_Name e)) e out = (r, out1)" by fastforce
  show ?case
  proof (cases r)
    case None
    with 4 w show ?thesis by (auto simp: Un_assoc)
  next
    case (Some err)
    with 4(1) w show ?thesis by auto
  qed
qed

lemma Inspect_empty:
  "Inspect inspect_node ast = [] \<longleftrightarrow> \<not> (\<exists>n path pos. occurs n ast \<and> registers_unpaid n path pos)"
proof -
  have "Inspect inspect_node ast = [] \<longleftrightarrow> (\<forall>f. f \<notin> set (Inspect inspect_node ast))"
    by (metis equals0I set_empty list.set(1) empty_iff)
  also have "\<dots> \<longleftrightarrow> (\<forall>(f :: finding) n pos. occurs n ast \<longrightarrow> registers_unpaid n (fi_Path f) pos \<longrightarrow>
      fi_File f = ps_Filename pos \<longrightarrow> fi_Line f \<noteq> ps_Line (pos :: position))"
    by (auto simp: Inspect_iff inspect_node_iff)
  also have "\<dots> \<longleftrightarrow> \<not> (\<exists>n path pos. occurs n ast \<and> registers_unpaid n path pos)"
    by (metis finding.select_convs)
  finally show ?thesis .
qed

lemma scope_findings_iff:
  "scope_findings env root e = {} \<longleftrightarrow>
    \<not> (\<exists>p src ast n path pos. in_scope root e p \<and> le_ReadFile env p = Inr src \<and> le_ParseFile env p src = Inr ast \<and>
         occurs n ast \<and> registers_unpaid n path pos)"
proof -
  have "checkFile env p = Inr found \<longleftrightarrow> (\<exists>src ast. le_ReadFile env p = Inr src \<and> le_ParseFile env p src = Inr ast \<and>
      found = Inspect inspect_node ast)" for p found
    by (auto simp: checkFile_def split: sum.splits)
  moreover have "scope_findings env root e = {} \<longleftrightarrow>
      (\<forall>p found. in_scope root e p \<longrightarrow> checkFile env p = Inr found \<longrightarrow> set found = {})"
    unfolding scope_findings_def Collect_empty_eq by (metis empty_iff equals0I)
  ultimately have "scope_findings env root e = {} \<longleftrightarrow> (\<forall>p src ast. in_scope root e p \<longrightarrow> le_ReadFile env p = Inr src \<longrightarrow>
      le_ParseFile env p src = Inr ast \<longrightarrow> Inspect inspect_node ast = [])"
    by auto
  then show ?thesis unfolding Inspect_empty by blast
qed

section \<open>Properties\<close>

text \<open>C22: What the exit code of the lint command says. It is 2 exactly when the root is missing, or a
  directory it has to enter cannot be read, or a Go file it has to check cannot be read or parsed.
  Otherwise it is 1 exactly when some Go file, reached without entering a directory named vendor, .git or
  lint, holds anywhere in its syntax tree a call of a method \<open>Register\<close> with three arguments
  whose second is a string literal denoting a path under /v1/ that is not on the list of allowed ones; and
  0 otherwise.\<close>

theorem lint_exit_exact:
  "lint_exit env root lstat =
     (case lstat of
        Inl err \<Rightarrow> 2
      | Inr e \<Rightarrow>
          if broken env root e then 2
          else if \<exists>p src ast n path pos. in_scope root e p \<and> le_ReadFile env p = Inr src \<and>
               le_ParseFile env p src = Inr ast \<and> occurs n ast \<and> registers_unpaid n path pos
          then 1 else 0)"
proof (cases lstat)
  case (Inl err)
  then show ?thesis by (simp add: lint_exit_def checkTree_def)
next
  case (Inr e)
  obtain r out where w: "walkDir env root e [] = (r, out)" by fastforce
  with walk_exact(1) [of env root e "[]"] have r: "r = None \<longleftrightarrow> \<not> broken env root e"
    and out: "\<not> broken env root e \<Longrightarrow> set out = scope_findings env root e" by auto
  show ?thesis
  proof (cases "broken env root e")
    case True
    with r w Inr show ?thesis by (auto simp: lint_exit_def checkTree_def)
  next
    case False
    with r w Inr have "lint_exit env root lstat = (if out \<noteq> [] then 1 else 0)"
      by (simp add: lint_exit_def checkTree_def)
    moreover have "out = [] \<longleftrightarrow> scope_findings env root e = {}" using out [OF False] by (metis set_empty)
    ultimately show ?thesis using scope_findings_iff [of env root e] Inr False by auto
  qed
qed

text \<open>The routes that the worker registers without payment pass this rule.\<close>

lemma unpaid_handlers_allowed:
  assumes "RegisterUnpaidHandlers (NewMux cfg payee) = (Ret (), mux)"
    and "mx_inner mux (route_key method path) = Some UnpaidRoute" and "method \<in> {''GET'', ''POST''}"
    and "HasPrefix path ''/v1/''"
  shows "path \<in> allowedUnpaidV1Paths"
  using assms
  by (auto simp: RegisterUnpaidHandlers_def andThen_def Register_def NewMux_def Let_def route_key_def bind_route_def
      HasPrefix_def allowedUnpaidV1Paths_def split: if_split_asm)

end
