(* ===== verification/Spec2Isabelle.thy ===== *)
theory Spec2Isabelle
  imports Metrics_Concurrent Paid_In_System Payee_Wire Backend_Http Process Session_In_System Session_Events
    Session_Funding Shared_Work_Id Lint
begin

text \<open>
  \<^bold>\<open>Verification of the vtuber worker node\<close>

  The worker sells work of an inference backend against payments that a separate payment daemon
  (the receiver) accounts for. It is one process: an HTTP server whose handlers share a semaphore, a
  registry of running streaming sessions, one client of the payment daemon and one metrics
  recorder, and one goroutine per streaming session. Paths below are under \<^verbatim>\<open>src/\<close>.

  \<^bold>\<open>How the parts interact.\<close>
  At start-up (\<^verbatim>\<open>cmd/vtuber-worker-node/main.go\<close>) the flags are validated, the configuration is
  loaded, the daemon is dialled and its catalog compared with the configuration, the capability
  modules are registered and the mux is filled; the process then serves until a signal arrives or a
  server fails, shuts both servers down and exits. A one-shot paid request goes through
  \<open>paymentMiddleware\<close>: slot, payment header, route, open, process, debit of the estimate, the
  module's \<open>Serve\<close>, debit of the difference. A session-open request goes through
  \<open>streamingMiddleware\<close>: it opens a daemon session, processes the payment, registers the session
  and starts \<open>Serve\<close> of the session module in a goroutine that keeps the slot. That goroutine
  opens the backend, debits one tick of work per cadence through the payment session adapter, reports
  usage to the bridge, and at the end closes bridge and payment session. Top-up and end requests find
  a running session through the registry. Ticket parameters, health and the registry's view of the
  offerings are unpaid routes.

  \<^bold>\<open>Theories.\<close>

  \<^item> Prelude. \<open>Go_Base\<close>: bytes and strings, error values with their wrapping, machine integers
    (64-bit words, or \<open>int\<close> with the wrap written out), \<open>big.Int\<close> as \<open>int\<close> with its
    text and byte forms, base64, hex, headers. \<open>Effects\<close>: \<open>proc\<close>, a state transformer that returns
    or panics, \<open>deferred\<close>, and the locale \<open>step_relation\<close> that lifts a reflexive transitive relation
    on states from the steps of a procedure to the whole. \<open>Sha256\<close>: the hash of the work id.
  \<^item> \<open>Metrics\<close>: \<^verbatim>\<open>internal/providers/metrics\<close>. A recorder call is a value of \<open>metric_call\<close>, each of
    the three recorders a function that updates its state on one. \<open>Metrics_Concurrent\<close>: the label cap of the
    Prometheus counters when goroutines call \<open>allow\<close> at the same time, one atomic or map operation per step.
  \<^item> \<open>Payee\<close>, \<open>Payee_Fake\<close>, \<open>Payee_Wire\<close>: \<^verbatim>\<open>internal/providers/payeedaemon\<close>. The \<open>Client\<close> interface is
    a record of functions over the state of its implementation; \<open>Payee\<close> has the metrics decorator
    and the contract \<open>payee_ledger\<close> with its extensions, \<open>Payee_Fake\<close> the in-memory client of \<^verbatim>\<open>fake.go\<close>, \<open>Payee_Wire\<close> the
    production client of \<^verbatim>\<open>grpc.go\<close> over the message structs of \<^verbatim>\<open>internal/contract/paymentsv1\<close>.
  \<^item> \<open>Config\<close>: \<^verbatim>\<open>internal/config\<close>. Schema, validation in the order the code checks, projection,
    routing table, and the start-up comparison with the daemon's catalog.
  \<^item> \<open>Session_Deps\<close>, \<open>Session\<close>: \<^verbatim>\<open>internal/service/modules/vtuber_session\<close> and
    \<^verbatim>\<open>internal/service/modules/streaming.go\<close>. The collaborators (backend, bridge, payment session, id
    generator) as records of procedures, and the session of \<^verbatim>\<open>module.go\<close>: its mutable fields are the
    record \<open>session\<close>, each function of the file a \<open>proc\<close> over it.
  \<^item> \<open>Session_Protocol\<close>, \<open>Session_Theorems\<close>: the abstract specification of a session, an automaton
    over the calls it makes on its collaborators, the proof that \<open>Serve\<close> refines it, and what the
    automaton means for payer, backend and bridge.
  \<^item> \<open>Http\<close>: \<^verbatim>\<open>internal/runtime/http/mux.go\<close> and the shared parts of \<^verbatim>\<open>middleware.go\<close>. The record
    \<open>server\<close> is the state all handlers share; a handler is a \<open>proc\<close> over it.
  \<^item> \<open>Streaming\<close>: \<^verbatim>\<open>streaming.go\<close> and \<^verbatim>\<open>workid.go\<close> of the same directory, that is session open, top-up,
    end, and the adapter through which a session reaches the daemon.
  \<^item> \<open>Session_Relation\<close>: how a relation kept by the single calls of a session carries over to all of
    \<open>Serve\<close>; used for event ids, charging and the composition with the system.
  \<^item> \<open>Session_Events\<close>: the types and ids of the events a session sends.
  \<^item> \<open>Ledger_Path\<close>, \<open>Charging\<close>: the session's calls against the daemon's ledger, with top-ups arriving and
    other debits being taken while it runs. \<open>Session_Funding\<close>: the end of a session that runs dry.
    \<open>Shared_Work_Id\<close>: two sessions that run on one work id at the same time.
  \<^item> \<open>Paid_Route\<close>: \<open>paymentMiddleware\<close> and the module interface of \<^verbatim>\<open>service/modules/module.go\<close>.
  \<^item> \<open>Handlers\<close>: \<^verbatim>\<open>handlers.go\<close>, the unpaid routes.
  \<^item> \<open>Backend_Http\<close>: \<^verbatim>\<open>internal/providers/backendhttp\<close>.
  \<^item> \<open>Logging\<close>: log levels with their order, \<open>buildLogger\<close>, and the loggers of the metrics listener.
  \<^item> \<open>Listener\<close>: \<^verbatim>\<open>internal/runtime/metrics/listener.go\<close> and \<^verbatim>\<open>internal/runtime/http/server.go\<close>. The three
    goroutines of the listener's \<open>Serve\<close> are a step relation on the record \<open>ListenerState\<close>.
  \<^item> \<open>Startup\<close>: \<^verbatim>\<open>cmd/vtuber-worker-node/main.go\<close> up to the populated mux.
  \<^item> \<open>System\<close>: handlers and session goroutines interleaved, as a step relation on the shared state.
  \<^item> \<open>Session_In_System\<close>, \<open>Paid_In_System\<close>: a run of \<open>Serve\<close> amid the steps of the others, and a run of
    \<open>paymentMiddleware\<close>, as paths of that relation.
  \<^item> \<open>Process\<close>: the rest of \<open>run\<close> in \<^verbatim>\<open>main.go\<close>: the goroutines of \<open>main\<close>, of the HTTP server and of the
    metrics listener, signals and the uptime reporter beside the system, up to the exit code.
  \<^item> \<open>Lint\<close>: \<^verbatim>\<open>lint/payment-middleware-check\<close>, the repository's own check of route registrations, with
    the standard library's path cleaning and string unquoting it relies on.

  \<^bold>\<open>Interfaces.\<close>
  \<open>payee_ledger\<close> says what the worker relies on of a daemon for one sender: a debit is taken at most
  once per sequence number and at the price bound when the session was opened, a check takes nothing. It says
  nothing of the balances that debits answer and nothing of \<open>CloseSession\<close>, after which the daemon forgets the
  session and its credit (\<^verbatim>\<open>proto/livepeer/payments/v1/payee_daemon.proto\<close>); theorems about the ledger
  of a session speak of the state in which the closing found it. \<open>payee_sufficiency\<close> adds that a check answers
  truly, \<open>payee_answers\<close> that a debit answers the recorded balance with its sign. All three are interpreted on the
  in-memory client and, for every client that keeps them, on that client behind the metrics decorator; the
  production client over a daemon that keeps the first two keeps them, and no production client keeps the
  third, because the sign is lost on the way. \<open>payee_account\<close> extends the view to the calls of a
  one-shot request and is interpreted on the in-memory client. \<open>charging\<close> says what the collaborators
  of a session keep of a ledger; it follows from \<open>payee_ledger\<close> through the payment session
  adapter. \<open>grace_end\<close> says that the runway check fails on poor funds, which nothing but a debit changes;
  it follows from \<open>payee_sufficiency\<close>. \<open>step_relation\<close> is a reflexive and transitive relation on states,
  interpreted on the charge of a session, the frame of a paid request and the paths of the system.
  \<open>calm_relation\<close> extends it with what every call of a session but a debit and the closing keeps,
  \<open>session_relation\<close> with the debits, \<open>closing_relation\<close> with the closing; they are interpreted on the absence
  of debits, of the closing, on ledger paths through \<open>charging\<close>, on event ids and on system paths.

  \<^bold>\<open>What the lemmas show.\<close>

  \<^item> Session: every run, panics of collaborators included, follows the protocol. The end
    (session.ended, bridge close, payment close) happens once and in this order; debits are numbered
    without gaps and retried with the same number within the budget; usage reports follow the debits
    and add up; low-balance and refill events alternate; a run told to end returns. Every event is well
    typed and has its own id.
  \<^item> Money, for a work id without earlier debits and until the payment session is closed: a session costs the bound
    price times the tick units for each debit it saw succeed, and at most one debit more whose answer was lost,
    whatever is topped up meanwhile; a session that goes on has been charged for every tick, and is not
    overdrawn if debits answer the balance with its sign; without credits and with its checks answered
    it ends at the grace timer once the balance does not cover the runway. A one-shot request costs the price times the
    larger of estimated and actual units, and is served only when paid. Two sessions on one work id use the same
    debit numbers, so while both run they are charged together only for the longer one.
  \<^item> Slots and registry: what every handler does to them on each path, panics included, and the
    invariant of all interleavings; a run of a session is such an interleaving, and when it returns its
    slot and its registry entry are gone and the daemon was asked once to close its payment session; a paid
    request is one, and its slot is given back.
  \<^item> Process: exit code 0 means that a signal was received and the shutdown went through: both servers have
    returned and no paid request is in flight. A failure of the metrics listener that loses the select against a
    signal does not change it. After a signal the
    process exits within a bounded number of steps of its own, whatever requests, ticks and further
    signals come in between; the sessions that still run at the exit are abandoned.
  \<^item> Configuration and start-up: validation accepts exactly the well-formed documents, the routing
    table is exactly the document, the catalog check succeeds exactly on equal catalogs and never
    reads out of range, and start-up exits with an error or has checked all it promises.
  \<^item> Wire and text forms: round trips of prices, ticket parameters and ticket requests; redaction of
    bearer tokens; the sign that is lost when balances are read back; the clamp to 64 bits.
  \<^item> Lint: what its exit code says about the source tree.
  \<^item> Observation: one count per request with the status sent, one per backend call for each of the three
    methods, and a bound on the label tuples of each counter: the cap, exceeded by less than the number of
    goroutines that count at the same time.

  \<^bold>\<open>Bounds.\<close>
  There is no fuel. The select of a session's main loop is a list of inputs, one per iteration; the
  theorems hold for all lists, so for all schedules and lengths. While the session waits, for an
  input, a retry or a collaborator, the rest of the worker may change the shared world; theorems
  that depend on it say how. The retry loop of a debit and
  the redaction loop end by a measure. Sequence numbers, units and durations wrap at 64 bits as in
  Go, and the theorems that need it state the range. The body limits are those of the code (256 KiB at
  session open, 16 MiB on paid routes, 8 KiB of ticket request).

  \<^bold>\<open>Parameters.\<close>
  Third-party and environment code is an argument of the definitions: the YAML decoder, the file system,
  \<open>url.Parse\<close>, \<open>encoding/json\<close>'s decoder, net/http's transport and listener results, the generated
  gRPC stub with the daemon behind it, gRPC's \<open>status.FromError\<close>, go/parser, and the modules behind the
  \<open>Module\<close> interface. Theorems that need more than a type of them say so as a hypothesis or
  through one of the locales above, and each such theorem is applied to a concrete instance.

  \<^bold>\<open>Not modelled.\<close>
  Log lines of the handlers, the session and \<open>main\<close> (those of the metrics listener are modelled, without
  their attributes); latency values (an observation is counted, its value is not kept); histogram buckets; the
  text form of JSON answers; sockets, goroutine scheduling below
  the granularity of a handler, of one call of a session or of one call of a paid request (theory \<open>System\<close>
  interleaves these, so the two daemon calls of a session-open are one step there, and what a recorder holds is
  arbitrary); what the daemon keeps after \<open>CloseSession\<close>; client_golang's panic on label values that are not
  UTF-8; the flag errors of the lint command, on which package flag exits with 2 before the check runs; the generated gRPC and
  protobuf code of \<^verbatim>\<open>internal/contract/paymentsv1\<close> beyond its message structs, because it is
  generated; the wording of the lint report.

  \<^bold>\<open>Further work.\<close>
  Steps of other requests between the calls of one run of \<open>paymentMiddleware\<close> or of a session-open (for running
  sessions this is done).
\<close>

end
